theory Spec2Isabelle
  imports Main "HOL-Library.Word" "HOL-Library.AList" "HOL-Library.Multiset"
    "HOL-Library.Product_Lexorder"
begin

section \<open>Values shared by the whole proxy\<close>

text \<open>
  Go's \<^verbatim>\<open>any\<close> values that travel through \<^verbatim>\<open>map[string]any\<close> payloads and through
  \<^verbatim>\<open>encoding/json\<close> are modelled by their decoded form. An object is a finite map,
  written as an association list and read with \<open>map_of\<close>; a Go map assignment
  \<^verbatim>\<open>m[k] = v\<close> is \<open>AList.update k v m\<close>. The order of the members on the wire and the
  float64 reading of numbers belong to \<^verbatim>\<open>encoding/json\<close> and are not modelled.
\<close>

datatype json =
    JNull
  | JBool bool
  | JNum int
  | JStr string
  | JArr "json list"
  | JObj "(string \<times> json) list"

text \<open>Go's \<^verbatim>\<open>int\<close> on a 64-bit platform: subtraction wraps, comparison with zero is signed.\<close>

type_synonym go_int = "64 word"

section \<open>Variant descriptors (variant.go)\<close>

type_synonym VariantStatus = string

definition Stable :: VariantStatus where
  "Stable = ''stable''"

definition Experimental :: VariantStatus where
  "Experimental = ''experimental''"

definition Deprecated :: VariantStatus where
  "Deprecated = ''deprecated''"

record DeprecationInfo =
  dMessage :: string
  Replacement :: string
  RemovalDate :: string

text \<open>
  \<open>Hints\<close> is a Go map and \<open>DeprecationInfo\<close> a pointer: \<open>None\<close> is \<^verbatim>\<open>nil\<close>.
\<close>

record ServerVariant =
  ID :: string
  Description :: string
  Hints :: "(string \<times> string) list option"
  priority :: go_int
  Status :: VariantStatus
  DeprecationInfo :: "DeprecationInfo option"

definition Priority :: "ServerVariant \<Rightarrow> go_int" where
  "Priority v = priority v"

record VariantHints =
  hDescription :: string
  hHints :: "(string \<times> json) list option"

text \<open>The zero value \<^verbatim>\<open>VariantHints{}\<close>.\<close>

definition noHints :: VariantHints where
  "noHints = \<lparr>hDescription = [], hHints = None\<rparr>"

type_synonym RankingFunc = "VariantHints \<Rightarrow> ServerVariant list \<Rightarrow> ServerVariant list"

section \<open>Default ranking (ranking.go)\<close>

definition statusWeight :: "VariantStatus \<Rightarrow> go_int" where
  "statusWeight s =
     (if s = Stable \<or> s = [] then 0
      else if s = Experimental then 1
      else if s = Deprecated then 2
      else 3)"

text \<open>
  \<^verbatim>\<open>slices.SortStableFunc\<close> is the standard library's. On a slice of at most 20 elements
  it is exactly the insertion sort below (one block of \<^verbatim>\<open>insertionSortCmpFunc\<close>); for a
  comparison that is a strict weak order every stable sort returns the same slice.
  \<open>bubble cmp x ys\<close> is the inner loop
  \<^verbatim>\<open>for j := i; j > a && cmp(data[j], data[j-1]) < 0; j-- { swap }\<close>
  with \<open>ys\<close> the sorted prefix read from \<^verbatim>\<open>data[i-1]\<close> down to \<^verbatim>\<open>data[a]\<close>.
\<close>

fun bubble :: "('a \<Rightarrow> 'a \<Rightarrow> go_int) \<Rightarrow> 'a \<Rightarrow> 'a list \<Rightarrow> 'a list" where
  "bubble cmp x [] = [x]"
| "bubble cmp x (y # ys) =
     (if sint (cmp x y) < 0 then y # bubble cmp x ys else x # y # ys)"

fun insertionSortCmpFunc :: "('a \<Rightarrow> 'a \<Rightarrow> go_int) \<Rightarrow> 'a list \<Rightarrow> 'a list \<Rightarrow> 'a list" where
  "insertionSortCmpFunc cmp done [] = rev done"
| "insertionSortCmpFunc cmp done (x # xs) = insertionSortCmpFunc cmp (bubble cmp x done) xs"

definition SortStableFunc :: "('a \<Rightarrow> 'a \<Rightarrow> go_int) \<Rightarrow> 'a list \<Rightarrow> 'a list" where
  "SortStableFunc cmp xs = insertionSortCmpFunc cmp [] xs"

definition rankCmp :: "ServerVariant \<Rightarrow> ServerVariant \<Rightarrow> go_int" where
  "rankCmp a b =
     (if Priority a \<noteq> Priority b then Priority a - Priority b
      else statusWeight (Status a) - statusWeight (Status b))"

definition defaultRankingFunc :: RankingFunc where
  "defaultRankingFunc hints vs = SortStableFunc rankCmp vs"

section \<open>Errors, results and request parameters (the SDK's types)\<close>

text \<open>
  \<^verbatim>\<open>json.RawMessage\<close>: no bytes, the encoding of a value, or bytes that are not JSON.
\<close>

datatype RawMessage = Raw_empty | Raw_value json | Raw_invalid string

record jsonrpc_Error =
  Code :: int
  Message :: string
  Data :: RawMessage

definition CodeInvalidParams :: int where
  "CodeInvalidParams = - 32602"

definition CodeMethodNotFound :: int where
  "CodeMethodNotFound = - 32601"

text \<open>
  A Go \<^verbatim>\<open>error\<close>: a \<^verbatim>\<open>*jsonrpc.Error\<close>, an error of another type
  (\<^verbatim>\<open>errors.New\<close>), or an error that wraps another one (\<^verbatim>\<open>fmt.Errorf("%w")\<close>).
\<close>

datatype error =
    JsonRpcError jsonrpc_Error
  | PlainError string
  | WrappedError string error

text \<open>\<^verbatim>\<open>errors.As(err, &jErr)\<close> with \<^verbatim>\<open>jErr *jsonrpc.Error\<close> walks the chain of wrapped errors.\<close>

fun errors_As :: "error \<Rightarrow> jsonrpc_Error option" where
  "errors_As (JsonRpcError j) = Some j"
| "errors_As (PlainError m) = None"
| "errors_As (WrappedError m e) = errors_As e"

datatype panic = Panic string

record ToolCapabilities =
  tListChanged :: bool

record ResourceCapabilities =
  rSubscribe :: bool
  rListChanged :: bool

record PromptCapabilities =
  pListChanged :: bool

text \<open>
  \<^verbatim>\<open>mcp.ServerCapabilities\<close>. Every field is a pointer or a map, \<open>None\<close> is \<^verbatim>\<open>nil\<close>.
  \<^verbatim>\<open>Completions\<close> and \<^verbatim>\<open>Logging\<close> point to marker structs: the model keeps the pointer.
\<close>

record ServerCapabilities =
  capTools :: "ToolCapabilities option"
  capResources :: "ResourceCapabilities option"
  capPrompts :: "PromptCapabilities option"
  capCompletions :: "nat option"
  capLogging :: "nat option"
  capExperimental :: "(string \<times> json) list option"

text \<open>The zero value \<^verbatim>\<open>&mcp.ServerCapabilities{}\<close>.\<close>

definition noCapabilities :: ServerCapabilities where
  "noCapabilities =
     \<lparr>capTools = None, capResources = None, capPrompts = None,
      capCompletions = None, capLogging = None, capExperimental = None\<rparr>"

record ClientCapabilities =
  clientExperimental :: "(string \<times> json) list option"

datatype ParamsKind =
    ListToolsParams | ListResourcesParams | ListPromptsParams | ListResourceTemplatesParams
  | CallToolParamsRaw | ReadResourceParams | GetPromptParams
  | SubscribeParams | UnsubscribeParams | CompleteParams
  | InitializeParams | OtherParams

text \<open>
  The fields of the SDK's parameter structs that the proxy reads: the \<^verbatim>\<open>_meta\<close> map,
  the cursor of the list parameters, the capabilities of \<^verbatim>\<open>InitializeParams\<close>; \<open>pBody\<close>
  is everything else (tool name, arguments, URI).
\<close>

record Params =
  pKind :: ParamsKind
  Meta :: "(string \<times> json) list option"
  Cursor :: string
  pCapabilities :: "ClientCapabilities option"
  pBody :: json

text \<open>
  What \<^verbatim>\<open>req.GetParams()\<close> returns: a nil interface, a nil pointer of some parameter
  type wrapped in the interface, or a pointer to parameters.
\<close>

datatype ParamsRef = NilParams | TypedNil ParamsKind | Ptr Params

text \<open>The type assertion \<^verbatim>\<open>p, _ := params.(*mcp.T)\<close>: \<open>None\<close> is \<^verbatim>\<open>p == nil\<close>.\<close>

fun asKind :: "ParamsKind \<Rightarrow> ParamsRef \<Rightarrow> Params option" where
  "asKind k NilParams = None"
| "asKind k (TypedNil k') = None"
| "asKind k (Ptr p) = (if pKind p = k then Some p else None)"

record InitializeResult =
  iCapabilities :: "ServerCapabilities option"
  iBody :: json

datatype Result =
    NilResult
  | ListResult string json
  | PlainResult json
  | InitResult InitializeResult

text \<open>
  Modelled from the spec: the constants \<^verbatim>\<open>extensionID\<close> and \<^verbatim>\<open>metaKeyVariant\<close> are
  declared in a file that is not among the sources. The spec gives their values: the
  plural key names the capability, the singular key the per-request selector.
\<close>

definition extensionID :: string where
  "extensionID = ''io.modelcontextprotocol/server-variants''"

definition metaKeyVariant :: string where
  "metaKeyVariant = ''io.modelcontextprotocol/server-variant''"

section \<open>Backends and inner connections (backend.go, session.go)\<close>

text \<open>
  An \<^verbatim>\<open>*mcp.ClientSession\<close> to an inner server: its identity and how the inner server
  answers a call (\<^verbatim>\<open>ListTools\<close>, \<^verbatim>\<open>CallTool\<close>, \<^verbatim>\<open>Subscribe\<close>, ...) named by its method.
\<close>

record ClientSession =
  sessID :: nat
  rpc :: "string \<Rightarrow> Params option \<Rightarrow> error + Result"

text \<open>
  An inner \<^verbatim>\<open>*mcp.Server\<close> as the proxy meets it: whether \<^verbatim>\<open>server.Connect\<close> and the
  proxy client's \<^verbatim>\<open>client.Connect\<close> fail, how it answers, what it advertises.
\<close>

record mcp_Server =
  serverConnectErr :: "error option"
  clientConnectErr :: "error option"
  respond :: "string \<Rightarrow> Params option \<Rightarrow> error + Result"
  advertised :: "ServerCapabilities option"

datatype backend = InMemoryBackend mcp_Server

text \<open>
  \<open>cleanupFn\<close> is the closure \<^verbatim>\<open>func() { serverSession.Close() }\<close>: the session it closes.
\<close>

record innerConnection =
  clientSession :: ClientSession
  cleanupFn :: "nat option"

text \<open>
  The sessions that exist: every session opened so far has a number below \<open>nextSession\<close>,
  and \<open>closedSessions\<close> lists the \<^verbatim>\<open>Close()\<close> calls in order.
\<close>

record world =
  nextSession :: nat
  closedSessions :: "nat list"

definition session_Close :: "nat \<Rightarrow> world \<Rightarrow> world" where
  "session_Close i w = w\<lparr>closedSessions := closedSessions w @ [i]\<rparr>"

definition connect :: "backend \<Rightarrow> ServerVariant \<Rightarrow> nat option \<Rightarrow> world \<Rightarrow> (error + innerConnection) \<times> world" where
  "connect b v frontSession w =
     (case b of InMemoryBackend srv \<Rightarrow>
        (case serverConnectErr srv of
           Some err \<Rightarrow> (Inl err, w)
         | None \<Rightarrow>
             (let serverSession = nextSession w;
                  w1 = w\<lparr>nextSession := Suc serverSession\<rparr>
              in case clientConnectErr srv of
                   Some err \<Rightarrow> (Inl err, session_Close serverSession w1)
                 | None \<Rightarrow>
                     (let cs = nextSession w1;
                          w2 = w1\<lparr>nextSession := Suc cs\<rparr>
                      in (Inr \<lparr>clientSession = \<lparr>sessID = cs, rpc = respond srv\<rparr>,
                               cleanupFn = Some serverSession\<rparr>, w2)))))"

definition innerConnection_close :: "innerConnection \<Rightarrow> world \<Rightarrow> world" where
  "innerConnection_close c w =
     (let w1 = session_Close (sessID (clientSession c)) w
      in case cleanupFn c of None \<Rightarrow> w1 | Some ss \<Rightarrow> session_Close ss w1)"

section \<open>The variant registry (server.go)\<close>

record variantEntry =
  variant :: ServerVariant
  backend :: backend

text \<open>
  \<^verbatim>\<open>Server\<close>: the registered variants and the optional ranking function. The fields
  \<^verbatim>\<open>impl\<close> and \<^verbatim>\<open>shared\<close> are read by none of the functions below and are left out; the
  shared state of stateless mode is passed to the middleware as in \<^verbatim>\<open>mcpServer\<close>.
\<close>

record Server =
  variants :: "variantEntry list"
  rankingFunc :: "RankingFunc option"

definition NewServer :: Server where
  "NewServer = \<lparr>variants = [], rankingFunc = None\<rparr>"

definition addVariant :: "Server \<Rightarrow> ServerVariant \<Rightarrow> backend \<Rightarrow> go_int \<Rightarrow> panic + Server" where
  "addVariant s v b p =
     (if \<exists>e \<in> set (variants s). ID (variant e) = ID v
      then Inl (Panic (''variants: duplicate variant ID: '' @ ID v))
      else Inr (s\<lparr>variants := variants s @ [\<lparr>variant = v\<lparr>priority := p\<rparr>, backend = b\<rparr>]\<rparr>))"

definition WithVariant :: "Server \<Rightarrow> ServerVariant \<Rightarrow> mcp_Server \<Rightarrow> go_int \<Rightarrow> panic + Server" where
  "WithVariant s v mcpServer p = addVariant s v (InMemoryBackend mcpServer) p"

definition WithRanking :: "Server \<Rightarrow> RankingFunc option \<Rightarrow> Server" where
  "WithRanking s fn = s\<lparr>rankingFunc := fn\<rparr>"

text \<open>
  \<^verbatim>\<open>Variants\<close> allocates a slice and fills it element by element. The heap of
  \<^verbatim>\<open>[]ServerVariant\<close> slices is a list indexed by address; \<open>Variants_alloc\<close> returns the
  heap after the call and the address of the slice it returns.
\<close>

definition zeroVariant :: ServerVariant where
  "zeroVariant =
     \<lparr>ID = [], Description = [], Hints = None, priority = 0, Status = [], DeprecationInfo = None\<rparr>"

definition Variants_alloc :: "Server \<Rightarrow> ServerVariant list list \<Rightarrow> ServerVariant list list \<times> nat" where
  "Variants_alloc s h =
     (let out = length h;
          h1 = h @ [replicate (length (variants s)) zeroVariant]
      in (fold (\<lambda>i hp. hp[out := (hp ! out)[i := variant (variants s ! i)]])
               [0 ..< length (variants s)] h1,
          out))"

text \<open>The slice \<^verbatim>\<open>Variants()\<close> returns, as a value.\<close>

definition Variants :: "Server \<Rightarrow> ServerVariant list" where
  "Variants s = (case Variants_alloc s [] of (h, out) \<Rightarrow> h ! out)"

definition RankedVariants :: "Server \<Rightarrow> VariantHints \<Rightarrow> ServerVariant list" where
  "RankedVariants s hints =
     (let all = Variants s
      in if length all = 0 then all
         else (case rankingFunc s of
                 None \<Rightarrow> defaultRankingFunc hints all
               | Some rankFn \<Rightarrow> rankFn hints all))"

section \<open>Initialize helpers (server.go)\<close>

definition extractVariantHints :: "ParamsRef \<Rightarrow> VariantHints" where
  "extractVariantHints params =
     (case asKind InitializeParams params of
        None \<Rightarrow> noHints
      | Some p \<Rightarrow>
          (case pCapabilities p of
             None \<Rightarrow> noHints
           | Some caps \<Rightarrow>
               (case clientExperimental caps of
                  None \<Rightarrow> noHints
                | Some experimental \<Rightarrow>
                    (case map_of experimental extensionID of
                       None \<Rightarrow> noHints
                     | Some ext \<Rightarrow>
                         (case ext of
                            JObj extMap \<Rightarrow>
                              (case map_of extMap ''variantHints'' of
                                 Some (JObj vh) \<Rightarrow>
                                   \<lparr>hDescription =
                                      (case map_of vh ''description'' of
                                         Some (JStr d) \<Rightarrow> d
                                       | _ \<Rightarrow> []),
                                    hHints =
                                      (case map_of vh ''hints'' of
                                         Some (JObj h) \<Rightarrow> Some h
                                       | _ \<Rightarrow> None)\<rparr>
                               | _ \<Rightarrow> noHints)
                          | _ \<Rightarrow> noHints)))))"

text \<open>
  The values stored under \<^verbatim>\<open>"hints"\<close> and \<^verbatim>\<open>"deprecationInfo"\<close> as the response
  carries them: a \<^verbatim>\<open>map[string]string\<close>, and the struct with its \<^verbatim>\<open>omitempty\<close> tags.
\<close>

definition hintsValue :: "(string \<times> string) list \<Rightarrow> json" where
  "hintsValue h = JObj (map (\<lambda>(k, v). (k, JStr v)) h)"

definition deprecationInfoValue :: "DeprecationInfo \<Rightarrow> json" where
  "deprecationInfoValue d =
     JObj ([(''message'', JStr (dMessage d))]
           @ (if Replacement d = [] then [] else [(''replacement'', JStr (Replacement d))])
           @ (if RemovalDate d = [] then [] else [(''removalDate'', JStr (RemovalDate d))]))"

text \<open>The body of the loop that builds \<^verbatim>\<open>availableVariants\<close>.\<close>

definition variantPayload :: "ServerVariant \<Rightarrow> (string \<times> json) list" where
  "variantPayload v =
     (let m0 = [(''id'', JStr (ID v)), (''description'', JStr (Description v))];
          m1 = (case Hints v of None \<Rightarrow> m0 | Some h \<Rightarrow> AList.update ''hints'' (hintsValue h) m0);
          m2 = (if Status v \<noteq> [] then AList.update ''status'' (JStr (Status v)) m1 else m1);
          m3 = (case DeprecationInfo v of
                  None \<Rightarrow> m2
                | Some d \<Rightarrow> AList.update ''deprecationInfo'' (deprecationInfoValue d) m2)
      in m3)"

definition enrichInitResult :: "Server \<Rightarrow> Result \<Rightarrow> ParamsRef \<Rightarrow> error + Result" where
  "enrichInitResult s result params =
     (case result of
        InitResult initResult \<Rightarrow>
          (let ranked = RankedVariants s (extractVariantHints params);
               availableVariants = map (\<lambda>v. JObj (variantPayload v)) ranked;
               caps = (case iCapabilities initResult of None \<Rightarrow> noCapabilities | Some c \<Rightarrow> c);
               experimental = (case capExperimental caps of None \<Rightarrow> [] | Some e \<Rightarrow> e);
               payload = JObj [(''availableVariants'', JArr availableVariants),
                               (''moreVariantsAvailable'',
                                  JBool (length ranked < length (variants s)))]
           in Inr (InitResult (initResult\<lparr>iCapabilities :=
                     Some (caps\<lparr>capExperimental :=
                       Some (AList.update extensionID payload experimental)\<rparr>)\<rparr>)))
      | _ \<Rightarrow> Inr result)"

section \<open>Capability union (server.go)\<close>

text \<open>One iteration of the loop of \<^verbatim>\<open>unionCapabilities\<close>; a \<^verbatim>\<open>nil\<close> entry is skipped.\<close>

definition unionStep :: "ServerCapabilities \<Rightarrow> ServerCapabilities option \<Rightarrow> ServerCapabilities" where
  "unionStep u0 caps =
     (case caps of
        None \<Rightarrow> u0
      | Some c \<Rightarrow>
          (let u1 = (case capTools c of
                       None \<Rightarrow> u0
                     | Some t \<Rightarrow>
                         (let ut = (case capTools u0 of
                                      None \<Rightarrow> \<lparr>tListChanged = False\<rparr> | Some x \<Rightarrow> x)
                          in u0\<lparr>capTools :=
                               Some (ut\<lparr>tListChanged := tListChanged ut \<or> tListChanged t\<rparr>)\<rparr>));
               u2 = (case capResources c of
                       None \<Rightarrow> u1
                     | Some r \<Rightarrow>
                         (let ur = (case capResources u1 of
                                      None \<Rightarrow> \<lparr>rSubscribe = False, rListChanged = False\<rparr>
                                    | Some x \<Rightarrow> x)
                          in u1\<lparr>capResources :=
                               Some (ur\<lparr>rSubscribe := rSubscribe ur \<or> rSubscribe r,
                                        rListChanged := rListChanged ur \<or> rListChanged r\<rparr>)\<rparr>));
               u3 = (case capPrompts c of
                       None \<Rightarrow> u2
                     | Some q \<Rightarrow>
                         (let uq = (case capPrompts u2 of
                                      None \<Rightarrow> \<lparr>pListChanged = False\<rparr> | Some x \<Rightarrow> x)
                          in u2\<lparr>capPrompts :=
                               Some (uq\<lparr>pListChanged := pListChanged uq \<or> pListChanged q\<rparr>)\<rparr>));
               u4 = (if capCompletions c \<noteq> None \<and> capCompletions u3 = None
                     then u3\<lparr>capCompletions := capCompletions c\<rparr> else u3);
               u5 = (if capLogging c \<noteq> None \<and> capLogging u4 = None
                     then u4\<lparr>capLogging := capLogging c\<rparr> else u4);
               u6 = (case capExperimental c of
                       None \<Rightarrow> u5
                     | Some e \<Rightarrow>
                         (let ue = (case capExperimental u5 of None \<Rightarrow> [] | Some x \<Rightarrow> x)
                          in u5\<lparr>capExperimental :=
                               Some (fold (\<lambda>(k, v) m. if map_of m k = None
                                                       then AList.update k v m else m) e ue)\<rparr>))
           in u6))"

definition unionCapabilities :: "ServerCapabilities option list \<Rightarrow> ServerCapabilities" where
  "unionCapabilities allCaps = foldl unionStep noCapabilities allCaps"

section \<open>Cursor scoping (dispatcher.go)\<close>

record variantCursor =
  VariantID :: string
  InnerCursor :: string

text \<open>
  The four standard-library calls of the cursor codec, as the proxy uses them:
  \<^verbatim>\<open>json.Marshal\<close> of a \<open>variantCursor\<close> (\<open>None\<close>: an error), \<^verbatim>\<open>json.Unmarshal\<close> into a
  \<open>variantCursor\<close> (\<open>None\<close>: an error), \<^verbatim>\<open>base64.StdEncoding.EncodeToString\<close> and
  \<^verbatim>\<open>base64.StdEncoding.DecodeString\<close> (\<open>None\<close>: an error). They are not code of the
  proxy: its functions take them as a parameter.
\<close>

record stdlib =
  json_Marshal :: "variantCursor \<Rightarrow> string option"
  json_Unmarshal :: "string \<Rightarrow> variantCursor option"
  base64_EncodeToString :: "string \<Rightarrow> string"
  base64_DecodeString :: "string \<Rightarrow> string option"

definition wrapCursor :: "stdlib \<Rightarrow> string \<Rightarrow> string \<Rightarrow> string" where
  "wrapCursor L cursor variantID =
     (if cursor = [] then []
      else (case json_Marshal L \<lparr>VariantID = variantID, InnerCursor = cursor\<rparr> of
              None \<Rightarrow> []
            | Some data \<Rightarrow> base64_EncodeToString L data))"

definition invalidCursorFormat :: error where
  "invalidCursorFormat =
     JsonRpcError \<lparr>Code = CodeInvalidParams, Message = ''Invalid cursor format'', Data = Raw_empty\<rparr>"

definition unwrapCursor :: "stdlib \<Rightarrow> string \<Rightarrow> string \<Rightarrow> error + string" where
  "unwrapCursor L cursor expectedVariant =
     (if cursor = [] then Inr []
      else (case base64_DecodeString L cursor of
              None \<Rightarrow> Inl invalidCursorFormat
            | Some data \<Rightarrow>
                (case json_Unmarshal L data of
                   None \<Rightarrow> Inl invalidCursorFormat
                 | Some wrapped \<Rightarrow>
                     if VariantID wrapped \<noteq> expectedVariant
                     then Inl (JsonRpcError
                            \<lparr>Code = CodeInvalidParams,
                             Message = ''Cursor invalid for requested variant'',
                             Data = Raw_value (JObj
                               [(''cursorVariant'', JStr (VariantID wrapped)),
                                (''requestedVariant'', JStr expectedVariant)])\<rparr>)
                     else Inr (InnerCursor wrapped))))"

section \<open>The dispatcher (dispatcher.go)\<close>

record dispatcher =
  server :: Server
  connections :: "(string \<times> innerConnection) list"

definition createInvalidVariantError :: "dispatcher \<Rightarrow> string \<Rightarrow> error" where
  "createInvalidVariantError d requestedVariant =
     (let ranked = RankedVariants (server d) noHints;
          availableIDs = map ID ranked
      in JsonRpcError
           \<lparr>Code = CodeInvalidParams,
            Message = ''Invalid server variant'',
            Data = Raw_value (JObj
              [(''requestedVariant'', JStr requestedVariant),
               (''availableVariants'', JArr (map JStr availableIDs))])\<rparr>)"

definition variantIDFromMeta :: "ParamsRef \<Rightarrow> string" where
  "variantIDFromMeta params =
     (case params of
        NilParams \<Rightarrow> []
      | TypedNil k \<Rightarrow> []
      | Ptr p \<Rightarrow>
          (case Meta p of
             None \<Rightarrow> []
           | Some meta \<Rightarrow>
               (case map_of meta metaKeyVariant of
                  Some (JStr ident) \<Rightarrow> ident
                | _ \<Rightarrow> [])))"

definition getSession :: "dispatcher \<Rightarrow> ParamsRef \<Rightarrow> error + (string \<times> ClientSession)" where
  "getSession d params =
     (let variantID0 = variantIDFromMeta params;
          chosen =
            (if variantID0 = []
             then (case RankedVariants (server d) noHints of
                     [] \<Rightarrow> Inl (PlainError ''no variants available'')
                   | v # rest \<Rightarrow> Inr (ID v))
             else Inr variantID0)
      in case chosen of
           Inl err \<Rightarrow> Inl err
         | Inr variantID \<Rightarrow>
             (case map_of (connections d) variantID of
                None \<Rightarrow> Inl (createInvalidVariantError d variantID)
              | Some conn \<Rightarrow> Inr (variantID, clientSession conn)))"

text \<open>
  \<^verbatim>\<open>json.Unmarshal(raw, &data)\<close> with \<^verbatim>\<open>data\<close> a non-nil \<^verbatim>\<open>map[string]any\<close>; the error
  is discarded by the caller. \<open>None\<close> is the \<^verbatim>\<open>nil\<close> map: the JSON value \<^verbatim>\<open>null\<close>
  unmarshals into a map by setting it to \<^verbatim>\<open>nil\<close>. An object stores its members into the
  map; any other value and bytes that are not JSON are an error that leaves the map as
  it was.
\<close>

definition json_Unmarshal_map :: "RawMessage \<Rightarrow> (string \<times> json) list \<Rightarrow> (string \<times> json) list option" where
  "json_Unmarshal_map raw m =
     (case raw of
        Raw_value (JObj members) \<Rightarrow> Some (AList.merge m members)
      | Raw_value JNull \<Rightarrow> None
      | _ \<Rightarrow> Some m)"

text \<open>
  \<open>enrichError_alloc\<close> works on the heap of error objects, a list indexed by address:
  \<open>err\<close> is the pointer handed in, and the result is the heap after the call with the
  pointer returned. An assignment to an entry of the \<^verbatim>\<open>nil\<close> map panics.
\<close>

definition enrichError_alloc :: "error list \<Rightarrow> nat \<Rightarrow> string \<Rightarrow> panic + (error list \<times> nat)" where
  "enrichError_alloc h err variantID =
     (case errors_As (h ! err) of
        None \<Rightarrow> Inr (h, err)
      | Some jErr \<Rightarrow>
          if Code jErr = CodeInvalidParams \<or> Code jErr = CodeMethodNotFound
          then (let data0 = Some [];
                    data1 = (if Data jErr \<noteq> Raw_empty
                             then json_Unmarshal_map (Data jErr) [] else data0)
                in case data1 of
                     None \<Rightarrow> Inl (Panic ''assignment to entry in nil map'')
                   | Some dm \<Rightarrow>
                       (let data2 = AList.update ''activeVariant'' (JStr variantID) dm;
                            enriched = \<lparr>Code = Code jErr, Message = Message jErr,
                                        Data = Raw_value (JObj data2)\<rparr>
                        in Inr (h @ [JsonRpcError enriched], length h)))
          else Inr (h, err))"

text \<open>The error \<^verbatim>\<open>enrichError\<close> returns, as a value.\<close>

definition enrichError :: "error \<Rightarrow> string \<Rightarrow> panic + error" where
  "enrichError err variantID =
     (case enrichError_alloc [err] 0 variantID of
        Inl pn \<Rightarrow> Inl pn
      | Inr (h, q) \<Rightarrow> Inr (h ! q))"

text \<open>
  A handler returns a result or an error, or panics; beside it the model keeps the calls
  made to inner sessions while the request was handled: the session called and the
  method.
\<close>

type_synonym outcome = "panic + (error + Result)"

type_synonym calls = "(nat \<times> string) list"

text \<open>
  The step every handler ends with:
  \<^verbatim>\<open>result, err := session.M(ctx, p); if err != nil { return nil, enrichError(err, variantID) }\<close>,
  then \<open>post\<close> applied to the result.
\<close>

definition forward :: "ClientSession \<Rightarrow> string \<Rightarrow> Params option \<Rightarrow> string \<Rightarrow> (Result \<Rightarrow> Result) \<Rightarrow> outcome \<times> calls" where
  "forward session method p variantID post =
     ((case rpc session method p of
         Inl err \<Rightarrow>
           (case enrichError err variantID of
              Inl pn \<Rightarrow> Inl pn
            | Inr enriched \<Rightarrow> Inr (Inl enriched))
       | Inr result \<Rightarrow> Inr (Inr (post result))),
      [(sessID session, method)])"

definition listMethods :: "string list" where
  "listMethods = [''tools/list'', ''resources/list'', ''prompts/list'', ''resources/templates/list'']"

text \<open>The parameter type each branch of \<^verbatim>\<open>handleList\<close> asserts.\<close>

definition listParamsKind :: "string \<Rightarrow> ParamsKind" where
  "listParamsKind method =
     (if method = ''tools/list'' then ListToolsParams
      else if method = ''resources/list'' then ListResourcesParams
      else if method = ''prompts/list'' then ListPromptsParams
      else ListResourceTemplatesParams)"

text \<open>
  The four branches of \<^verbatim>\<open>handleList\<close> differ only in the parameter type and in the
  inner call, which the method names here.
\<close>

definition handleList :: "stdlib \<Rightarrow> dispatcher \<Rightarrow> string \<Rightarrow> ParamsRef \<Rightarrow> outcome \<times> calls" where
  "handleList L d method params =
     (case getSession d params of
        Inl err \<Rightarrow> (Inr (Inl err), [])
      | Inr (variantID, session) \<Rightarrow>
          if method \<in> set listMethods
          then (let p = asKind (listParamsKind method) params;
                    unwrapped =
                      (case p of
                         None \<Rightarrow> Inr None
                       | Some q \<Rightarrow>
                           if Cursor q \<noteq> []
                           then (case unwrapCursor L (Cursor q) variantID of
                                   Inl err \<Rightarrow> Inl err
                                 | Inr innerCursor \<Rightarrow> Inr (Some (q\<lparr>Cursor := innerCursor\<rparr>)))
                           else Inr (Some q))
                in case unwrapped of
                     Inl err \<Rightarrow> (Inr (Inl err), [])
                   | Inr p1 \<Rightarrow>
                       forward session method p1 variantID
                         (\<lambda>result. case result of
                            ListResult nextCursor items \<Rightarrow>
                              if nextCursor \<noteq> []
                              then ListResult (wrapCursor L nextCursor variantID) items
                              else result
                          | _ \<Rightarrow> result))
          else (Inr (Inl (PlainError (''unsupported list method: '' @ method))), []))"

definition invalidParams :: "string \<Rightarrow> error" where
  "invalidParams msg = JsonRpcError \<lparr>Code = CodeInvalidParams, Message = msg, Data = Raw_empty\<rparr>"

definition handleCall :: "dispatcher \<Rightarrow> string \<Rightarrow> ParamsRef \<Rightarrow> outcome \<times> calls" where
  "handleCall d method params =
     (case getSession d params of
        Inl err \<Rightarrow> (Inr (Inl err), [])
      | Inr (variantID, session) \<Rightarrow>
          if method = ''tools/call''
          then (case asKind CallToolParamsRaw params of
                  None \<Rightarrow> (Inr (Inl (invalidParams ''missing or invalid tools/call params'')), [])
                | Some raw \<Rightarrow> forward session method (Some raw) variantID (\<lambda>r. r))
          else if method = ''resources/read''
          then (case asKind ReadResourceParams params of
                  None \<Rightarrow> (Inr (Inl (invalidParams ''missing or invalid resources/read params'')), [])
                | Some p \<Rightarrow> forward session method (Some p) variantID (\<lambda>r. r))
          else if method = ''prompts/get''
          then (case asKind GetPromptParams params of
                  None \<Rightarrow> (Inr (Inl (invalidParams ''missing or invalid prompts/get params'')), [])
                | Some p \<Rightarrow> forward session method (Some p) variantID (\<lambda>r. r))
          else (Inr (Inl (PlainError (''unsupported call method: '' @ method))), []))"

definition handleSubscribe :: "dispatcher \<Rightarrow> ParamsRef \<Rightarrow> outcome \<times> calls" where
  "handleSubscribe d params =
     (case getSession d params of
        Inl err \<Rightarrow> (Inr (Inl err), [])
      | Inr (variantID, session) \<Rightarrow>
          (case asKind SubscribeParams params of
             None \<Rightarrow> (Inr (Inl (invalidParams ''missing or invalid resources/subscribe params'')), [])
           | Some p \<Rightarrow> forward session ''resources/subscribe'' (Some p) variantID (\<lambda>r. NilResult)))"

definition handleUnsubscribe :: "dispatcher \<Rightarrow> ParamsRef \<Rightarrow> outcome \<times> calls" where
  "handleUnsubscribe d params =
     (case getSession d params of
        Inl err \<Rightarrow> (Inr (Inl err), [])
      | Inr (variantID, session) \<Rightarrow>
          (case asKind UnsubscribeParams params of
             None \<Rightarrow> (Inr (Inl (invalidParams ''missing or invalid resources/unsubscribe params'')), [])
           | Some p \<Rightarrow> forward session ''resources/unsubscribe'' (Some p) variantID (\<lambda>r. NilResult)))"

definition handleCompletion :: "dispatcher \<Rightarrow> ParamsRef \<Rightarrow> outcome \<times> calls" where
  "handleCompletion d params =
     (case getSession d params of
        Inl err \<Rightarrow> (Inr (Inl err), [])
      | Inr (variantID, session) \<Rightarrow>
          (case asKind CompleteParams params of
             None \<Rightarrow> (Inr (Inl (invalidParams ''missing or invalid completion/complete params'')), [])
           | Some p \<Rightarrow> forward session ''completion/complete'' (Some p) variantID (\<lambda>r. r)))"

text \<open>The methods \<^verbatim>\<open>handle\<close> routes to an inner session; every other one goes to \<open>next\<close>.\<close>

definition routedMethods :: "string list" where
  "routedMethods =
     listMethods @ [''tools/call'', ''resources/read'', ''prompts/get'',
                    ''resources/subscribe'', ''resources/unsubscribe'', ''completion/complete'']"

definition handle :: "stdlib \<Rightarrow> dispatcher \<Rightarrow> string \<Rightarrow> ParamsRef \<Rightarrow> (string \<Rightarrow> ParamsRef \<Rightarrow> error + Result) \<Rightarrow> outcome \<times> calls" where
  "handle L d method params next =
     (if method \<in> set listMethods then handleList L d method params
      else if method \<in> {''tools/call'', ''resources/read'', ''prompts/get''}
      then handleCall d method params
      else if method = ''resources/subscribe'' then handleSubscribe d params
      else if method = ''resources/unsubscribe'' then handleUnsubscribe d params
      else if method = ''completion/complete'' then handleCompletion d params
      else (Inr (next method params), []))"

section \<open>Session lifecycle (session.go)\<close>

record sessionState =
  ssDispatcher :: dispatcher

text \<open>
  The loop of \<^verbatim>\<open>createSessionState\<close> over the remaining entries, with the connections
  made so far.
\<close>

fun connectAll :: "variantEntry list \<Rightarrow> nat option \<Rightarrow> (string \<times> innerConnection) list \<Rightarrow> world \<Rightarrow> (error + (string \<times> innerConnection) list) \<times> world" where
  "connectAll [] frontSession conns w = (Inr conns, w)"
| "connectAll (entry # rest) frontSession conns w =
     (case connect (backend entry) (variant entry) frontSession w of
        (Inl err, w1) \<Rightarrow> (Inl err, fold (\<lambda>(k, c). innerConnection_close c) conns w1)
      | (Inr conn, w1) \<Rightarrow>
          connectAll rest frontSession (AList.update (ID (variant entry)) conn conns) w1)"

definition createSessionState :: "Server \<Rightarrow> nat option \<Rightarrow> world \<Rightarrow> (error + sessionState) \<times> world" where
  "createSessionState s frontSession w =
     (case connectAll (variants s) frontSession [] w of
        (Inl err, w1) \<Rightarrow> (Inl err, w1)
      | (Inr conns, w1) \<Rightarrow>
          (Inr \<lparr>ssDispatcher = \<lparr>server = s, connections = conns\<rparr>\<rparr>, w1))"

text \<open>
  What the middleware works on: the \<^verbatim>\<open>sync.Map\<close> of per-session states, keyed by the
  front session, and the sessions of the world. The goroutine that waits for the front
  session to close is not part of the request and is not modelled.
\<close>

record proxy =
  sessions :: "nat \<Rightarrow> sessionState option"
  pWorld :: world

definition sessionMiddleware :: "stdlib \<Rightarrow> Server \<Rightarrow> sessionState option \<Rightarrow> (string \<Rightarrow> ParamsRef \<Rightarrow> error + Result) \<Rightarrow> proxy \<Rightarrow> nat \<Rightarrow> string \<Rightarrow> ParamsRef \<Rightarrow> (outcome \<times> calls) \<times> proxy" where
  "sessionMiddleware L s shared next st ss method params =
     (if method = ''initialize''
      then (case next method params of
              Inl err \<Rightarrow> ((Inr (Inl err), []), st)
            | Inr result \<Rightarrow>
                (case shared of
                   None \<Rightarrow>
                     (case createSessionState s (Some ss) (pWorld st) of
                        (Inl err, w1) \<Rightarrow> ((Inr (Inl err), []), st\<lparr>pWorld := w1\<rparr>)
                      | (Inr state, w1) \<Rightarrow>
                          ((Inr (enrichInitResult s result params), []),
                           st\<lparr>sessions := (sessions st)(ss \<mapsto> state), pWorld := w1\<rparr>))
                 | Some sh \<Rightarrow> ((Inr (enrichInitResult s result params), []), st)))
      else (case sessions st ss of
              Some state \<Rightarrow> (handle L (ssDispatcher state) method params next, st)
            | None \<Rightarrow>
                (case shared of
                   Some sh \<Rightarrow> (handle L (ssDispatcher sh) method params next, st)
                 | None \<Rightarrow> ((Inr (next method params), []), st))))"

section \<open>Reading capability sets and descriptors\<close>

text \<open>The first value that is not \<^verbatim>\<open>nil\<close>, in the order of the list.\<close>

fun firstSome :: "'a option list \<Rightarrow> 'a option" where
  "firstSome [] = None"
| "firstSome (None # xs) = firstSome xs"
| "firstSome (Some x # xs) = Some x"

text \<open>The experimental map of a capability set; a \<^verbatim>\<open>nil\<close> map has no key.\<close>

definition experimentalOf :: "ServerCapabilities \<Rightarrow> (string \<times> json) list" where
  "experimentalOf c = (case capExperimental c of None \<Rightarrow> [] | Some e \<Rightarrow> e)"

text \<open>The boolean sub-flags: a capability that is not advertised has no flag set.\<close>

definition toolsListChanged :: "ServerCapabilities \<Rightarrow> bool" where
  "toolsListChanged c = (case capTools c of None \<Rightarrow> False | Some t \<Rightarrow> tListChanged t)"

definition resourcesSubscribe :: "ServerCapabilities \<Rightarrow> bool" where
  "resourcesSubscribe c = (case capResources c of None \<Rightarrow> False | Some r \<Rightarrow> rSubscribe r)"

definition resourcesListChanged :: "ServerCapabilities \<Rightarrow> bool" where
  "resourcesListChanged c = (case capResources c of None \<Rightarrow> False | Some r \<Rightarrow> rListChanged r)"

definition promptsListChanged :: "ServerCapabilities \<Rightarrow> bool" where
  "promptsListChanged c = (case capPrompts c of None \<Rightarrow> False | Some q \<Rightarrow> pListChanged q)"

text \<open>A descriptor whose empty status is written out as \<^verbatim>\<open>"stable"\<close>.\<close>

definition stableIfEmpty :: "ServerVariant \<Rightarrow> ServerVariant" where
  "stableIfEmpty v = (if Status v = [] then v\<lparr>Status := Stable\<rparr> else v)"

section \<open>Configurations used in the examples\<close>

text \<open>An inner server that connects and answers every call with an empty result.\<close>

definition quietServer :: mcp_Server where
  "quietServer =
     \<lparr>serverConnectErr = None, clientConnectErr = None,
      respond = (\<lambda>method p. Inr NilResult), advertised = None\<rparr>"

definition plainVariant :: "string \<Rightarrow> ServerVariant" where
  "plainVariant i =
     \<lparr>ID = i, Description = [], Hints = None, priority = 0, Status = Stable,
      DeprecationInfo = None\<rparr>"

text \<open>
  Two variants registered with the priorities \<^verbatim>\<open>math.MinInt64\<close> and \<^verbatim>\<open>1\<close>, in this order.
\<close>

definition overflowServer :: Server where
  "overflowServer =
     projr (WithVariant
       (projr (WithVariant NewServer (plainVariant ''first'') quietServer (- 9223372036854775808)))
       (plainVariant ''second'') quietServer 1)"

section \<open>Building a registry, and reading sessions\<close>

text \<open>
  The chain \<^verbatim>\<open>NewServer(impl).WithVariant(...).WithVariant(...)\<close>: the registrations in
  order; the first panic ends it.
\<close>

fun registerAll :: "Server \<Rightarrow> (ServerVariant \<times> mcp_Server \<times> go_int) list \<Rightarrow> panic + Server" where
  "registerAll s [] = Inr s"
| "registerAll s ((v, mcpServer, p) # rest) =
     (case WithVariant s v mcpServer p of
        Inl pn \<Rightarrow> Inl pn
      | Inr s' \<Rightarrow> registerAll s' rest)"

text \<open>A descriptor as the registry stores it: with the priority given at registration.\<close>

definition registered :: "ServerVariant \<times> mcp_Server \<times> go_int \<Rightarrow> ServerVariant" where
  "registered r = (case r of (v, mcpServer, p) \<Rightarrow> v\<lparr>priority := p\<rparr>)"

text \<open>
  The sessions a table of inner connections holds: each connection's client session and
  the server session its cleanup closes.
\<close>

definition sessionsOf :: "(string \<times> innerConnection) list \<Rightarrow> nat set" where
  "sessionsOf conns = (\<Union>(k, c) \<in> set conns. insert (sessID (clientSession c)) (set_option (cleanupFn c)))"

text \<open>An inner server on which the proxy client's \<^verbatim>\<open>Connect\<close> fails.\<close>

definition refusingServer :: mcp_Server where
  "refusingServer = quietServer\<lparr>clientConnectErr := Some (PlainError ''refused'')\<rparr>"

text \<open>A registry whose second backend cannot be connected.\<close>

definition halfServer :: Server where
  "halfServer =
     projr (WithVariant
       (projr (WithVariant NewServer (plainVariant ''first'') quietServer 0))
       (plainVariant ''second'') refusingServer 1)"

text \<open>No session opened yet.\<close>

definition emptyWorld :: world where
  "emptyWorld = \<lparr>nextSession = 0, closedSessions = []\<rparr>"

text \<open>The registrations that build \<open>overflowServer\<close>.\<close>

definition overflowRegs :: "(ServerVariant \<times> mcp_Server \<times> go_int) list" where
  "overflowRegs =
     [(plainVariant ''first'', quietServer, - 9223372036854775808),
      (plainVariant ''second'', quietServer, 1)]"

section \<open>The standard library: UTF-8, JSON and base64 (unicode/utf8, encoding/json, encoding/base64)\<close>

text \<open>
  The cursor codec calls \<^verbatim>\<open>json.Marshal\<close> and \<^verbatim>\<open>json.Unmarshal\<close> on a \<open>variantCursor\<close> and
  \<^verbatim>\<open>base64.StdEncoding\<close>. These are Go's standard library (go 1.23 with toolchain 1.24
  in \<^verbatim>\<open>go.mod\<close>), not code of the proxy; the definitions of this section follow the
  library's behaviour on the calls the codec makes. A Go string is a sequence of bytes:
  a \<open>string\<close> here, each \<open>char\<close> a byte.

  \<^verbatim>\<open>utf8.DecodeRuneInString\<close> returns the rune at the head of the string and its width in
  bytes; an encoding that is not valid gives \<^verbatim>\<open>(RuneError, 1)\<close>, the empty string
  \<^verbatim>\<open>(RuneError, 0)\<close>.
\<close>

definition RuneError :: nat where
  "RuneError = 0xFFFD"

definition continuation :: "char \<Rightarrow> bool" where
  "continuation c = (0x80 \<le> (of_char c :: nat) \<and> (of_char c :: nat) \<le> 0xBF)"

text \<open>The range accepted for the second byte, which depends on the first.\<close>

definition acceptSecond :: "nat \<Rightarrow> char \<Rightarrow> bool" where
  "acceptSecond s0 c =
     (let s1 = of_char c :: nat
      in if s0 = 0xE0 then 0xA0 \<le> s1 \<and> s1 \<le> 0xBF
         else if s0 = 0xED then 0x80 \<le> s1 \<and> s1 \<le> 0x9F
         else if s0 = 0xF0 then 0x90 \<le> s1 \<and> s1 \<le> 0xBF
         else if s0 = 0xF4 then 0x80 \<le> s1 \<and> s1 \<le> 0x8F
         else 0x80 \<le> s1 \<and> s1 \<le> 0xBF)"

fun DecodeRuneInString :: "string \<Rightarrow> nat \<times> nat" where
  "DecodeRuneInString [] = (RuneError, 0)"
| "DecodeRuneInString (c0 # cs) =
     (let s0 = of_char c0 :: nat
      in if s0 < 0x80 then (s0, 1)
         else if s0 < 0xC2 \<or> 0xF4 < s0 then (RuneError, 1)
         else if s0 < 0xE0
         then (case cs of
                 c1 # r \<Rightarrow>
                   if acceptSecond s0 c1
                   then ((s0 mod 32) * 64 + of_char c1 mod 64, 2)
                   else (RuneError, 1)
               | [] \<Rightarrow> (RuneError, 1))
         else if s0 < 0xF0
         then (case cs of
                 c1 # c2 # r \<Rightarrow>
                   if acceptSecond s0 c1 \<and> continuation c2
                   then ((s0 mod 16) * 4096 + (of_char c1 mod 64) * 64 + of_char c2 mod 64, 3)
                   else (RuneError, 1)
               | _ \<Rightarrow> (RuneError, 1))
         else (case cs of
                 c1 # c2 # c3 # r \<Rightarrow>
                   if acceptSecond s0 c1 \<and> continuation c2 \<and> continuation c3
                   then ((s0 mod 8) * 262144 + (of_char c1 mod 64) * 4096
                           + (of_char c2 mod 64) * 64 + of_char c3 mod 64, 4)
                   else (RuneError, 1)
               | _ \<Rightarrow> (RuneError, 1)))"

text \<open>
  \<^verbatim>\<open>utf8.EncodeRune\<close>: a surrogate or a rune above \<^verbatim>\<open>U+10FFFF\<close> is written as
  \<^verbatim>\<open>RuneError\<close>.
\<close>

definition EncodeRune :: "nat \<Rightarrow> string" where
  "EncodeRune r =
     (if r \<le> 0x7F then [char_of r]
      else if r \<le> 0x7FF then [char_of (0xC0 + r div 64), char_of (0x80 + r mod 64)]
      else if 0x10FFFF < r \<or> (0xD800 \<le> r \<and> r \<le> 0xDFFF)
      then [CHR 0xEF, CHR 0xBF, CHR 0xBD]
      else if r \<le> 0xFFFF
      then [char_of (0xE0 + r div 4096), char_of (0x80 + (r div 64) mod 64),
            char_of (0x80 + r mod 64)]
      else [char_of (0xF0 + r div 262144), char_of (0x80 + (r div 4096) mod 64),
            char_of (0x80 + (r div 64) mod 64), char_of (0x80 + r mod 64)])"

text \<open>\<^verbatim>\<open>utf8.ValidString\<close>: every rune of the string decodes.\<close>

fun ValidString :: "string \<Rightarrow> bool" where
  "ValidString [] = True"
| "ValidString (c # cs) =
     (case DecodeRuneInString (c # cs) of
        (r, n) \<Rightarrow> \<not> (r = RuneError \<and> n = 1) \<and> ValidString (drop (n - 1) cs))"

text \<open>
  \<^verbatim>\<open>json.Marshal\<close> of a string (\<^verbatim>\<open>appendString\<close> with HTML escaping): the bytes of
  \<^verbatim>\<open>htmlSafeSet\<close> are copied; quote and backslash get a backslash; backspace, form feed,
  newline, carriage return and tab their short escapes; the other control bytes and
  \<^verbatim>\<open><\<close>, \<^verbatim>\<open>>\<close>, \<^verbatim>\<open>&\<close> are written as a \<^verbatim>\<open>u00XX\<close> escape; a byte that starts no valid
  rune is written as the escape of \<^verbatim>\<open>U+FFFD\<close>; \<^verbatim>\<open>U+2028\<close> and \<^verbatim>\<open>U+2029\<close> are written as
  their escapes; every other rune is copied.
\<close>

definition hex :: string where
  "hex = ''0123456789abcdef''"

definition htmlSafeSet :: "char \<Rightarrow> bool" where
  "htmlSafeSet c =
     (0x20 \<le> (of_char c :: nat) \<and> (of_char c :: nat) < 0x80
      \<and> c \<noteq> CHR 0x22 \<and> c \<noteq> CHR ''&'' \<and> c \<noteq> CHR ''<'' \<and> c \<noteq> CHR ''>'' \<and> c \<noteq> CHR 0x5C)"

definition escapeByte :: "char \<Rightarrow> string" where
  "escapeByte c =
     (if c = CHR 0x5C \<or> c = CHR 0x22 then [CHR 0x5C, c]
      else if c = CHR 0x08 then [CHR 0x5C, CHR ''b'']
      else if c = CHR 0x0C then [CHR 0x5C, CHR ''f'']
      else if c = CHR 0x0A then [CHR 0x5C, CHR ''n'']
      else if c = CHR 0x0D then [CHR 0x5C, CHR ''r'']
      else if c = CHR 0x09 then [CHR 0x5C, CHR ''t'']
      else [CHR 0x5C, CHR ''u'', CHR ''0'', CHR ''0'',
            hex ! (of_char c div 16), hex ! (of_char c mod 16)])"

fun appendBody :: "string \<Rightarrow> string" where
  "appendBody [] = []"
| "appendBody (c # cs) =
     (if (of_char c :: nat) < 0x80
      then (if htmlSafeSet c then [c] else escapeByte c) @ appendBody cs
      else (case DecodeRuneInString (c # cs) of
              (r, n) \<Rightarrow>
                if r = RuneError \<and> n = 1
                then [CHR 0x5C, CHR ''u'', CHR ''f'', CHR ''f'', CHR ''f'', CHR ''d''] @ appendBody cs
                else if r = 0x2028 \<or> r = 0x2029
                then [CHR 0x5C, CHR ''u'', CHR ''2'', CHR ''0'', CHR ''2'', hex ! (r mod 16)]
                     @ appendBody (drop (n - 1) cs)
                else c # take (n - 1) cs @ appendBody (drop (n - 1) cs)))"

definition appendString :: "string \<Rightarrow> string" where
  "appendString s = [CHR 0x22] @ appendBody s @ [CHR 0x22]"

text \<open>
  \<^verbatim>\<open>json.Marshal(wrapped)\<close> for the struct with the tags \<^verbatim>\<open>json:"v"\<close> and \<^verbatim>\<open>json:"c"\<close>:
  the members in the order of the fields. It never fails.
\<close>

definition marshalCursor :: "variantCursor \<Rightarrow> string option" where
  "marshalCursor w =
     Some ([CHR 0x7B] @ appendString ''v'' @ '':'' @ appendString (VariantID w) @ '',''
           @ appendString ''c'' @ '':'' @ appendString (InnerCursor w) @ [CHR 0x7D])"

text \<open>
  Reading a string literal back (\<^verbatim>\<open>unquoteBytes\<close>, on the bytes between the quotes).
  \<^verbatim>\<open>getu4\<close> reads the escape of a UTF-16 unit (\<open>None\<close> is its result -1). A surrogate followed by the escape
  of a low surrogate is one rune; any other surrogate becomes \<^verbatim>\<open>RuneError\<close>. A byte that
  starts no valid rune becomes \<^verbatim>\<open>RuneError\<close> too.
\<close>

definition hexValue :: "char \<Rightarrow> nat option" where
  "hexValue c =
     (let n = of_char c :: nat
      in if 48 \<le> n \<and> n \<le> 57 then Some (n - 48)
         else if 97 \<le> n \<and> n \<le> 102 then Some (n - 87)
         else if 65 \<le> n \<and> n \<le> 70 then Some (n - 55)
         else None)"

fun getu4 :: "string \<Rightarrow> nat option" where
  "getu4 (b # u # h1 # h2 # h3 # h4 # rest) =
     (if b = CHR 0x5C \<and> u = CHR ''u''
      then (case (hexValue h1, hexValue h2, hexValue h3, hexValue h4) of
              (Some a, Some b, Some c, Some d) \<Rightarrow> Some (((a * 16 + b) * 16 + c) * 16 + d)
            | _ \<Rightarrow> None)
      else None)"
| "getu4 other = None"

definition IsSurrogate :: "nat \<Rightarrow> bool" where
  "IsSurrogate r = (0xD800 \<le> r \<and> r < 0xE000)"

definition utf16_DecodeRune :: "nat \<Rightarrow> nat option \<Rightarrow> nat" where
  "utf16_DecodeRune r1 r2 =
     (case r2 of
        None \<Rightarrow> RuneError
      | Some r2' \<Rightarrow>
          if 0xD800 \<le> r1 \<and> r1 < 0xDC00 \<and> 0xDC00 \<le> r2' \<and> r2' < 0xE000
          then (r1 - 0xD800) * 1024 + (r2' - 0xDC00) + 0x10000
          else RuneError)"

definition prepend :: "string \<Rightarrow> string option \<Rightarrow> string option" where
  "prepend xs r = map_option (\<lambda>ys. xs @ ys) r"

fun unquoteBytes :: "string \<Rightarrow> string option" where
  "unquoteBytes [] = Some []"
| "unquoteBytes (c # cs) =
     (if c = CHR 0x5C
      then (case cs of
              [] \<Rightarrow> None
            | e # r \<Rightarrow>
                if e = CHR 0x22 \<or> e = CHR 0x5C \<or> e = CHR ''/'' \<or> e = CHR 0x27
                then prepend [e] (unquoteBytes r)
                else if e = CHR ''b'' then prepend [CHR 0x08] (unquoteBytes r)
                else if e = CHR ''f'' then prepend [CHR 0x0C] (unquoteBytes r)
                else if e = CHR ''n'' then prepend [CHR 0x0A] (unquoteBytes r)
                else if e = CHR ''r'' then prepend [CHR 0x0D] (unquoteBytes r)
                else if e = CHR ''t'' then prepend [CHR 0x09] (unquoteBytes r)
                else if e = CHR ''u''
                then (case getu4 (c # cs) of
                        None \<Rightarrow> None
                      | Some rr \<Rightarrow>
                          if IsSurrogate rr
                          then (let dec = utf16_DecodeRune rr (getu4 (drop 5 cs))
                                in if dec \<noteq> RuneError
                                   then prepend (EncodeRune dec) (unquoteBytes (drop 11 cs))
                                   else prepend (EncodeRune RuneError) (unquoteBytes (drop 5 cs)))
                          else prepend (EncodeRune rr) (unquoteBytes (drop 5 cs)))
                else None)
      else if c = CHR 0x22 \<or> (of_char c :: nat) < 0x20 then None
      else if (of_char c :: nat) < 0x80 then prepend [c] (unquoteBytes cs)
      else (case DecodeRuneInString (c # cs) of
              (rr, n) \<Rightarrow> prepend (EncodeRune rr) (unquoteBytes (drop (n - 1) cs))))"

text \<open>
  The scanner of \<^verbatim>\<open>encoding/json\<close>, which checks the whole input before anything is
  decoded. \<open>scanString\<close> starts behind the opening quote and returns the bytes up to the
  closing quote and the rest of the input: a control byte, a backslash that is not
  followed by one of \<^verbatim>\<open>" / b f n r t\<close>, a backslash or \<^verbatim>\<open>u\<close> with four hex digits, and a
  missing closing quote are errors.
\<close>

definition consumed :: "string \<Rightarrow> (string \<times> string) option \<Rightarrow> (string \<times> string) option" where
  "consumed xs r = map_option (\<lambda>(raw, rest). (xs @ raw, rest)) r"

definition scanEscape :: "string \<Rightarrow> (string \<times> string) option" where
  "scanEscape cs =
     (case cs of
        [] \<Rightarrow> None
      | e # r \<Rightarrow>
          if e \<in> set [CHR ''b'', CHR ''f'', CHR ''n'', CHR ''r'', CHR ''t'', CHR 0x5C, CHR ''/'', CHR 0x22]
          then Some ([e], r)
          else if e = CHR ''u''
          then (case r of
                  h1 # h2 # h3 # h4 # r' \<Rightarrow>
                    if hexValue h1 \<noteq> None \<and> hexValue h2 \<noteq> None
                       \<and> hexValue h3 \<noteq> None \<and> hexValue h4 \<noteq> None
                    then Some ([e, h1, h2, h3, h4], r')
                    else None
                | _ \<Rightarrow> None)
          else None)"

function scanString :: "string \<Rightarrow> (string \<times> string) option" where
  "scanString [] = None"
| "scanString (c # cs) =
     (if c = CHR 0x22 then Some ([], cs)
      else if c = CHR 0x5C
      then (case scanEscape cs of
              None \<Rightarrow> None
            | Some (esc, r) \<Rightarrow> consumed (c # esc) (scanString r))
      else if (of_char c :: nat) < 0x20 then None
      else consumed [c] (scanString cs))"
  by pat_completeness auto
termination
  by (relation "measure length") (auto simp: scanEscape_def split: list.splits if_splits)

text \<open>
  A number: an optional minus, \<^verbatim>\<open>0\<close> or a digit from 1 to 9 followed by digits, an
  optional fraction and an optional exponent. Each function returns the rest of the
  input.
\<close>

definition isDigit :: "char \<Rightarrow> bool" where
  "isDigit c = (48 \<le> (of_char c :: nat) \<and> (of_char c :: nat) \<le> 57)"

definition scanExponent :: "string \<Rightarrow> string option" where
  "scanExponent s =
     (case s of
        [] \<Rightarrow> Some s
      | e # r \<Rightarrow>
          if e = CHR ''e'' \<or> e = CHR ''E''
          then (let r1 = (case r of
                            [] \<Rightarrow> r
                          | sg # r' \<Rightarrow> if sg = CHR ''+'' \<or> sg = CHR ''-'' then r' else r)
                in case r1 of
                     [] \<Rightarrow> None
                   | d # r2 \<Rightarrow> if isDigit d then Some (dropWhile isDigit r2) else None)
          else Some s)"

definition scanFraction :: "string \<Rightarrow> string option" where
  "scanFraction s =
     (case s of
        [] \<Rightarrow> Some s
      | p # r \<Rightarrow>
          if p = CHR ''.''
          then (case r of
                  [] \<Rightarrow> None
                | d # r' \<Rightarrow> if isDigit d then scanExponent (dropWhile isDigit r') else None)
          else scanExponent s)"

definition scanInteger :: "string \<Rightarrow> string option" where
  "scanInteger s =
     (case s of
        [] \<Rightarrow> None
      | d # r \<Rightarrow>
          if d = CHR ''0'' then scanFraction r
          else if isDigit d then scanFraction (dropWhile isDigit r)
          else None)"

definition scanNumber :: "string \<Rightarrow> string option" where
  "scanNumber s =
     (case s of
        [] \<Rightarrow> None
      | d # r \<Rightarrow> if d = CHR ''-'' then scanInteger r else scanInteger s)"

text \<open>
  The input as a sequence of tokens; white space (space, tab, carriage return, newline)
  separates tokens and \<open>None\<close> is a syntax error. A string token holds the bytes between
  its quotes, not yet unquoted.
\<close>

datatype token =
    TBeginObject | TEndObject | TBeginArray | TEndArray | TColon | TComma
  | TString string | TNumber | TTrue | TFalse | TNull

definition isSpace :: "char \<Rightarrow> bool" where
  "isSpace c = (c = CHR '' '' \<or> c = CHR 0x09 \<or> c = CHR 0x0D \<or> c = CHR 0x0A)"

definition emit :: "token \<Rightarrow> token list option \<Rightarrow> token list option" where
  "emit t r = map_option (\<lambda>ts. t # ts) r"

definition scanLiteral :: "string \<Rightarrow> (token \<times> string) option" where
  "scanLiteral s =
     (if take 4 s = ''true'' then Some (TTrue, drop 4 s)
      else if take 5 s = ''false'' then Some (TFalse, drop 5 s)
      else if take 4 s = ''null'' then Some (TNull, drop 4 s)
      else None)"

definition punctuation :: "char \<Rightarrow> token option" where
  "punctuation c =
     (if c = CHR 0x7B then Some TBeginObject
      else if c = CHR 0x7D then Some TEndObject
      else if c = CHR ''['' then Some TBeginArray
      else if c = CHR '']'' then Some TEndArray
      else if c = CHR '':'' then Some TColon
      else if c = CHR '','' then Some TComma
      else None)"

definition scanToken :: "char \<Rightarrow> string \<Rightarrow> (token \<times> string) option" where
  "scanToken c cs =
     (case punctuation c of
        Some t \<Rightarrow> Some (t, cs)
      | None \<Rightarrow>
          if c = CHR 0x22
          then map_option (\<lambda>(raw, rest). (TString raw, rest)) (scanString cs)
          else if c = CHR ''-'' \<or> isDigit c
          then map_option (\<lambda>rest. (TNumber, rest)) (scanNumber (c # cs))
          else scanLiteral (c # cs))"

function tokens :: "string \<Rightarrow> token list option" where
  "tokens [] = Some []"
| "tokens (c # cs) =
     (if isSpace c then tokens cs
      else (case scanToken c cs of
              None \<Rightarrow> None
            | Some (t, rest) \<Rightarrow> emit t (tokens rest)))"
  by pat_completeness auto
termination
proof -
  have esc: "length r < length cs" if "scanEscape cs = Some (e, r)" for cs e r
    using that by (auto simp: scanEscape_def split: list.splits if_splits)
  have str: "scanString cs = Some (raw, rest) \<Longrightarrow> length rest < length cs" for cs raw rest
  proof (induction cs arbitrary: raw rest rule: scanString.induct)
    case 1
    then show ?case by simp
  next
    case (2 c cs)
    show ?case
    proof (cases "c = CHR 0x22")
      case True
      then show ?thesis using "2.prems" by simp
    next
      case q: False
      show ?thesis
      proof (cases "c = CHR 0x5C")
        case True
        with q "2.prems" obtain e r raw' where
          e: "scanEscape cs = Some (e, r)" and s: "scanString r = Some (raw', rest)"
          by (auto simp: consumed_def split: option.splits)
        from "2.IH"(1) [OF q True e refl s] esc [OF e] show ?thesis by simp
      next
        case b: False
        with q "2.prems" obtain raw' where
          c: "\<not> (of_char c :: nat) < 0x20" and s: "scanString cs = Some (raw', rest)"
          by (auto simp: consumed_def split: if_splits)
        from "2.IH"(2) [OF q b c s] show ?thesis by simp
      qed
    qed
  qed
  have ex: "scanExponent s = Some rest \<Longrightarrow> length rest \<le> length s" for s rest
    by (auto simp: scanExponent_def Let_def le_SucI length_dropWhile_le
             split: list.splits if_splits)
  have fr: "scanFraction s = Some rest \<Longrightarrow> length rest \<le> length s" for s rest
    by (auto simp: scanFraction_def split: list.splits if_splits
             dest!: ex intro: le_SucI order_trans [OF _ length_dropWhile_le])
  have int: "scanInteger s = Some rest \<Longrightarrow> length rest < length s" for s rest
    by (auto simp: scanInteger_def less_Suc_eq_le split: list.splits if_splits
             dest!: fr intro: order_trans [OF _ length_dropWhile_le])
  have num: "scanNumber s = Some rest \<Longrightarrow> length rest < length s" for s rest
    by (auto simp: scanNumber_def split: list.splits if_splits dest!: int)
  have lit: "scanLiteral (c # cs) = Some (t, rest) \<Longrightarrow> length rest \<le> length cs" for c cs t rest
    by (auto simp: scanLiteral_def split: if_splits)
  have tok: "length rest \<le> length cs" if a: "scanToken c cs = Some (t, rest)" for c cs t rest
  proof (cases "punctuation c")
    case (Some p)
    then show ?thesis using a by (simp add: scanToken_def)
  next
    case None
    show ?thesis
    proof (cases "c = CHR 0x22")
      case True
      with a None obtain raw where "scanString cs = Some (raw, rest)"
        by (auto simp: scanToken_def)
      from str [OF this] show ?thesis by simp
    next
      case q: False
      show ?thesis
      proof (cases "c = CHR ''-'' \<or> isDigit c")
        case True
        with a None q have "scanNumber (c # cs) = Some rest" by (auto simp: scanToken_def)
        from num [OF this] show ?thesis by simp
      next
        case False
        with a None q have "scanLiteral (c # cs) = Some (t, rest)" by (simp add: scanToken_def)
        from lit [OF this] show ?thesis .
      qed
    qed
  qed
  show ?thesis
  proof (relation "measure length")
    show "wf (measure length)" by simp
  next
    fix c cs
    show "(cs, c # cs) \<in> measure length" by simp
  next
    fix c cs x2 t rest
    assume "scanToken c cs = Some x2" and "(t, rest) = x2"
    then have "scanToken c cs = Some (t, rest)" by simp
    from tok [OF this] show "(rest, c # cs) \<in> measure length" by simp
  qed
qed

text \<open>
  \<^verbatim>\<open>json.Unmarshal(data, &wrapped)\<close> over the tokens. \<open>decode\<close> runs the grammar with the
  stack of open objects and arrays, at most \<^verbatim>\<open>maxNestingDepth\<close> deep, and stores into
  the struct: at the top only an object or \<^verbatim>\<open>null\<close> is accepted (\<^verbatim>\<open>null\<close> leaves the struct
  as it is); a key of the top object selects the field whose tag it equals, ignoring
  the case of the letter; the value of a selected field is a string, which is stored,
  or \<^verbatim>\<open>null\<close>, which is not; any other value for it is an error; the values of other keys
  are only checked. \<open>None\<close> is an error of \<^verbatim>\<open>json.Unmarshal\<close>, of syntax or of type.
\<close>

datatype frame = InObject | InArray

datatype phase = BeginValue | BeginValueOrEnd | BeginKeyOrEnd | BeginKey | AfterKey | AfterValue | Done

datatype cursorField = FieldV | FieldC | NoField

definition maxNestingDepth :: nat where
  "maxNestingDepth = 10000"

definition fieldOf :: "string \<Rightarrow> cursorField" where
  "fieldOf key =
     (if key = ''v'' \<or> key = ''V'' then FieldV
      else if key = ''c'' \<or> key = ''C'' then FieldC
      else NoField)"

definition storeString :: "cursorField \<Rightarrow> string \<Rightarrow> variantCursor \<Rightarrow> variantCursor" where
  "storeString f s w =
     (case f of
        FieldV \<Rightarrow> w\<lparr>VariantID := s\<rparr>
      | FieldC \<Rightarrow> w\<lparr>InnerCursor := s\<rparr>
      | NoField \<Rightarrow> w)"

definition afterValue :: "frame list \<Rightarrow> phase" where
  "afterValue stack = (if stack = [] then Done else AfterValue)"

fun decode :: "phase \<Rightarrow> frame list \<Rightarrow> cursorField \<Rightarrow> variantCursor \<Rightarrow> token list \<Rightarrow> variantCursor option" where
  "decode ph stack f w [] = (if ph = Done then Some w else None)"
| "decode ph stack f w (t # ts) =
     (case ph of
        Done \<Rightarrow> None
      | AfterKey \<Rightarrow> (if t = TColon then decode BeginValue stack f w ts else None)
      | AfterValue \<Rightarrow>
          (case stack of
             [] \<Rightarrow> None
           | InObject # outer \<Rightarrow>
               if t = TComma then decode BeginKey stack NoField w ts
               else if t = TEndObject then decode (afterValue outer) outer NoField w ts
               else None
           | InArray # outer \<Rightarrow>
               if t = TComma then decode BeginValue stack NoField w ts
               else if t = TEndArray then decode (afterValue outer) outer NoField w ts
               else None)
      | BeginKey \<Rightarrow>
          (case t of
             TString raw \<Rightarrow>
               (case unquoteBytes raw of
                  None \<Rightarrow> None
                | Some key \<Rightarrow>
                    decode AfterKey stack (if length stack = 1 then fieldOf key else NoField) w ts)
           | _ \<Rightarrow> None)
      | BeginKeyOrEnd \<Rightarrow>
          (case t of
             TString raw \<Rightarrow>
               (case unquoteBytes raw of
                  None \<Rightarrow> None
                | Some key \<Rightarrow>
                    decode AfterKey stack (if length stack = 1 then fieldOf key else NoField) w ts)
           | TEndObject \<Rightarrow> decode (afterValue (tl stack)) (tl stack) NoField w ts
           | _ \<Rightarrow> None)
      | _ \<Rightarrow>
          (if ph = BeginValueOrEnd \<and> t = TEndArray
           then decode (afterValue (tl stack)) (tl stack) NoField w ts
           else (case t of
                   TBeginObject \<Rightarrow>
                     if f \<noteq> NoField \<or> maxNestingDepth \<le> length stack then None
                     else decode BeginKeyOrEnd (InObject # stack) NoField w ts
                 | TBeginArray \<Rightarrow>
                     if stack = [] \<or> f \<noteq> NoField \<or> maxNestingDepth \<le> length stack then None
                     else decode BeginValueOrEnd (InArray # stack) NoField w ts
                 | TString raw \<Rightarrow>
                     if stack = [] then None
                     else (case unquoteBytes raw of
                             None \<Rightarrow> None
                           | Some s \<Rightarrow> decode AfterValue stack NoField (storeString f s w) ts)
                 | TNull \<Rightarrow> decode (afterValue stack) stack NoField w ts
                 | TNumber \<Rightarrow>
                     if stack = [] \<or> f \<noteq> NoField then None
                     else decode AfterValue stack NoField w ts
                 | TTrue \<Rightarrow>
                     if stack = [] \<or> f \<noteq> NoField then None
                     else decode AfterValue stack NoField w ts
                 | TFalse \<Rightarrow>
                     if stack = [] \<or> f \<noteq> NoField then None
                     else decode AfterValue stack NoField w ts
                 | _ \<Rightarrow> None)))"

text \<open>\<^verbatim>\<open>var wrapped variantCursor; json.Unmarshal(data, &wrapped)\<close>.\<close>

definition unmarshalCursor :: "string \<Rightarrow> variantCursor option" where
  "unmarshalCursor data =
     (case tokens data of
        None \<Rightarrow> None
      | Some ts \<Rightarrow> decode BeginValue [] NoField \<lparr>VariantID = [], InnerCursor = []\<rparr> ts)"

text \<open>
  \<^verbatim>\<open>base64.StdEncoding\<close>: 3 bytes make 4 characters of the alphabet, and the last group
  is padded with \<^verbatim>\<open>=\<close>. \<^verbatim>\<open>DecodeString\<close> skips carriage returns and newlines, wants the
  padding, refuses anything behind it, and does not check the bits a padded group
  leaves unused.
\<close>

definition base64Alphabet :: string where
  "base64Alphabet = ''ABCDEFGHIJKLMNOPQRSTUVWXYZabcdefghijklmnopqrstuvwxyz0123456789+/''"

definition sextetChar :: "nat \<Rightarrow> char" where
  "sextetChar i = base64Alphabet ! (i mod 64)"

fun encodeGroups :: "nat list \<Rightarrow> string" where
  "encodeGroups (a # b # c # rest) =
     (let n = a * 65536 + b * 256 + c
      in [sextetChar (n div 262144), sextetChar (n div 4096), sextetChar (n div 64), sextetChar n]
         @ encodeGroups rest)"
| "encodeGroups [a, b] =
     (let n = a * 65536 + b * 256
      in [sextetChar (n div 262144), sextetChar (n div 4096), sextetChar (n div 64), CHR ''=''])"
| "encodeGroups [a] =
     (let n = a * 65536
      in [sextetChar (n div 262144), sextetChar (n div 4096), CHR ''='', CHR ''=''])"
| "encodeGroups [] = []"

definition sextetOf :: "char \<Rightarrow> nat option" where
  "sextetOf ch =
     (let n = of_char ch :: nat
      in if 65 \<le> n \<and> n \<le> 90 then Some (n - 65)
         else if 97 \<le> n \<and> n \<le> 122 then Some (n - 71)
         else if 48 \<le> n \<and> n \<le> 57 then Some (n + 4)
         else if n = 43 then Some 62
         else if n = 47 then Some 63
         else None)"

fun decodeGroups :: "string \<Rightarrow> nat list option" where
  "decodeGroups (a # b # c # d # rest) =
     (case (sextetOf a, sextetOf b) of
        (Some x, Some y) \<Rightarrow>
          if c = CHR ''='' \<and> d = CHR ''='' \<and> rest = []
          then Some [(x * 4 + y div 16) mod 256]
          else (case sextetOf c of
                  None \<Rightarrow> None
                | Some z \<Rightarrow>
                    if d = CHR ''='' \<and> rest = []
                    then Some [(x * 4 + y div 16) mod 256, (y * 16 + z div 4) mod 256]
                    else (case sextetOf d of
                            None \<Rightarrow> None
                          | Some u \<Rightarrow>
                              (case decodeGroups rest of
                                 None \<Rightarrow> None
                               | Some bytes \<Rightarrow>
                                   Some ([(x * 4 + y div 16) mod 256,
                                          (y * 16 + z div 4) mod 256,
                                          (z * 64 + u) mod 256] @ bytes))))
      | _ \<Rightarrow> None)"
| "decodeGroups [] = Some []"
| "decodeGroups other = None"

definition isNewline :: "char \<Rightarrow> bool" where
  "isNewline c = (c = CHR 0x0A \<or> c = CHR 0x0D)"

definition EncodeToString :: "string \<Rightarrow> string" where
  "EncodeToString s = encodeGroups (map of_char s)"

definition DecodeString :: "string \<Rightarrow> string option" where
  "DecodeString s = map_option (map char_of) (decodeGroups (filter (\<lambda>c. \<not> isNewline c) s))"

text \<open>The standard library, as the parameter of the cursor functions.\<close>

definition referenceStdlib :: stdlib where
  "referenceStdlib =
     \<lparr>json_Marshal = marshalCursor,
      json_Unmarshal = unmarshalCursor,
      base64_EncodeToString = EncodeToString,
      base64_DecodeString = DecodeString\<rparr>"

section \<open>The ranking function of the model-optimized example\<close>

text \<open>
  \<^verbatim>\<open>HintValue[string]\<close> (variant.go): the value of a hint key when it is a string.
\<close>

definition HintValue_string :: "VariantHints \<Rightarrow> string \<Rightarrow> string \<times> bool" where
  "HintValue_string h k =
     (case hHints h of
        None \<Rightarrow> ([], False)
      | Some m \<Rightarrow>
          (case map_of m k of
             None \<Rightarrow> ([], False)
           | Some (JStr t) \<Rightarrow> (t, True)
           | Some other \<Rightarrow> ([], False)))"

text \<open>\<^verbatim>\<open>a.Hints["modelFamily"]\<close>: the empty string when the map is \<^verbatim>\<open>nil\<close> or has no such key.\<close>

definition modelFamilyOf :: "ServerVariant \<Rightarrow> string" where
  "modelFamilyOf v =
     (case Hints v of
        None \<Rightarrow> []
      | Some m \<Rightarrow> (case map_of m ''modelFamily'' of None \<Rightarrow> [] | Some x \<Rightarrow> x))"

text \<open>
  The custom ranking function of \<^verbatim>\<open>examples/server/model-optimized\<close>: variants whose
  \<^verbatim>\<open>modelFamily\<close> hint matches the client's come first, priority decides among the
  rest. \<^verbatim>\<open>strings.EqualFold\<close> is equality on the lower-case values used here.
\<close>

definition familyRanking :: RankingFunc where
  "familyRanking hints vs =
     (let requested = fst (HintValue_string hints ''modelFamily'')
      in SortStableFunc
           (\<lambda>a b. let aMatch = (modelFamilyOf a = requested);
                        bMatch = (modelFamilyOf b = requested)
                    in if aMatch \<noteq> bMatch then (if aMatch then - 1 else 1)
                       else Priority a - Priority b)
           vs)"

text \<open>Two of the example's variants, an inner server for each, and the registry.\<close>

definition claudeVariant :: ServerVariant where
  "claudeVariant =
     \<lparr>ID = ''claude-optimized'', Description = ''Detailed descriptions'',
      Hints = Some [(''modelFamily'', ''anthropic'')], priority = 0, Status = Stable,
      DeprecationInfo = None\<rparr>"

definition gptVariant :: ServerVariant where
  "gptVariant =
     \<lparr>ID = ''gpt-optimized'', Description = ''Concise descriptions'',
      Hints = Some [(''modelFamily'', ''openai'')], priority = 0, Status = Stable,
      DeprecationInfo = None\<rparr>"

definition answering :: "string \<Rightarrow> mcp_Server" where
  "answering name =
     \<lparr>serverConnectErr = None, clientConnectErr = None,
      respond = (\<lambda>method p. Inr (PlainResult (JStr name))), advertised = None\<rparr>"

definition weatherServer :: Server where
  "weatherServer =
     WithRanking
       (projr (WithVariant
          (projr (WithVariant NewServer claudeVariant (answering ''claude'') 0))
          gptVariant (answering ''gpt'') 1))
       (Some familyRanking)"

text \<open>
  The parameters of an \<^verbatim>\<open>initialize\<close> request whose variant hints ask for the model family
  \<^verbatim>\<open>openai\<close>, and the hints they carry.
\<close>

definition openaiInit :: ParamsRef where
  "openaiInit =
     Ptr \<lparr>pKind = InitializeParams, Meta = None, Cursor = [],
          pCapabilities = Some \<lparr>clientExperimental = Some
            [(extensionID, JObj [(''variantHints'',
                JObj [(''hints'', JObj [(''modelFamily'', JStr ''openai'')])])])]\<rparr>,
          pBody = JNull\<rparr>"

definition openaiHints :: VariantHints where
  "openaiHints = \<lparr>hDescription = [], hHints = Some [(''modelFamily'', JStr ''openai'')]\<rparr>"

text \<open>
  The front server's own handler: a bare result for \<^verbatim>\<open>initialize\<close>, an answer of its own
  for everything else.
\<close>

definition blankInit :: InitializeResult where
  "blankInit = \<lparr>iCapabilities = None, iBody = JNull\<rparr>"

definition sdkNext :: "string \<Rightarrow> ParamsRef \<Rightarrow> error + Result" where
  "sdkNext method params =
     (if method = ''initialize'' then Inr (InitResult blankInit)
      else Inr (PlainResult (JStr ''front'')))"

text \<open>A proxy that has seen no session.\<close>

definition emptyProxy :: proxy where
  "emptyProxy = \<lparr>sessions = (\<lambda>ss. None), pWorld = emptyWorld\<rparr>"

text \<open>
  The state \<^verbatim>\<open>createSessionState\<close> builds for the example in the empty world: sessions 0
  and 1 for the first variant, 2 and 3 for the second.
\<close>

definition weatherState :: sessionState where
  "weatherState =
     \<lparr>ssDispatcher = \<lparr>server = weatherServer, connections =
        [(''claude-optimized'',
          \<lparr>clientSession = \<lparr>sessID = 1, rpc = respond (answering ''claude'')\<rparr>, cleanupFn = Some 0\<rparr>),
         (''gpt-optimized'',
          \<lparr>clientSession = \<lparr>sessID = 3, rpc = respond (answering ''gpt'')\<rparr>, cleanupFn = Some 2\<rparr>)]\<rparr>\<rparr>"

text \<open>The extension payload of the initialize response when the hints ask for \<^verbatim>\<open>openai\<close>.\<close>

definition weatherPayload :: json where
  "weatherPayload =
     JObj [(''availableVariants'',
             JArr [JObj [(''id'', JStr ''gpt-optimized''),
                         (''description'', JStr ''Concise descriptions''),
                         (''hints'', JObj [(''modelFamily'', JStr ''openai'')]),
                         (''status'', JStr ''stable'')],
                   JObj [(''id'', JStr ''claude-optimized''),
                         (''description'', JStr ''Detailed descriptions''),
                         (''hints'', JObj [(''modelFamily'', JStr ''anthropic'')]),
                         (''status'', JStr ''stable'')]]),
           (''moreVariantsAvailable'', JBool False)]"

text \<open>The proxy after front session 7 has sent that \<^verbatim>\<open>initialize\<close>.\<close>

definition weatherAfterInit :: proxy where
  "weatherAfterInit =
     snd (sessionMiddleware referenceStdlib weatherServer None sdkNext emptyProxy 7
            ''initialize'' openaiInit)"

section \<open>Inputs of the cursor, selector and error examples\<close>

text \<open>
  The JSON text of the cursor \<^verbatim>\<open>abc\<close> of variant \<^verbatim>\<open>coding\<close>; the text \<^verbatim>\<open>{"v":"coding"}\<close> of
  an object without the member \<^verbatim>\<open>c\<close>; and the text \<^verbatim>\<open>json.Marshal\<close> writes for the cursor
  that is the one byte \<^verbatim>\<open>0xFF\<close>.
\<close>

definition cursorText :: string where
  "cursorText =
     [CHR 0x7B, CHR 0x22] @ ''v'' @ [CHR 0x22] @ '':'' @ [CHR 0x22] @ ''coding'' @ [CHR 0x22]
     @ '','' @ [CHR 0x22] @ ''c'' @ [CHR 0x22] @ '':'' @ [CHR 0x22] @ ''abc''
     @ [CHR 0x22, CHR 0x7D]"

definition partialCursorText :: string where
  "partialCursorText =
     [CHR 0x7B, CHR 0x22] @ ''v'' @ [CHR 0x22] @ '':'' @ [CHR 0x22] @ ''coding''
     @ [CHR 0x22, CHR 0x7D]"

definition replacedCursorText :: string where
  "replacedCursorText =
     [CHR 0x7B, CHR 0x22] @ ''v'' @ [CHR 0x22] @ '':'' @ [CHR 0x22] @ ''coding'' @ [CHR 0x22]
     @ '','' @ [CHR 0x22] @ ''c'' @ [CHR 0x22] @ '':'' @ [CHR 0x22, CHR 0x5C] @ ''ufffd''
     @ [CHR 0x22, CHR 0x7D]"

text \<open>
  \<^verbatim>\<open>tools/list\<close> parameters whose selector is the empty string, and parameters whose
  selector names no variant.
\<close>

definition emptySelector :: ParamsRef where
  "emptySelector =
     Ptr \<lparr>pKind = ListToolsParams, Meta = Some [(metaKeyVariant, JStr [])],
          Cursor = [], pCapabilities = None, pBody = JNull\<rparr>"

definition unknownSelector :: Params where
  "unknownSelector =
     \<lparr>pKind = ListToolsParams, Meta = Some [(metaKeyVariant, JStr ''nonexistent'')],
      Cursor = [], pCapabilities = None, pBody = JNull\<rparr>"

text \<open>
  A registry without a custom ranking function: \<^verbatim>\<open>fast\<close> registered first with priority
  1, \<^verbatim>\<open>safe\<close> second with priority 0; and the state \<^verbatim>\<open>createSessionState\<close> builds for
  it in the empty world.
\<close>

definition pairServer :: Server where
  "pairServer =
     projr (WithVariant
       (projr (WithVariant NewServer (plainVariant ''fast'') (answering ''fast'') 1))
       (plainVariant ''safe'') (answering ''safe'') 0)"

definition pairState :: sessionState where
  "pairState =
     \<lparr>ssDispatcher = \<lparr>server = pairServer, connections =
        [(''fast'',
          \<lparr>clientSession = \<lparr>sessID = 1, rpc = respond (answering ''fast'')\<rparr>, cleanupFn = Some 0\<rparr>),
         (''safe'',
          \<lparr>clientSession = \<lparr>sessID = 3, rpc = respond (answering ''safe'')\<rparr>, cleanupFn = Some 2\<rparr>)]\<rparr>\<rparr>"

text \<open>A \<^verbatim>\<open>tools/list\<close> request whose selector is the number 7.\<close>

definition numberSelector :: ParamsRef where
  "numberSelector =
     Ptr \<lparr>pKind = ListToolsParams, Meta = Some [(metaKeyVariant, JNum 7)],
          Cursor = [], pCapabilities = None, pBody = JNull\<rparr>"

text \<open>An inner server that answers every call with the given error.\<close>

definition rejecting :: "error \<Rightarrow> mcp_Server" where
  "rejecting err = quietServer\<lparr>respond := (\<lambda>method p. Inl err)\<rparr>"

text \<open>An invalid-params error whose data is the JSON value \<^verbatim>\<open>null\<close>.\<close>

definition nullDataError :: error where
  "nullDataError =
     JsonRpcError \<lparr>Code = - 32602, Message = ''unknown tool'', Data = Raw_value JNull\<rparr>"

text \<open>
  A registry with the one variant \<^verbatim>\<open>coding\<close>, a \<^verbatim>\<open>tools/call\<close> that selects it, and the
  dispatcher of a session of that registry.
\<close>

definition codingServer :: Server where
  "codingServer = projr (WithVariant NewServer (plainVariant ''coding'') (rejecting nullDataError) 0)"

definition codingCall :: ParamsRef where
  "codingCall =
     Ptr \<lparr>pKind = CallToolParamsRaw, Meta = Some [(metaKeyVariant, JStr ''coding'')],
          Cursor = [], pCapabilities = None, pBody = JStr ''analyze_code''\<rparr>"

definition codingDispatcher :: dispatcher where
  "codingDispatcher =
     \<lparr>server = codingServer, connections =
        [(''coding'', \<lparr>clientSession = \<lparr>sessID = 1, rpc = respond (rejecting nullDataError)\<rparr>,
                       cleanupFn = Some 0\<rparr>)]\<rparr>"

text \<open>
  The pair the default ranking is meant to sort by, read as signed numbers and ordered
  lexicographically; and the priorities whose differences cannot wrap.
\<close>

definition rankKey :: "ServerVariant \<Rightarrow> int \<times> int" where
  "rankKey v = (sint (Priority v), sint (statusWeight (Status v)))"

definition priorityInRange :: "ServerVariant \<Rightarrow> bool" where
  "priorityInRange v = (- (2 ^ 62) \<le> sint (Priority v) \<and> sint (Priority v) < 2 ^ 62)"

section \<open>The registry returns its descriptors in registration order\<close>

lemma fill_prefix:
  assumes "out < length h" "h ! out = replicate n z" "k \<le> n"
  shows "fold (\<lambda>i hp. hp[out := (hp ! out)[i := f i]]) [0 ..< k] h
         = h[out := map f [0 ..< k] @ replicate (n - k) z]"
  using assms(3)
proof (induction k)
  case 0
  have "h[out := h ! out] = h" by (rule list_update_id)
  then show ?case using assms(2) by simp
next
  case (Suc k)
  then have IH: "fold (\<lambda>i hp. hp[out := (hp ! out)[i := f i]]) [0 ..< k] h
         = h[out := map f [0 ..< k] @ replicate (n - k) z]" by simp
  from Suc.prems have "n - k = Suc (n - Suc k)" by simp
  then have "(map f [0 ..< k] @ replicate (n - k) z)[k := f k]
             = map f [0 ..< Suc k] @ replicate (n - Suc k) z"
    by (simp add: list_update_append)
  then show ?case using IH assms(1) by simp
qed

lemma Variants_alloc_eq:
  "Variants_alloc s h = (h @ [map variant (variants s)], length h)"
proof -
  define n where "n = length (variants s)"
  define h1 where "h1 = h @ [replicate n zeroVariant]"
  define g where "g = (\<lambda>i. variant (variants s ! i))"
  have a: "length h < length h1" by (simp add: h1_def)
  have b: "h1 ! length h = replicate n zeroVariant" by (simp add: h1_def)
  have "fold (\<lambda>i hp. hp[length h := (hp ! length h)[i := g i]]) [0 ..< n] h1
        = h1[length h := map g [0 ..< n] @ replicate (n - n) zeroVariant]"
    using a b by (rule fill_prefix) simp
  moreover have "map g [0 ..< n] = map variant (variants s)"
    unfolding g_def n_def by (rule nth_equalityI) simp_all
  moreover have "h1[length h := map variant (variants s)] = h @ [map variant (variants s)]"
    by (simp add: h1_def)
  ultimately have "fold (\<lambda>i hp. hp[length h := (hp ! length h)[i := g i]]) [0 ..< n] h1
        = h @ [map variant (variants s)]" by simp
  then show ?thesis
    unfolding Variants_alloc_def Let_def g_def n_def h1_def by simp
qed

lemma Variants_eq: "Variants s = map variant (variants s)"
  by (simp add: Variants_def Variants_alloc_eq)

section \<open>Capability union\<close>

lemma unionStep_None: "unionStep u None = u"
  by (simp add: unionStep_def)

lemma unionStep_tools:
  "(capTools (unionStep u (Some c)) \<noteq> None) = (capTools u \<noteq> None \<or> capTools c \<noteq> None)"
  by (simp add: unionStep_def Let_def split: option.splits)

lemma unionStep_resources:
  "(capResources (unionStep u (Some c)) \<noteq> None)
   = (capResources u \<noteq> None \<or> capResources c \<noteq> None)"
  by (simp add: unionStep_def Let_def split: option.splits)

lemma unionStep_prompts:
  "(capPrompts (unionStep u (Some c)) \<noteq> None) = (capPrompts u \<noteq> None \<or> capPrompts c \<noteq> None)"
  by (simp add: unionStep_def Let_def split: option.splits)

lemma unionStep_toolsListChanged:
  "toolsListChanged (unionStep u (Some c)) = (toolsListChanged u \<or> toolsListChanged c)"
  by (simp add: unionStep_def Let_def toolsListChanged_def split: option.splits)

lemma unionStep_resourcesSubscribe:
  "resourcesSubscribe (unionStep u (Some c)) = (resourcesSubscribe u \<or> resourcesSubscribe c)"
  by (simp add: unionStep_def Let_def resourcesSubscribe_def split: option.splits)

lemma unionStep_resourcesListChanged:
  "resourcesListChanged (unionStep u (Some c))
   = (resourcesListChanged u \<or> resourcesListChanged c)"
  by (simp add: unionStep_def Let_def resourcesListChanged_def split: option.splits)

lemma unionStep_promptsListChanged:
  "promptsListChanged (unionStep u (Some c)) = (promptsListChanged u \<or> promptsListChanged c)"
  by (simp add: unionStep_def Let_def promptsListChanged_def split: option.splits)

lemma unionStep_completions:
  "capCompletions (unionStep u (Some c))
   = (case capCompletions u of Some x \<Rightarrow> Some x | None \<Rightarrow> capCompletions c)"
  by (simp add: unionStep_def Let_def split: option.splits)

lemma unionStep_logging:
  "capLogging (unionStep u (Some c))
   = (case capLogging u of Some x \<Rightarrow> Some x | None \<Rightarrow> capLogging c)"
  by (simp add: unionStep_def Let_def split: option.splits)

lemma first_writer_wins:
  "map_of (fold (\<lambda>(k, v) m. if map_of m k = None then AList.update k v m else m) e ue) k
   = (case map_of ue k of Some x \<Rightarrow> Some x | None \<Rightarrow> map_of e k)"
  by (induction e arbitrary: ue) (auto simp: update_conv' split: option.splits if_splits)

lemma unionStep_experimental_set:
  "(capExperimental (unionStep u (Some c)) \<noteq> None)
   = (capExperimental u \<noteq> None \<or> capExperimental c \<noteq> None)"
  by (simp add: unionStep_def Let_def split: option.splits)

lemma unionStep_experimental:
  "map_of (experimentalOf (unionStep u (Some c))) k
   = (case map_of (experimentalOf u) k of
        Some x \<Rightarrow> Some x
      | None \<Rightarrow> map_of (experimentalOf c) k)"
  by (simp add: unionStep_def Let_def experimentalOf_def first_writer_wins split: option.splits)

lemma noCapabilities_flags:
  "\<not> toolsListChanged noCapabilities"
  "\<not> resourcesSubscribe noCapabilities"
  "\<not> resourcesListChanged noCapabilities"
  "\<not> promptsListChanged noCapabilities"
  "experimentalOf noCapabilities = []"
  by (simp_all add: noCapabilities_def toolsListChanged_def resourcesSubscribe_def
      resourcesListChanged_def promptsListChanged_def experimentalOf_def)

text \<open>
  A property that each step joins with \<open>\<or>\<close> holds of the union exactly when it holds of
  the start or of an input; a field that each step fills only when it is empty ends as
  the first value.
\<close>

lemma foldl_unionStep_any:
  assumes "\<And>u c. P (unionStep u (Some c)) = (P u \<or> P c)"
  shows "P (foldl unionStep u cs) = (P u \<or> (\<exists>c. Some c \<in> set cs \<and> P c))"
proof (induction cs arbitrary: u)
  case Nil
  then show ?case by simp
next
  case (Cons a cs)
  show ?case
  proof (cases a)
    case None
    then show ?thesis using Cons.IH [of u] by (simp add: unionStep_None)
  next
    case (Some c)
    then show ?thesis using Cons.IH [of "unionStep u (Some c)"] assms by auto
  qed
qed

lemma foldl_unionStep_first:
  assumes "\<And>u c. f (unionStep u (Some c)) = (case f u of Some x \<Rightarrow> Some x | None \<Rightarrow> f c)"
  shows "f (foldl unionStep u cs)
         = (case f u of
              Some x \<Rightarrow> Some x
            | None \<Rightarrow> firstSome (map (\<lambda>oc. case oc of None \<Rightarrow> None | Some c \<Rightarrow> f c) cs))"
proof (induction cs arbitrary: u)
  case Nil
  then show ?case by (simp split: option.splits)
next
  case (Cons a cs)
  show ?case
  proof (cases a)
    case None
    then show ?thesis using Cons.IH [of u] by (simp add: unionStep_None split: option.splits)
  next
    case (Some c)
    then show ?thesis
      using Cons.IH [of "unionStep u (Some c)"] assms [of u c]
      by (cases "f u"; cases "f c") (auto split: option.splits)
  qed
qed

text \<open>
  C3. For every list of backend capability sets (\<^verbatim>\<open>nil\<close> entries are skipped), the union
  advertises tools, resources and prompts exactly when some input does; each of the
  sub-flags \<^verbatim>\<open>tools.listChanged\<close>, \<^verbatim>\<open>resources.subscribe\<close>, \<^verbatim>\<open>resources.listChanged\<close> and
  \<^verbatim>\<open>prompts.listChanged\<close> is true in the union exactly when it is true in some input;
  completions and logging are the first input value that is not \<^verbatim>\<open>nil\<close>; the
  experimental map exists exactly when some input has one, and under every key it holds
  the value of the first input that has the key.
\<close>

theorem C3_unionCapabilities:
  "(capTools (unionCapabilities allCaps) \<noteq> None)
     = (\<exists>c. Some c \<in> set allCaps \<and> capTools c \<noteq> None)
   \<and> (capResources (unionCapabilities allCaps) \<noteq> None)
     = (\<exists>c. Some c \<in> set allCaps \<and> capResources c \<noteq> None)
   \<and> (capPrompts (unionCapabilities allCaps) \<noteq> None)
     = (\<exists>c. Some c \<in> set allCaps \<and> capPrompts c \<noteq> None)
   \<and> toolsListChanged (unionCapabilities allCaps)
     = (\<exists>c. Some c \<in> set allCaps \<and> toolsListChanged c)
   \<and> resourcesSubscribe (unionCapabilities allCaps)
     = (\<exists>c. Some c \<in> set allCaps \<and> resourcesSubscribe c)
   \<and> resourcesListChanged (unionCapabilities allCaps)
     = (\<exists>c. Some c \<in> set allCaps \<and> resourcesListChanged c)
   \<and> promptsListChanged (unionCapabilities allCaps)
     = (\<exists>c. Some c \<in> set allCaps \<and> promptsListChanged c)
   \<and> capCompletions (unionCapabilities allCaps)
     = firstSome (map (\<lambda>oc. case oc of None \<Rightarrow> None | Some c \<Rightarrow> capCompletions c) allCaps)
   \<and> capLogging (unionCapabilities allCaps)
     = firstSome (map (\<lambda>oc. case oc of None \<Rightarrow> None | Some c \<Rightarrow> capLogging c) allCaps)
   \<and> (capExperimental (unionCapabilities allCaps) \<noteq> None)
     = (\<exists>c. Some c \<in> set allCaps \<and> capExperimental c \<noteq> None)
   \<and> (\<forall>k. map_of (experimentalOf (unionCapabilities allCaps)) k
          = firstSome (map (\<lambda>oc. case oc of None \<Rightarrow> None
                                  | Some c \<Rightarrow> map_of (experimentalOf c) k) allCaps))"
proof -
  have t: "(capTools (unionCapabilities allCaps) \<noteq> None)
           = (\<exists>c. Some c \<in> set allCaps \<and> capTools c \<noteq> None)"
    using foldl_unionStep_any [where P = "\<lambda>c. capTools c \<noteq> None", OF unionStep_tools, of noCapabilities allCaps]
    by (simp add: unionCapabilities_def noCapabilities_def)
  have r: "(capResources (unionCapabilities allCaps) \<noteq> None)
           = (\<exists>c. Some c \<in> set allCaps \<and> capResources c \<noteq> None)"
    using foldl_unionStep_any [where P = "\<lambda>c. capResources c \<noteq> None", OF unionStep_resources, of noCapabilities allCaps]
    by (simp add: unionCapabilities_def noCapabilities_def)
  have q: "(capPrompts (unionCapabilities allCaps) \<noteq> None)
           = (\<exists>c. Some c \<in> set allCaps \<and> capPrompts c \<noteq> None)"
    using foldl_unionStep_any [where P = "\<lambda>c. capPrompts c \<noteq> None", OF unionStep_prompts, of noCapabilities allCaps]
    by (simp add: unionCapabilities_def noCapabilities_def)
  have tl: "toolsListChanged (unionCapabilities allCaps)
            = (\<exists>c. Some c \<in> set allCaps \<and> toolsListChanged c)"
    using foldl_unionStep_any [of toolsListChanged, OF unionStep_toolsListChanged, of noCapabilities allCaps]
    by (simp add: unionCapabilities_def noCapabilities_flags)
  have rs: "resourcesSubscribe (unionCapabilities allCaps)
            = (\<exists>c. Some c \<in> set allCaps \<and> resourcesSubscribe c)"
    using foldl_unionStep_any [of resourcesSubscribe, OF unionStep_resourcesSubscribe, of noCapabilities allCaps]
    by (simp add: unionCapabilities_def noCapabilities_flags)
  have rl: "resourcesListChanged (unionCapabilities allCaps)
            = (\<exists>c. Some c \<in> set allCaps \<and> resourcesListChanged c)"
    using foldl_unionStep_any [of resourcesListChanged, OF unionStep_resourcesListChanged, of noCapabilities allCaps]
    by (simp add: unionCapabilities_def noCapabilities_flags)
  have pl: "promptsListChanged (unionCapabilities allCaps)
            = (\<exists>c. Some c \<in> set allCaps \<and> promptsListChanged c)"
    using foldl_unionStep_any [of promptsListChanged, OF unionStep_promptsListChanged, of noCapabilities allCaps]
    by (simp add: unionCapabilities_def noCapabilities_flags)
  have co: "capCompletions (unionCapabilities allCaps)
            = firstSome (map (\<lambda>oc. case oc of None \<Rightarrow> None | Some c \<Rightarrow> capCompletions c) allCaps)"
    using foldl_unionStep_first [of capCompletions, OF unionStep_completions, of noCapabilities allCaps]
    by (simp add: unionCapabilities_def noCapabilities_def)
  have lo: "capLogging (unionCapabilities allCaps)
            = firstSome (map (\<lambda>oc. case oc of None \<Rightarrow> None | Some c \<Rightarrow> capLogging c) allCaps)"
    using foldl_unionStep_first [of capLogging, OF unionStep_logging, of noCapabilities allCaps]
    by (simp add: unionCapabilities_def noCapabilities_def)
  have es: "(capExperimental (unionCapabilities allCaps) \<noteq> None)
            = (\<exists>c. Some c \<in> set allCaps \<and> capExperimental c \<noteq> None)"
    using foldl_unionStep_any [where P = "\<lambda>c. capExperimental c \<noteq> None", OF unionStep_experimental_set, of noCapabilities allCaps]
    by (simp add: unionCapabilities_def noCapabilities_def)
  have ex: "map_of (experimentalOf (unionCapabilities allCaps)) k
            = firstSome (map (\<lambda>oc. case oc of None \<Rightarrow> None
                                    | Some c \<Rightarrow> map_of (experimentalOf c) k) allCaps)" for k
    using foldl_unionStep_first [of "\<lambda>c. map_of (experimentalOf c) k", OF unionStep_experimental,
        of noCapabilities allCaps]
    by (simp add: unionCapabilities_def noCapabilities_flags)
  show ?thesis by (intro conjI allI) (fact t r q tl rs rl pl co lo es ex)+
qed

section \<open>Default ranking\<close>

lemma overflowServer_variants:
  "variants overflowServer =
     [\<lparr>variant = (plainVariant ''first'')\<lparr>priority := - 9223372036854775808\<rparr>,
       backend = InMemoryBackend quietServer\<rparr>,
      \<lparr>variant = (plainVariant ''second'')\<lparr>priority := 1\<rparr>,
       backend = InMemoryBackend quietServer\<rparr>]"
  by (simp add: overflowServer_def WithVariant_def addVariant_def NewServer_def plainVariant_def)

lemma overflowServer_rankingFunc: "rankingFunc overflowServer = None"
  by (simp add: overflowServer_def WithVariant_def addVariant_def NewServer_def plainVariant_def)

text \<open>
  C4. The default ranking is meant to sort by priority, lowest first, with the status
  weight as the tie-break. The comparison is the difference of the two priorities, and
  the difference of \<^verbatim>\<open>1\<close> and \<^verbatim>\<open>math.MinInt64\<close> wraps to a negative number: two variants
  registered with the distinct priorities \<^verbatim>\<open>math.MinInt64\<close> and \<^verbatim>\<open>1\<close> are ranked with
  priority \<^verbatim>\<open>1\<close> first, which is not ascending priority.
\<close>

theorem C4_priority_difference_overflows:
  "map (\<lambda>v. (ID v, sint (Priority v))) (Variants overflowServer)
     = [(''first'', - 9223372036854775808), (''second'', 1)]
   \<and> map ID (RankedVariants overflowServer noHints) = [''second'', ''first'']"
  by (simp add: RankedVariants_def Variants_eq overflowServer_variants
      overflowServer_rankingFunc defaultRankingFunc_def SortStableFunc_def rankCmp_def
      Priority_def plainVariant_def)

lemma bubble_map:
  assumes "\<And>a b. cmp (f a) (f b) = cmp a b"
  shows "bubble cmp (f x) (map f ys) = map f (bubble cmp x ys)"
  by (induction ys) (auto simp: assms)

lemma insertionSortCmpFunc_map:
  assumes "\<And>a b. cmp (f a) (f b) = cmp a b"
  shows "insertionSortCmpFunc cmp (map f ds) (map f xs) = map f (insertionSortCmpFunc cmp ds xs)"
proof (induction xs arbitrary: ds)
  case Nil
  then show ?case by (simp add: rev_map)
next
  case (Cons x xs)
  show ?case using Cons.IH [of "bubble cmp x ds"] by (simp add: bubble_map [of cmp f, OF assms])
qed

lemma statusWeight_stableIfEmpty:
  "statusWeight (Status (stableIfEmpty v)) = statusWeight (Status v)"
  by (simp add: stableIfEmpty_def statusWeight_def)

lemma rankCmp_stableIfEmpty: "rankCmp (stableIfEmpty a) (stableIfEmpty b) = rankCmp a b"
  by (simp add: rankCmp_def statusWeight_stableIfEmpty Priority_def) (simp add: stableIfEmpty_def)

text \<open>
  C10. The weight of the empty status is 0, the weight of \<^verbatim>\<open>"stable"\<close> and not the weight
  3 of an unknown status; the comparison of the default ranking does not tell a
  descriptor with the empty status from the same descriptor with status \<^verbatim>\<open>"stable"\<close>, on
  either side; ranking a list in which every empty status is written out as \<^verbatim>\<open>"stable"\<close>
  gives the same order as ranking the list itself; and the entry built for the
  initialize response has no \<^verbatim>\<open>status\<close> field exactly when the status is empty.
\<close>

theorem C10_empty_status_ranks_as_stable:
  "statusWeight [] = 0
   \<and> statusWeight [] = statusWeight Stable
   \<and> statusWeight [] \<noteq> 3
   \<and> rankCmp (a\<lparr>Status := []\<rparr>) b = rankCmp (a\<lparr>Status := Stable\<rparr>) b
   \<and> rankCmp b (a\<lparr>Status := []\<rparr>) = rankCmp b (a\<lparr>Status := Stable\<rparr>)
   \<and> defaultRankingFunc hints (map stableIfEmpty vs)
       = map stableIfEmpty (defaultRankingFunc hints vs)
   \<and> (map_of (variantPayload v) ''status'' = None) = (Status v = [])"
proof -
  have 1: "statusWeight [] = 0" "statusWeight [] = statusWeight Stable" "statusWeight [] \<noteq> 3"
    by (simp_all add: statusWeight_def)
  have 2: "rankCmp (a\<lparr>Status := []\<rparr>) b = rankCmp (a\<lparr>Status := Stable\<rparr>) b"
          "rankCmp b (a\<lparr>Status := []\<rparr>) = rankCmp b (a\<lparr>Status := Stable\<rparr>)"
    by (simp_all add: rankCmp_def statusWeight_def Priority_def)
  have 3: "defaultRankingFunc hints (map stableIfEmpty vs)
           = map stableIfEmpty (defaultRankingFunc hints vs)"
    using insertionSortCmpFunc_map [of rankCmp stableIfEmpty "[]" vs, OF rankCmp_stableIfEmpty]
    by (simp add: defaultRankingFunc_def SortStableFunc_def)
  have 4: "(map_of (variantPayload v) ''status'' = None) = (Status v = [])"
    by (simp add: variantPayload_def Let_def update_conv' split: option.splits)
  show ?thesis by (intro conjI) (fact 1 2 3 4)+
qed

section \<open>Registration\<close>

lemma WithVariant_panics:
  "(\<exists>pn. WithVariant s v srv p = Inl pn) = (ID v \<in> set (map ID (Variants s)))"
  by (force simp: WithVariant_def addVariant_def Variants_eq)

lemma WithVariant_appends:
  "ID v \<notin> set (map ID (Variants s)) \<Longrightarrow>
   WithVariant s v srv p = Inr (s\<lparr>variants := variants s @ [\<lparr>variant = v\<lparr>priority := p\<rparr>, backend = InMemoryBackend srv\<rparr>]\<rparr>)"
  by (force simp: WithVariant_def addVariant_def Variants_eq)

lemma WithVariant_Inr:
  "WithVariant s v srv p = Inr s' \<Longrightarrow>
   ID v \<notin> set (map ID (Variants s)) \<and> Variants s' = Variants s @ [v\<lparr>priority := p\<rparr>] \<and> rankingFunc s' = rankingFunc s"
  by (auto simp: WithVariant_def addVariant_def Variants_eq split: if_splits)

lemma registered_ID: "ID (registered r) = ID (fst r)"
  by (cases r) (simp add: registered_def)

lemma registerAll_Inr:
  "registerAll s regs = Inr t \<Longrightarrow> Variants t = Variants s @ map registered regs"
proof (induction regs arbitrary: s)
  case Nil
  then show ?case by simp
next
  case (Cons r regs)
  obtain v srv p where r: "r = (v, srv, p)" by (cases r) auto
  from Cons.prems r obtain s' where s': "WithVariant s v srv p = Inr s'" "registerAll s' regs = Inr t"
    by (auto split: sum.splits)
  from WithVariant_Inr [OF s'(1)] Cons.IH [OF s'(2)] show ?case
    by (simp add: r registered_def)
qed

lemma registerAll_succeeds:
  "(\<exists>t. registerAll s regs = Inr t)
   = (distinct (map (\<lambda>r. ID (fst r)) regs) \<and> set (map (\<lambda>r. ID (fst r)) regs) \<inter> set (map ID (Variants s)) = {})"
proof (induction regs arbitrary: s)
  case Nil
  then show ?case by simp
next
  case (Cons r regs)
  obtain v srv p where r: "r = (v, srv, p)" by (cases r) auto
  show ?case
  proof (cases "ID v \<in> set (map ID (Variants s))")
    case True
    then obtain pn where "WithVariant s v srv p = Inl pn" using WithVariant_panics [of s v srv p] by blast
    then show ?thesis using True by (auto simp: r)
  next
    case False
    let ?s' = "s\<lparr>variants := variants s @ [\<lparr>variant = v\<lparr>priority := p\<rparr>, backend = InMemoryBackend srv\<rparr>]\<rparr>"
    have w: "WithVariant s v srv p = Inr ?s'" using WithVariant_appends [OF False] .
    have v': "Variants ?s' = Variants s @ [v\<lparr>priority := p\<rparr>]" by (simp add: Variants_eq)
    show ?thesis using Cons.IH [of ?s'] False by (auto simp: r w v')
  qed
qed

lemma registerAll_distinct:
  assumes "registerAll NewServer regs = Inr t"
  shows "distinct (map ID (Variants t))"
proof -
  have "Variants t = map registered regs"
    using registerAll_Inr [OF assms] by (simp add: Variants_eq NewServer_def)
  moreover have "distinct (map (\<lambda>r. ID (fst r)) regs)"
    using registerAll_succeeds [of NewServer regs] assms by auto
  moreover have "map ID (map registered regs) = map (\<lambda>r. ID (fst r)) regs"
    by (simp add: registered_ID)
  ultimately show ?thesis by (simp only:)
qed

text \<open>
  C8. Registering a variant panics exactly when its ID is already registered, with the
  message that names the ID; otherwise the descriptor is appended with the given
  priority recorded on it. After a chain of registrations from \<^verbatim>\<open>NewServer\<close>,
  \<^verbatim>\<open>Variants\<close> lists the descriptors in registration order. \<^verbatim>\<open>Variants\<close> returns a
  slice at a fresh address, leaves every slice that existed untouched, and after the
  returned slice has been overwritten with anything (a mutation, a re-sort inside a
  ranking function) a new call returns the registration order again, in another fresh
  slice.
\<close>

theorem C8_registry:
  "((\<exists>pn. WithVariant s v srv p = Inl pn) = (ID v \<in> set (map ID (Variants s))))
   \<and> (ID v \<in> set (map ID (Variants s)) \<longrightarrow>
        WithVariant s v srv p = Inl (Panic (''variants: duplicate variant ID: '' @ ID v)))
   \<and> (ID v \<notin> set (map ID (Variants s)) \<longrightarrow>
        (\<exists>s'. WithVariant s v srv p = Inr s' \<and> Variants s' = Variants s @ [v\<lparr>priority := p\<rparr>]))
   \<and> (registerAll NewServer regs = Inr t \<longrightarrow> Variants t = map registered regs)
   \<and> Variants s = map variant (variants s)
   \<and> (case Variants_alloc s h of (h1, out) \<Rightarrow>
        out = length h \<and> take (length h) h1 = h \<and> h1 ! out = map variant (variants s)
        \<and> (case Variants_alloc s (h1[out := ys]) of (h2, out2) \<Rightarrow>
             out2 \<noteq> out \<and> h2 ! out = ys \<and> h2 ! out2 = map variant (variants s)))"
proof -
  have 1: "(\<exists>pn. WithVariant s v srv p = Inl pn) = (ID v \<in> set (map ID (Variants s)))"
    by (rule WithVariant_panics)
  have 2: "WithVariant s v srv p = Inl (Panic (''variants: duplicate variant ID: '' @ ID v))"
    if "ID v \<in> set (map ID (Variants s))"
    using that by (force simp: WithVariant_def addVariant_def Variants_eq)
  have 3: "\<exists>s'. WithVariant s v srv p = Inr s' \<and> Variants s' = Variants s @ [v\<lparr>priority := p\<rparr>]"
    if "ID v \<notin> set (map ID (Variants s))"
    using WithVariant_appends [OF that, of srv p] by (simp add: Variants_eq)
  have 4: "Variants t = map registered regs" if "registerAll NewServer regs = Inr t"
    using registerAll_Inr [OF that] by (simp add: Variants_eq NewServer_def)
  have 5: "Variants s = map variant (variants s)" by (rule Variants_eq)
  have 6: "(case Variants_alloc s h of (h1, out) \<Rightarrow>
        out = length h \<and> take (length h) h1 = h \<and> h1 ! out = map variant (variants s)
        \<and> (case Variants_alloc s (h1[out := ys]) of (h2, out2) \<Rightarrow>
             out2 \<noteq> out \<and> h2 ! out = ys \<and> h2 ! out2 = map variant (variants s)))"
    by (simp add: Variants_alloc_eq nth_append)
  show ?thesis using 1 2 3 4 5 6 by blast
qed

text \<open>The registry of two variants: a third ID is appended, a registered ID panics.\<close>

theorem C8_registry_witness:
  "ID (plainVariant ''third'') \<notin> set (map ID (Variants overflowServer))
   \<and> (\<exists>s'. WithVariant overflowServer (plainVariant ''third'') quietServer 2 = Inr s'
           \<and> Variants s' = Variants overflowServer @ [(plainVariant ''third'')\<lparr>priority := 2\<rparr>])
   \<and> ID (plainVariant ''first'') \<in> set (map ID (Variants overflowServer))
   \<and> WithVariant overflowServer (plainVariant ''first'') quietServer 2
       = Inl (Panic (''variants: duplicate variant ID: '' @ ID (plainVariant ''first'')))
   \<and> registerAll NewServer overflowRegs = Inr overflowServer
   \<and> Variants overflowServer = map registered overflowRegs"
proof -
  have a: "ID (plainVariant ''third'') \<notin> set (map ID (Variants overflowServer))"
    by (simp add: Variants_eq overflowServer_variants plainVariant_def)
  have b: "ID (plainVariant ''first'') \<in> set (map ID (Variants overflowServer))"
    by (simp add: Variants_eq overflowServer_variants plainVariant_def)
  have r: "registerAll NewServer overflowRegs = Inr overflowServer"
    by (simp add: overflowRegs_def overflowServer_def WithVariant_def addVariant_def NewServer_def
        plainVariant_def)
  show ?thesis
    using C8_registry [of overflowServer "plainVariant ''third''" quietServer 2 overflowRegs
            overflowServer]
          C8_registry [of overflowServer "plainVariant ''first''" quietServer 2 overflowRegs
            overflowServer] a b r
    by blast
qed

section \<open>Session state\<close>

lemma connect_Inl:
  assumes "connect b v fs w = (Inl err, w1)"
  shows "nextSession w \<le> nextSession w1"
    and "\<And>i. nextSession w \<le> i \<Longrightarrow> i < nextSession w1 \<Longrightarrow> i \<in> set (closedSessions w1)"
    and "set (closedSessions w) \<subseteq> set (closedSessions w1)"
  using assms
  by (auto simp: connect_def Let_def session_Close_def less_Suc_eq split: backend.splits option.splits)

lemma connect_Inr:
  assumes "connect b v fs w = (Inr c, w1)"
  shows "nextSession w1 = nextSession w + 2"
    and "closedSessions w1 = closedSessions w"
    and "sessID (clientSession c) = nextSession w + 1"
    and "cleanupFn c = Some (nextSession w)"
  using assms
  by (auto simp: connect_def Let_def session_Close_def split: backend.splits option.splits)

lemma close_all:
  "nextSession (fold (\<lambda>(k, c). innerConnection_close c) conns w) = nextSession w
   \<and> set (closedSessions (fold (\<lambda>(k, c). innerConnection_close c) conns w))
       = set (closedSessions w) \<union> sessionsOf conns"
proof (induction conns arbitrary: w)
  case Nil
  then show ?case by (simp add: sessionsOf_def)
next
  case (Cons kc conns)
  obtain k c where kc: "kc = (k, c)" by (cases kc) auto
  have 1: "nextSession (innerConnection_close c w) = nextSession w"
    by (simp add: innerConnection_close_def Let_def session_Close_def split: option.splits)
  have 2: "set (closedSessions (innerConnection_close c w))
           = set (closedSessions w) \<union> insert (sessID (clientSession c)) (set_option (cleanupFn c))"
    by (auto simp: innerConnection_close_def Let_def session_Close_def split: option.splits)
  show ?case using Cons.IH [of "innerConnection_close c w"] 1 2
    by (auto simp: kc sessionsOf_def)
qed

lemma update_fresh:
  "k \<notin> fst ` set al \<Longrightarrow> AList.update k v al = al @ [(k, v)]"
  by (induction al) auto

lemma sessionsOf_append:
  "sessionsOf (conns @ [(k, c)]) = sessionsOf conns \<union> insert (sessID (clientSession c)) (set_option (cleanupFn c))"
  by (auto simp: sessionsOf_def)

lemma connectAll_Inl:
  assumes "connectAll es fs conns w = (Inl err, w')"
      and "distinct (map (\<lambda>e. ID (variant e)) es)"
      and "set (map (\<lambda>e. ID (variant e)) es) \<inter> fst ` set conns = {}"
  shows "nextSession w \<le> nextSession w'
         \<and> {nextSession w ..< nextSession w'} \<subseteq> set (closedSessions w')
         \<and> sessionsOf conns \<subseteq> set (closedSessions w')
         \<and> set (closedSessions w) \<subseteq> set (closedSessions w')"
  using assms
proof (induction es arbitrary: conns w)
  case Nil
  then show ?case by simp
next
  case (Cons entry rest)
  obtain r w1 where c: "connect (backend entry) (variant entry) fs w = (r, w1)"
    by (cases "connect (backend entry) (variant entry) fs w") auto
  show ?case
  proof (cases r)
    case (Inl e)
    with c Cons.prems(1) have w': "w' = fold (\<lambda>(k, c). innerConnection_close c) conns w1"
      by simp
    from c Inl have ci: "connect (backend entry) (variant entry) fs w = (Inl e, w1)" by simp
    note f = connect_Inl [OF ci]
    have "{nextSession w ..< nextSession w1} \<subseteq> set (closedSessions w1)"
      using f(2) by auto
    then show ?thesis using close_all [of conns w1] f(1,3) w' by auto
  next
    case (Inr conn)
    let ?k = "ID (variant entry)"
    from c Inr have ci: "connect (backend entry) (variant entry) fs w = (Inr conn, w1)" by simp
    note f = connect_Inr [OF ci]
    have fresh: "?k \<notin> fst ` set conns" using Cons.prems(3) by auto
    then have upd: "AList.update ?k conn conns = conns @ [(?k, conn)]" by (rule update_fresh)
    from c Inr Cons.prems(1) upd
    have rec: "connectAll rest fs (conns @ [(?k, conn)]) w1 = (Inl err, w')" by simp
    have d: "distinct (map (\<lambda>e. ID (variant e)) rest)" using Cons.prems(2) by simp
    have i: "set (map (\<lambda>e. ID (variant e)) rest) \<inter> fst ` set (conns @ [(?k, conn)]) = {}"
      using Cons.prems(2,3) by auto
    from Cons.IH [OF rec d i]
    have IH: "nextSession w1 \<le> nextSession w'"
      "{nextSession w1 ..< nextSession w'} \<subseteq> set (closedSessions w')"
      "sessionsOf (conns @ [(?k, conn)]) \<subseteq> set (closedSessions w')"
      "set (closedSessions w1) \<subseteq> set (closedSessions w')" by auto
    have new: "{nextSession w ..< nextSession w1} \<subseteq> sessionsOf (conns @ [(?k, conn)])"
      using f by (auto simp: sessionsOf_append)
    have "{nextSession w ..< nextSession w'} \<subseteq> {nextSession w ..< nextSession w1} \<union> {nextSession w1 ..< nextSession w'}"
      by auto
    then have "{nextSession w ..< nextSession w'} \<subseteq> set (closedSessions w')"
      using new IH(2,3) by blast
    moreover have "sessionsOf conns \<subseteq> set (closedSessions w')"
      using IH(3) by (auto simp: sessionsOf_append)
    ultimately show ?thesis using IH(1,4) f(1,2) by auto
  qed
qed

lemma connectAll_Inr:
  assumes "connectAll es fs conns w = (Inr conns', w')"
      and "distinct (map (\<lambda>e. ID (variant e)) es)"
      and "set (map (\<lambda>e. ID (variant e)) es) \<inter> fst ` set conns = {}"
  shows "map fst conns' = map fst conns @ map (\<lambda>e. ID (variant e)) es
         \<and> closedSessions w' = closedSessions w
         \<and> nextSession w' = nextSession w + 2 * length es
         \<and> sessionsOf conns' = sessionsOf conns \<union> {nextSession w ..< nextSession w'}"
  using assms
proof (induction es arbitrary: conns w)
  case Nil
  then show ?case by simp
next
  case (Cons entry rest)
  obtain r w1 where c: "connect (backend entry) (variant entry) fs w = (r, w1)"
    by (cases "connect (backend entry) (variant entry) fs w") auto
  show ?case
  proof (cases r)
    case (Inl e)
    with c Cons.prems(1) show ?thesis by simp
  next
    case (Inr conn)
    let ?k = "ID (variant entry)"
    from c Inr have ci: "connect (backend entry) (variant entry) fs w = (Inr conn, w1)" by simp
    note f = connect_Inr [OF ci]
    have fresh: "?k \<notin> fst ` set conns" using Cons.prems(3) by auto
    then have upd: "AList.update ?k conn conns = conns @ [(?k, conn)]" by (rule update_fresh)
    from c Inr Cons.prems(1) upd
    have rec: "connectAll rest fs (conns @ [(?k, conn)]) w1 = (Inr conns', w')" by simp
    have d: "distinct (map (\<lambda>e. ID (variant e)) rest)" using Cons.prems(2) by simp
    have i: "set (map (\<lambda>e. ID (variant e)) rest) \<inter> fst ` set (conns @ [(?k, conn)]) = {}"
      using Cons.prems(2,3) by auto
    from Cons.IH [OF rec d i]
    have IH: "map fst conns' = map fst (conns @ [(?k, conn)]) @ map (\<lambda>e. ID (variant e)) rest"
      "closedSessions w' = closedSessions w1"
      "nextSession w' = nextSession w1 + 2 * length rest"
      "sessionsOf conns' = sessionsOf (conns @ [(?k, conn)]) \<union> {nextSession w1 ..< nextSession w'}"
      by auto
    have "sessionsOf (conns @ [(?k, conn)]) = sessionsOf conns \<union> {nextSession w ..< nextSession w1}"
      using f by (auto simp: sessionsOf_append)
    moreover have "{nextSession w ..< nextSession w1} \<union> {nextSession w1 ..< nextSession w'} = {nextSession w ..< nextSession w'}"
      using f(1) IH(3) by auto
    ultimately have "sessionsOf conns' = sessionsOf conns \<union> {nextSession w ..< nextSession w'}"
      using IH(4) by blast
    then show ?thesis using IH(1,2,3) f(1,2) by simp
  qed
qed

text \<open>
  C7. For a registry with unique IDs: if a backend fails to connect while the session
  state is created, every session opened by the call is closed when the error is
  returned; the initialize request then fails with that error and no state is stored
  for the front session. If every backend connects, the state holds one connection per
  registered variant, in registration order, made of exactly the sessions the call
  opened, none of them closed, and initialize stores that state under the front session.
\<close>

theorem C7_createSessionState_is_atomic:
  assumes "distinct (map ID (Variants s))"
  shows "(createSessionState s fs w = (Inl err, w') \<longrightarrow>
            {nextSession w ..< nextSession w'} \<subseteq> set (closedSessions w'))
       \<and> (next ''initialize'' params = Inr result
            \<and> createSessionState s (Some ss) (pWorld st) = (Inl err, w') \<longrightarrow>
            sessionMiddleware L s None next st ss ''initialize'' params
              = ((Inr (Inl err), []), st\<lparr>pWorld := w'\<rparr>))
       \<and> (createSessionState s fs w = (Inr state, w') \<longrightarrow>
            server (ssDispatcher state) = s
            \<and> map fst (connections (ssDispatcher state)) = map ID (Variants s)
            \<and> sessionsOf (connections (ssDispatcher state)) = {nextSession w ..< nextSession w'}
            \<and> closedSessions w' = closedSessions w)
       \<and> (next ''initialize'' params = Inr result
            \<and> createSessionState s (Some ss) (pWorld st) = (Inr state, w') \<longrightarrow>
            sessions (snd (sessionMiddleware L s None next st ss ''initialize'' params)) ss
              = Some state)"
proof -
  have d: "distinct (map (\<lambda>e. ID (variant e)) (variants s))"
    using assms by (simp add: Variants_eq comp_def)
  have e: "set (map (\<lambda>e. ID (variant e)) (variants s)) \<inter> fst ` set [] = {}" by simp
  have 1: "{nextSession w ..< nextSession w'} \<subseteq> set (closedSessions w')"
    if "createSessionState s fs w = (Inl err, w')"
  proof -
    from that have "connectAll (variants s) fs [] w = (Inl err, w')"
      by (auto simp: createSessionState_def split: prod.splits sum.splits)
    from connectAll_Inl [OF this d e] show ?thesis by simp
  qed
  have 2: "sessionMiddleware L s None next st ss ''initialize'' params
              = ((Inr (Inl err), []), st\<lparr>pWorld := w'\<rparr>)"
    if "next ''initialize'' params = Inr result"
       "createSessionState s (Some ss) (pWorld st) = (Inl err, w')"
    using that by (simp add: sessionMiddleware_def)
  have 3: "server (ssDispatcher state) = s
            \<and> map fst (connections (ssDispatcher state)) = map ID (Variants s)
            \<and> sessionsOf (connections (ssDispatcher state)) = {nextSession w ..< nextSession w'}
            \<and> closedSessions w' = closedSessions w"
    if "createSessionState s fs w = (Inr state, w')"
  proof -
    from that obtain conns where c: "connectAll (variants s) fs [] w = (Inr conns, w')"
      and st: "state = \<lparr>ssDispatcher = \<lparr>server = s, connections = conns\<rparr>\<rparr>"
      by (auto simp: createSessionState_def split: prod.splits sum.splits)
    from connectAll_Inr [OF c d e] show ?thesis
      by (simp add: st Variants_eq sessionsOf_def)
  qed
  have 4: "sessions (snd (sessionMiddleware L s None next st ss ''initialize'' params)) ss
              = Some state"
    if "next ''initialize'' params = Inr result"
       "createSessionState s (Some ss) (pWorld st) = (Inr state, w')"
    using that by (simp add: sessionMiddleware_def)
  show ?thesis using 1 2 3 4 by blast
qed

lemma halfServer_variants:
  "variants halfServer =
     [\<lparr>variant = plainVariant ''first'', backend = InMemoryBackend quietServer\<rparr>,
      \<lparr>variant = (plainVariant ''second'')\<lparr>priority := 1\<rparr>, backend = InMemoryBackend refusingServer\<rparr>]"
  by (simp add: halfServer_def WithVariant_def addVariant_def NewServer_def plainVariant_def)

lemma halfServer_fails:
  "createSessionState halfServer (Some 7) emptyWorld
   = (Inl (PlainError ''refused''), \<lparr>nextSession = 3, closedSessions = [2, 1, 0]\<rparr>)"
  by (simp add: createSessionState_def halfServer_variants connect_def Let_def quietServer_def
      refusingServer_def emptyWorld_def session_Close_def innerConnection_close_def plainVariant_def)

lemma weatherServer_variants:
  "variants weatherServer =
     [\<lparr>variant = claudeVariant, backend = InMemoryBackend (answering ''claude'')\<rparr>,
      \<lparr>variant = gptVariant\<lparr>priority := 1\<rparr>, backend = InMemoryBackend (answering ''gpt'')\<rparr>]"
  "rankingFunc weatherServer = Some familyRanking"
  by (simp_all add: weatherServer_def WithRanking_def WithVariant_def addVariant_def NewServer_def
      claudeVariant_def gptVariant_def)

lemma weather_connects:
  "createSessionState weatherServer (Some 7) emptyWorld
   = (Inr weatherState, \<lparr>nextSession = 4, closedSessions = []\<rparr>)"
  by (simp add: createSessionState_def weatherServer_variants connect_def Let_def answering_def
      emptyWorld_def weatherState_def claudeVariant_def gptVariant_def)

text \<open>
  The second of two backends refuses the client: the three sessions opened are closed,
  and the initialize request fails without a stored state. In the example registry both
  backends connect, and initialize stores the state with their four sessions.
\<close>

theorem C7_createSessionState_witness:
  "distinct (map ID (Variants halfServer))
   \<and> createSessionState halfServer (Some 7) emptyWorld
       = (Inl (PlainError ''refused''), \<lparr>nextSession = 3, closedSessions = [2, 1, 0]\<rparr>)
   \<and> {nextSession emptyWorld ..< 3} \<subseteq> set [2, 1, 0 :: nat]
   \<and> sessionMiddleware referenceStdlib halfServer None sdkNext emptyProxy 7 ''initialize'' openaiInit
       = ((Inr (Inl (PlainError ''refused'')), []),
          emptyProxy\<lparr>pWorld := \<lparr>nextSession = 3, closedSessions = [2, 1, 0]\<rparr>\<rparr>)
   \<and> distinct (map ID (Variants weatherServer))
   \<and> createSessionState weatherServer (Some 7) emptyWorld
       = (Inr weatherState, \<lparr>nextSession = 4, closedSessions = []\<rparr>)
   \<and> map fst (connections (ssDispatcher weatherState)) = [''claude-optimized'', ''gpt-optimized'']
   \<and> sessionsOf (connections (ssDispatcher weatherState)) = {0 ..< 4}
   \<and> sessions (snd (sessionMiddleware referenceStdlib weatherServer None sdkNext emptyProxy 7
                        ''initialize'' openaiInit)) 7
       = Some weatherState"
proof -
  have hd: "distinct (map ID (Variants halfServer))"
    by (simp add: Variants_eq halfServer_variants plainVariant_def)
  have n: "sdkNext ''initialize'' openaiInit = Inr (InitResult blankInit)"
    by (simp add: sdkNext_def)
  have hf: "createSessionState halfServer (Some 7) (pWorld emptyProxy)
            = (Inl (PlainError ''refused''), \<lparr>nextSession = 3, closedSessions = [2, 1, 0]\<rparr>)"
    using halfServer_fails by (simp add: emptyProxy_def)
  have wc: "createSessionState weatherServer (Some 7) (pWorld emptyProxy)
            = (Inr weatherState, \<lparr>nextSession = 4, closedSessions = []\<rparr>)"
    using weather_connects by (simp add: emptyProxy_def)
  have wv: "map ID (Variants weatherServer) = [''claude-optimized'', ''gpt-optimized'']"
    by (simp add: Variants_eq weatherServer_variants claudeVariant_def gptVariant_def)
  have wd: "distinct (map ID (Variants weatherServer))" using wv by simp
  show ?thesis
    using C7_createSessionState_is_atomic [OF hd, where fs = "Some 7" and w = emptyWorld
            and err = "PlainError ''refused''"
            and w' = "\<lparr>nextSession = 3, closedSessions = [2, 1, 0]\<rparr>" and ?next = sdkNext
            and params = openaiInit and result = "InitResult blankInit" and ss = 7
            and st = emptyProxy and L = referenceStdlib]
          C7_createSessionState_is_atomic [OF wd, where fs = "Some 7" and w = emptyWorld
            and w' = "\<lparr>nextSession = 4, closedSessions = []\<rparr>" and ?next = sdkNext
            and params = openaiInit and result = "InitResult blankInit" and ss = 7
            and st = emptyProxy and L = referenceStdlib and state = weatherState]
          hd n hf wc wv wd halfServer_fails weather_connects
    by (simp add: emptyWorld_def)
qed

section \<open>The initialize response\<close>

lemma payload_fields:
  "map_of (variantPayload v) ''id'' = Some (JStr (ID v))"
  "map_of (variantPayload v) ''description'' = Some (JStr (Description v))"
  "map_of (variantPayload v) ''hints'' = map_option hintsValue (Hints v)"
  "map_of (variantPayload v) ''status'' = (if Status v = [] then None else Some (JStr (Status v)))"
  "map_of (variantPayload v) ''deprecationInfo'' = map_option deprecationInfoValue (DeprecationInfo v)"
  "fst ` set (variantPayload v) \<subseteq> {''id'', ''description'', ''hints'', ''status'', ''deprecationInfo''}"
  by (auto simp: variantPayload_def Let_def update_conv' split: option.splits if_splits)

lemma extract_openai: "extractVariantHints openaiInit = openaiHints"
  by (simp add: extractVariantHints_def openaiInit_def openaiHints_def extensionID_def)

lemma rank_openai:
  "RankedVariants weatherServer openaiHints = [gptVariant\<lparr>priority := 1\<rparr>, claudeVariant]"
  by (simp add: RankedVariants_def Variants_eq weatherServer_variants familyRanking_def
      SortStableFunc_def HintValue_string_def openaiHints_def modelFamilyOf_def Let_def
      claudeVariant_def gptVariant_def Priority_def)

lemma rank_none:
  "RankedVariants weatherServer noHints = [claudeVariant, gptVariant\<lparr>priority := 1\<rparr>]"
  by (simp add: RankedVariants_def Variants_eq weatherServer_variants familyRanking_def
      SortStableFunc_def HintValue_string_def noHints_def modelFamilyOf_def Let_def
      claudeVariant_def gptVariant_def Priority_def)

lemma weather_enriched:
  "enrichInitResult weatherServer (InitResult blankInit) openaiInit
   = Inr (InitResult \<lparr>iCapabilities =
            Some (noCapabilities\<lparr>capExperimental := Some [(extensionID, weatherPayload)]\<rparr>),
          iBody = JNull\<rparr>)"
  by (simp add: enrichInitResult_def Let_def extract_openai rank_openai blankInit_def
      noCapabilities_def weatherPayload_def variantPayload_def gptVariant_def claudeVariant_def
      hintsValue_def Stable_def weatherServer_variants)

text \<open>
  C9. The result of enriching an initialize result keeps its body and has, under the
  extension ID of the experimental capabilities, \<^verbatim>\<open>availableVariants\<close>: the entries of
  the variants ranked with the hints extracted from the request, in rank order, and
  \<^verbatim>\<open>moreVariantsAvailable\<close>: whether the ranking returned fewer variants than are
  registered. The middleware answers \<^verbatim>\<open>initialize\<close> with that result whenever the front
  server's handler returned an initialize result and the session state exists (shared,
  or just created). An entry has \<^verbatim>\<open>id\<close> and \<^verbatim>\<open>description\<close>, has \<^verbatim>\<open>hints\<close>, \<^verbatim>\<open>status\<close>
  and \<^verbatim>\<open>deprecationInfo\<close> exactly when the descriptor has them set, and no other key.
  The hints are read from
  \<^verbatim>\<open>capabilities.experimental[extensionID].variantHints\<close> of the initialize parameters.
\<close>

theorem C9_initialize_response:
  "(case enrichInitResult s (InitResult ir) params of
      Inr (InitResult ir') \<Rightarrow>
        iBody ir' = iBody ir
        \<and> (case iCapabilities ir' of
             None \<Rightarrow> False
           | Some caps \<Rightarrow>
               map_of (experimentalOf caps) extensionID
               = Some (JObj
                   [(''availableVariants'',
                       JArr (map (\<lambda>v. JObj (variantPayload v))
                              (RankedVariants s (extractVariantHints params)))),
                    (''moreVariantsAvailable'',
                       JBool (length (RankedVariants s (extractVariantHints params))
                              < length (Variants s)))]))
    | _ \<Rightarrow> False)
   \<and> (next ''initialize'' params = Inr (InitResult ir)
        \<and> (shared \<noteq> None
             \<or> (\<exists>state w'. createSessionState s (Some ss) (pWorld st) = (Inr state, w')))
        \<longrightarrow> fst (fst (sessionMiddleware L s shared next st ss ''initialize'' params))
              = Inr (enrichInitResult s (InitResult ir) params))
   \<and> map_of (variantPayload v) ''id'' = Some (JStr (ID v))
   \<and> map_of (variantPayload v) ''description'' = Some (JStr (Description v))
   \<and> map_of (variantPayload v) ''hints'' = map_option hintsValue (Hints v)
   \<and> map_of (variantPayload v) ''status''
       = (if Status v = [] then None else Some (JStr (Status v)))
   \<and> map_of (variantPayload v) ''deprecationInfo''
       = map_option deprecationInfoValue (DeprecationInfo v)
   \<and> fst ` set (variantPayload v)
       \<subseteq> {''id'', ''description'', ''hints'', ''status'', ''deprecationInfo''}
   \<and> (pKind p = InitializeParams \<and> pCapabilities p = Some cc
        \<and> clientExperimental cc = Some ex \<and> map_of ex extensionID = Some (JObj m)
        \<and> map_of m ''variantHints'' = Some (JObj vh)
        \<longrightarrow> extractVariantHints (Ptr p)
              = \<lparr>hDescription = (case map_of vh ''description'' of
                                   Some (JStr d) \<Rightarrow> d | _ \<Rightarrow> []),
                 hHints = (case map_of vh ''hints'' of
                             Some (JObj h) \<Rightarrow> Some h | _ \<Rightarrow> None)\<rparr>)"
proof -
  have 1: "(case enrichInitResult s (InitResult ir) params of
        Inr (InitResult ir') \<Rightarrow>
          iBody ir' = iBody ir
          \<and> (case iCapabilities ir' of
               None \<Rightarrow> False
             | Some caps \<Rightarrow>
                 map_of (experimentalOf caps) extensionID
                 = Some (JObj
                     [(''availableVariants'',
                         JArr (map (\<lambda>v. JObj (variantPayload v))
                                (RankedVariants s (extractVariantHints params)))),
                      (''moreVariantsAvailable'',
                         JBool (length (RankedVariants s (extractVariantHints params))
                                < length (Variants s)))]))
      | _ \<Rightarrow> False)"
    by (simp add: enrichInitResult_def Let_def experimentalOf_def update_conv' Variants_eq)
  have 2: "fst (fst (sessionMiddleware L s shared next st ss ''initialize'' params))
              = Inr (enrichInitResult s (InitResult ir) params)"
    if "next ''initialize'' params = Inr (InitResult ir)"
       "shared \<noteq> None \<or> (\<exists>state w'. createSessionState s (Some ss) (pWorld st) = (Inr state, w'))"
    using that by (auto simp: sessionMiddleware_def split: option.splits)
  have 3: "extractVariantHints (Ptr p)
              = \<lparr>hDescription = (case map_of vh ''description'' of
                                   Some (JStr d) \<Rightarrow> d | _ \<Rightarrow> []),
                 hHints = (case map_of vh ''hints'' of
                             Some (JObj h) \<Rightarrow> Some h | _ \<Rightarrow> None)\<rparr>"
    if "pKind p = InitializeParams" "pCapabilities p = Some cc"
       "clientExperimental cc = Some ex" "map_of ex extensionID = Some (JObj m)"
       "map_of m ''variantHints'' = Some (JObj vh)"
    using that by (simp add: extractVariantHints_def)
  show ?thesis using 1 2 3 payload_fields [of v] by blast
qed

text \<open>The example registry, initialized with a hint for \<^verbatim>\<open>openai\<close>.\<close>

theorem C9_initialize_response_witness:
  "sdkNext ''initialize'' openaiInit = Inr (InitResult blankInit)
   \<and> createSessionState weatherServer (Some 7) (pWorld emptyProxy)
       = (Inr weatherState, \<lparr>nextSession = 4, closedSessions = []\<rparr>)
   \<and> fst (fst (sessionMiddleware referenceStdlib weatherServer None sdkNext emptyProxy 7
                  ''initialize'' openaiInit))
       = Inr (Inr (InitResult \<lparr>iCapabilities =
            Some (noCapabilities\<lparr>capExperimental := Some [(extensionID, weatherPayload)]\<rparr>),
          iBody = JNull\<rparr>))
   \<and> extractVariantHints openaiInit = openaiHints"
proof -
  have a: "sdkNext ''initialize'' openaiInit = Inr (InitResult blankInit)"
    by (simp add: sdkNext_def)
  have b: "createSessionState weatherServer (Some 7) (pWorld emptyProxy)
       = (Inr weatherState, \<lparr>nextSession = 4, closedSessions = []\<rparr>)"
    by (simp add: emptyProxy_def weather_connects)
  from b have c: "None \<noteq> (None :: sessionState option)
       \<or> (\<exists>state w'. createSessionState weatherServer (Some 7) (pWorld emptyProxy) = (Inr state, w'))"
    by blast
  show ?thesis
    using C9_initialize_response [where s = weatherServer and ir = blankInit
            and params = openaiInit and ?next = sdkNext and shared = None and ss = 7
            and st = emptyProxy and L = referenceStdlib] a b c
    by (simp add: weather_enriched extract_openai)
qed

section \<open>The default variant of a session\<close>

text \<open>Without a custom ranking function the hints do not change the ranking.\<close>

lemma default_ranking_ignores_hints:
  "rankingFunc s = None \<Longrightarrow> RankedVariants s hints = RankedVariants s noHints"
  by (simp add: RankedVariants_def defaultRankingFunc_def Let_def)

lemma getSession_default:
  "variantIDFromMeta params = [] \<Longrightarrow>
   getSession d params =
     (case RankedVariants (server d) noHints of
        [] \<Rightarrow> Inl (PlainError ''no variants available'')
      | v # rest \<Rightarrow>
          (case map_of (connections d) (ID v) of
             None \<Rightarrow> Inl (createInvalidVariantError d (ID v))
           | Some conn \<Rightarrow> Inr (ID v, clientSession conn)))"
  by (simp add: getSession_def Let_def split: list.splits)

text \<open>
  Without a custom ranking function the default of \<^verbatim>\<open>getSession\<close> is the first variant
  of the ranking computed with any hints, those of \<^verbatim>\<open>initialize\<close> included.
\<close>

lemma getSession_default_without_custom_ranking:
  assumes "rankingFunc (server d) = None" and "variantIDFromMeta params = []"
      and "RankedVariants (server d) hints = v # rest"
      and "map_of (connections d) (ID v) = Some conn"
  shows "getSession d params = Inr (ID v, clientSession conn)"
proof -
  have "RankedVariants (server d) noHints = v # rest"
    using default_ranking_ignores_hints [OF assms(1), of hints] assms(3) by simp
  then show ?thesis using assms(2,4) by (simp add: getSession_default)
qed

lemma weather_after_init:
  "sessions weatherAfterInit 7 = Some weatherState"
  by (simp add: weatherAfterInit_def sessionMiddleware_def sdkNext_def emptyProxy_def
      weather_connects)

text \<open>
  C1. The default of a request without a selector is meant to be the first variant of
  the ranking returned by \<^verbatim>\<open>initialize\<close>. \<^verbatim>\<open>getSession\<close> ranks again with empty hints
  instead. With the example's ranking function and a client that asks for \<^verbatim>\<open>openai\<close>,
  the initialize response lists \<^verbatim>\<open>gpt-optimized\<close> first, and a later \<^verbatim>\<open>tools/list\<close>
  without a selector is sent to session 1, the inner session of \<^verbatim>\<open>claude-optimized\<close>.
\<close>

theorem C1_default_ignores_initialize_ranking:
  "map ID (RankedVariants weatherServer (extractVariantHints openaiInit))
     = [''gpt-optimized'', ''claude-optimized'']
   \<and> fst (sessionMiddleware referenceStdlib weatherServer None sdkNext emptyProxy 7
            ''initialize'' openaiInit)
       = (Inr (Inr (InitResult \<lparr>iCapabilities =
            Some (noCapabilities\<lparr>capExperimental := Some [(extensionID, weatherPayload)]\<rparr>),
          iBody = JNull\<rparr>)), [])
   \<and> map_option (\<lambda>c. sessID (clientSession c))
        (map_of (connections (ssDispatcher weatherState)) ''gpt-optimized'') = Some 3
   \<and> map_option (\<lambda>c. sessID (clientSession c))
        (map_of (connections (ssDispatcher weatherState)) ''claude-optimized'') = Some 1
   \<and> fst (sessionMiddleware referenceStdlib weatherServer None sdkNext weatherAfterInit 7
            ''tools/list'' NilParams)
       = (Inr (Inr (PlainResult (JStr ''claude''))), [(1, ''tools/list'')])"
proof -
  have 1: "map ID (RankedVariants weatherServer (extractVariantHints openaiInit))
     = [''gpt-optimized'', ''claude-optimized'']"
    by (simp add: extract_openai rank_openai gptVariant_def claudeVariant_def)
  have 2: "fst (sessionMiddleware referenceStdlib weatherServer None sdkNext emptyProxy 7
            ''initialize'' openaiInit)
       = (Inr (Inr (InitResult \<lparr>iCapabilities =
            Some (noCapabilities\<lparr>capExperimental := Some [(extensionID, weatherPayload)]\<rparr>),
          iBody = JNull\<rparr>)), [])"
    by (simp add: sessionMiddleware_def sdkNext_def emptyProxy_def weather_connects
        weather_enriched)
  have 3: "map_option (\<lambda>c. sessID (clientSession c))
        (map_of (connections (ssDispatcher weatherState)) ''gpt-optimized'') = Some 3"
     "map_option (\<lambda>c. sessID (clientSession c))
        (map_of (connections (ssDispatcher weatherState)) ''claude-optimized'') = Some 1"
    by (simp_all add: weatherState_def)
  have g: "getSession (ssDispatcher weatherState) NilParams
           = Inr (''claude-optimized'', \<lparr>sessID = 1, rpc = respond (answering ''claude'')\<rparr>)"
    by (simp add: getSession_default variantIDFromMeta_def)
       (simp add: weatherState_def rank_none claudeVariant_def)
  have 4: "fst (sessionMiddleware referenceStdlib weatherServer None sdkNext weatherAfterInit 7
            ''tools/list'' NilParams)
       = (Inr (Inr (PlainResult (JStr ''claude''))), [(1, ''tools/list'')])"
    by (simp add: sessionMiddleware_def weather_after_init handle_def listMethods_def
        handleList_def g forward_def answering_def listParamsKind_def)
  show ?thesis using 1 2 3 4 by blast
qed

section \<open>Cursor scoping\<close>

subsection \<open>UTF-8: encoding a decoded rune gives back its bytes\<close>

lemma DecodeRune_size:
  assumes "DecodeRuneInString (c # cs) = (r, n)"
  shows "1 \<le> n \<and> n \<le> Suc (length cs)"
  using assms by (auto simp: Let_def split: if_splits list.splits)

lemma DecodeRune_prefix:
  assumes "DecodeRuneInString (c # cs) = (r, n)" and "\<not> (r = RuneError \<and> n = 1)"
  shows "DecodeRuneInString (c # take (n - 1) cs @ ys) = (r, n)"
  using assms by (auto simp: Let_def split: if_splits list.splits)

lemma DecodeRune_rest:
  assumes "DecodeRuneInString (c # cs) = (r, n)" and "\<not> (r = RuneError \<and> n = 1)"
      and "\<not> (of_char c :: nat) < 0x80"
  shows "\<forall>x \<in> set (take (n - 1) cs). 0x80 \<le> (of_char x :: nat)"
  using assms
  by (auto simp: Let_def acceptSecond_def continuation_def split: if_splits list.splits)

lemma mod_in_range:
  fixes a :: nat
  assumes "k * m \<le> a" and "a < k * m + m"
  shows "a mod m = a - k * m"
proof -
  have "a = (a - k * m) + k * m" using assms(1) by simp
  then have "a mod m = ((a - k * m) + k * m) mod m" by simp
  also have "\<dots> = (a - k * m) mod m" by simp
  also have "\<dots> = a - k * m" using assms by simp
  finally show ?thesis .
qed

lemma split_div: "z < m \<Longrightarrow> (q * m + z) div m = (q::nat)"
  by simp

lemma split_mod: "z < m \<Longrightarrow> (q * m + z) mod m = (z::nat)"
  by simp

lemma enc2:
  fixes s0 s1 :: nat
  assumes "0xC2 \<le> s0" "s0 < 0xE0" "0x80 \<le> s1" "s1 \<le> 0xBF"
  defines "r \<equiv> (s0 mod 32) * 64 + s1 mod 64"
  shows "0x7F < r" and "r \<le> 0x7FF" and "0xC0 + r div 64 = s0" and "0x80 + r mod 64 = s1"
proof -
  define x where "x = s0 - 192"
  define y where "y = s1 - 128"
  have m0: "s0 mod 32 = x" using mod_in_range [of 6 32 s0] assms(1,2) by (simp add: x_def)
  have m1: "s1 mod 64 = y" using mod_in_range [of 2 64 s1] assms(3,4) by (simp add: y_def)
  have b: "2 \<le> x" "x < 32" "y < 64" "s0 = 192 + x" "s1 = 128 + y"
    using assms(1-4) by (simp_all add: x_def y_def)
  have r: "r = x * 64 + y" by (simp add: r_def m0 m1)
  show "0x7F < r" using b by (simp add: r)
  show "r \<le> 0x7FF" using b by (simp add: r)
  show "0xC0 + r div 64 = s0" using b by (simp add: r)
  show "0x80 + r mod 64 = s1" using b by (simp add: r)
qed

lemma enc3:
  fixes s0 s1 s2 :: nat
  assumes "0xE0 \<le> s0" "s0 < 0xF0" "0x80 \<le> s1" "s1 \<le> 0xBF" "0x80 \<le> s2" "s2 \<le> 0xBF"
      and "s0 = 0xE0 \<longrightarrow> 0xA0 \<le> s1" and "s0 = 0xED \<longrightarrow> s1 \<le> 0x9F"
  defines "r \<equiv> (s0 mod 16) * 4096 + (s1 mod 64) * 64 + s2 mod 64"
  shows "0x7FF < r" and "r \<le> 0xFFFF" and "\<not> (0xD800 \<le> r \<and> r \<le> 0xDFFF)"
    and "0xE0 + r div 4096 = s0" and "0x80 + (r div 64) mod 64 = s1" and "0x80 + r mod 64 = s2"
proof -
  define x where "x = s0 - 224"
  define y where "y = s1 - 128"
  define z where "z = s2 - 128"
  have m0: "s0 mod 16 = x" using mod_in_range [of 14 16 s0] assms(1,2) by (simp add: x_def)
  have m1: "s1 mod 64 = y" using mod_in_range [of 2 64 s1] assms(3,4) by (simp add: y_def)
  have m2: "s2 mod 64 = z" using mod_in_range [of 2 64 s2] assms(5,6) by (simp add: z_def)
  have b: "x < 16" "y < 64" "z < 64" "s0 = 224 + x" "s1 = 128 + y" "s2 = 128 + z"
    "x = 0 \<longrightarrow> 32 \<le> y" "x = 13 \<longrightarrow> y \<le> 31"
    using assms(1-8) by (auto simp: x_def y_def z_def)
  have r: "r = (x * 64 + y) * 64 + z" by (simp add: r_def m0 m1 m2)
  have r': "r = x * 4096 + (y * 64 + z)" by (simp add: r)
  have yz: "y * 64 + z < 4096" using b by simp
  show "0x7FF < r" using b by (cases "x = 0") (auto simp: r)
  show "r \<le> 0xFFFF" using b by (simp add: r)
  show "\<not> (0xD800 \<le> r \<and> r \<le> 0xDFFF)"
  proof -
    consider "x \<le> 12" | "x = 13" | "14 \<le> x" by linarith
    then show ?thesis using b by cases (auto simp: r)
  qed
  show "0xE0 + r div 4096 = s0" using yz b(4) by (simp add: r')
  have d: "r div 64 = x * 64 + y" unfolding r using b(3) by (rule split_div)
  have "(x * 64 + y) mod 64 = y" using b(2) by (rule split_mod)
  then show "0x80 + (r div 64) mod 64 = s1" using b(5) by (simp only: d)
  have "r mod 64 = z" unfolding r using b(3) by (rule split_mod)
  then show "0x80 + r mod 64 = s2" using b(6) by simp
qed

lemma enc4:
  fixes s0 s1 s2 s3 :: nat
  assumes "0xF0 \<le> s0" "s0 \<le> 0xF4" "0x80 \<le> s1" "s1 \<le> 0xBF" "0x80 \<le> s2" "s2 \<le> 0xBF"
      and "0x80 \<le> s3" "s3 \<le> 0xBF"
      and "s0 = 0xF0 \<longrightarrow> 0x90 \<le> s1" and "s0 = 0xF4 \<longrightarrow> s1 \<le> 0x8F"
  defines "r \<equiv> (s0 mod 8) * 262144 + (s1 mod 64) * 4096 + (s2 mod 64) * 64 + s3 mod 64"
  shows "0xFFFF < r" and "r \<le> 0x10FFFF"
    and "0xF0 + r div 262144 = s0" and "0x80 + (r div 4096) mod 64 = s1"
    and "0x80 + (r div 64) mod 64 = s2" and "0x80 + r mod 64 = s3"
proof -
  define x where "x = s0 - 240"
  define y where "y = s1 - 128"
  define z where "z = s2 - 128"
  define u where "u = s3 - 128"
  have m0: "s0 mod 8 = x" using mod_in_range [of 30 8 s0] assms(1,2) by (simp add: x_def)
  have m1: "s1 mod 64 = y" using mod_in_range [of 2 64 s1] assms(3,4) by (simp add: y_def)
  have m2: "s2 mod 64 = z" using mod_in_range [of 2 64 s2] assms(5,6) by (simp add: z_def)
  have m3: "s3 mod 64 = u" using mod_in_range [of 2 64 s3] assms(7,8) by (simp add: u_def)
  have b: "x \<le> 4" "y < 64" "z < 64" "u < 64" "s0 = 240 + x" "s1 = 128 + y" "s2 = 128 + z"
    "s3 = 128 + u" "x = 0 \<longrightarrow> 16 \<le> y" "x = 4 \<longrightarrow> y \<le> 15"
    using assms(1-10) by (auto simp: x_def y_def z_def u_def)
  have r: "r = ((x * 64 + y) * 64 + z) * 64 + u" by (simp add: r_def m0 m1 m2 m3)
  have r1: "r = (x * 64 + y) * 4096 + (z * 64 + u)" by (simp add: r)
  have r2: "r = x * 262144 + ((y * 64 + z) * 64 + u)" by (simp add: r)
  have zu: "z * 64 + u < 4096" using b by simp
  have yzu: "(y * 64 + z) * 64 + u < 262144" using b by simp
  show "0xFFFF < r" using b by (cases "x = 0") (auto simp: r)
  show "r \<le> 0x10FFFF"
  proof -
    consider "x \<le> 3" | "x = 4" using b(1) by linarith
    then show ?thesis using b by cases (auto simp: r)
  qed
  show "0xF0 + r div 262144 = s0" using yzu b(5) by (simp add: r2)
  have d1: "r div 4096 = x * 64 + y" unfolding r1 using zu by (rule split_div)
  have "(x * 64 + y) mod 64 = y" using b(2) by (rule split_mod)
  then show "0x80 + (r div 4096) mod 64 = s1" using b(6) by (simp only: d1)
  have d2: "r div 64 = (x * 64 + y) * 64 + z" unfolding r using b(4) by (rule split_div)
  have "((x * 64 + y) * 64 + z) mod 64 = z" using b(3) by (rule split_mod)
  then show "0x80 + (r div 64) mod 64 = s2" using b(7) by (simp only: d2)
  have "r mod 64 = u" unfolding r using b(4) by (rule split_mod)
  then show "0x80 + r mod 64 = s3" using b(8) by simp
qed

lemma EncodeRune_two:
  "0x7F < r \<Longrightarrow> r \<le> 0x7FF \<Longrightarrow>
   EncodeRune r = [char_of (0xC0 + r div 64), char_of (0x80 + r mod 64)]"
  by (simp add: EncodeRune_def)

lemma EncodeRune_three:
  "0x7FF < r \<Longrightarrow> r \<le> 0xFFFF \<Longrightarrow> \<not> (0xD800 \<le> r \<and> r \<le> 0xDFFF) \<Longrightarrow>
   EncodeRune r = [char_of (0xE0 + r div 4096), char_of (0x80 + (r div 64) mod 64),
                   char_of (0x80 + r mod 64)]"
  by (cases "0xD800 \<le> r") (simp_all add: EncodeRune_def)

lemma EncodeRune_four:
  "0xFFFF < r \<Longrightarrow> r \<le> 0x10FFFF \<Longrightarrow>
   EncodeRune r = [char_of (0xF0 + r div 262144), char_of (0x80 + (r div 4096) mod 64),
                   char_of (0x80 + (r div 64) mod 64), char_of (0x80 + r mod 64)]"
  by (simp add: EncodeRune_def)

lemma EncodeRune_DecodeRune:
  assumes d: "DecodeRuneInString (c # cs) = (r, n)" and v: "\<not> (r = RuneError \<and> n = 1)"
  shows "EncodeRune r = c # take (n - 1) cs"
proof -
  define s0 where "s0 = (of_char c :: nat)"
  consider (ascii) "s0 < 0x80" | (bad) "0x80 \<le> s0" "s0 < 0xC2 \<or> 0xF4 < s0"
    | (two) "0xC2 \<le> s0" "s0 < 0xE0" | (three) "0xE0 \<le> s0" "s0 < 0xF0"
    | (four) "0xF0 \<le> s0" "s0 \<le> 0xF4"
    by linarith
  then show ?thesis
  proof cases
    case ascii
    then have "r = s0" "n = 1" using d by (simp_all add: s0_def)
    then show ?thesis using ascii by (simp add: EncodeRune_def s0_def)
  next
    case bad
    then have "r = RuneError \<and> n = 1" using d by (auto simp: s0_def)
    then show ?thesis using v by simp
  next
    case two
    then obtain c1 rest where cs: "cs = c1 # rest" and a: "acceptSecond s0 c1"
      and r: "r = (s0 mod 32) * 64 + of_char c1 mod 64" and n: "n = 2"
      using d v by (auto simp: s0_def Let_def split: list.splits if_splits)
    define s1 where "s1 = (of_char c1 :: nat)"
    have a': "0x80 \<le> s1" "s1 \<le> 0xBF"
      using a two by (auto simp: acceptSecond_def Let_def s1_def split: if_splits)
    have r': "r = (s0 mod 32) * 64 + s1 mod 64" by (simp only: r s1_def)
    note e = enc2 [OF two a', folded r']
    have "EncodeRune r = [char_of (0xC0 + r div 64), char_of (0x80 + r mod 64)]"
      using e(1,2) by (rule EncodeRune_two)
    also have "\<dots> = [char_of s0, char_of s1]" by (simp only: e(3,4))
    finally show ?thesis by (simp add: cs n s0_def s1_def)
  next
    case three
    then obtain c1 c2 rest where cs: "cs = c1 # c2 # rest" and a: "acceptSecond s0 c1"
      "continuation c2"
      and r: "r = (s0 mod 16) * 4096 + (of_char c1 mod 64) * 64 + of_char c2 mod 64" and n: "n = 3"
      using d v by (auto simp: s0_def Let_def split: list.splits if_splits)
    define s1 where "s1 = (of_char c1 :: nat)"
    define s2 where "s2 = (of_char c2 :: nat)"
    have a': "0x80 \<le> s1" "s1 \<le> 0xBF" "0x80 \<le> s2" "s2 \<le> 0xBF"
       "s0 = 0xE0 \<longrightarrow> 0xA0 \<le> s1" "s0 = 0xED \<longrightarrow> s1 \<le> 0x9F"
      using a three
      by (auto simp: acceptSecond_def continuation_def Let_def s1_def s2_def split: if_splits)
    have r': "r = (s0 mod 16) * 4096 + (s1 mod 64) * 64 + s2 mod 64" by (simp only: r s1_def s2_def)
    note e = enc3 [OF three a', folded r']
    have "EncodeRune r = [char_of (0xE0 + r div 4096), char_of (0x80 + (r div 64) mod 64),
                          char_of (0x80 + r mod 64)]"
      using e(1,2,3) by (rule EncodeRune_three)
    also have "\<dots> = [char_of s0, char_of s1, char_of s2]" by (simp only: e(4,5,6))
    finally show ?thesis by (simp add: cs n s0_def s1_def s2_def)
  next
    case four
    then obtain c1 c2 c3 rest where cs: "cs = c1 # c2 # c3 # rest" and a: "acceptSecond s0 c1"
      "continuation c2" "continuation c3"
      and r: "r = (s0 mod 8) * 262144 + (of_char c1 mod 64) * 4096 + (of_char c2 mod 64) * 64
                  + of_char c3 mod 64" and n: "n = 4"
      using d v by (auto simp: s0_def Let_def split: list.splits if_splits)
    define s1 where "s1 = (of_char c1 :: nat)"
    define s2 where "s2 = (of_char c2 :: nat)"
    define s3 where "s3 = (of_char c3 :: nat)"
    have a': "0x80 \<le> s1" "s1 \<le> 0xBF" "0x80 \<le> s2" "s2 \<le> 0xBF" "0x80 \<le> s3" "s3 \<le> 0xBF"
       "s0 = 0xF0 \<longrightarrow> 0x90 \<le> s1" "s0 = 0xF4 \<longrightarrow> s1 \<le> 0x8F"
      using a four
      by (auto simp: acceptSecond_def continuation_def Let_def s1_def s2_def s3_def split: if_splits)
    have r': "r = (s0 mod 8) * 262144 + (s1 mod 64) * 4096 + (s2 mod 64) * 64 + s3 mod 64"
      by (simp only: r s1_def s2_def s3_def)
    note e = enc4 [OF four a', folded r']
    have "EncodeRune r = [char_of (0xF0 + r div 262144), char_of (0x80 + (r div 4096) mod 64),
                          char_of (0x80 + (r div 64) mod 64), char_of (0x80 + r mod 64)]"
      using e(1,2) by (rule EncodeRune_four)
    also have "\<dots> = [char_of s0, char_of s1, char_of s2, char_of s3]" by (simp only: e(3,4,5,6))
    finally show ?thesis by (simp add: cs n s0_def s1_def s2_def s3_def)
  qed
qed

subsection \<open>JSON: a marshalled string scans and unquotes to itself\<close>

lemma hexValue_hex: "k < 16 \<Longrightarrow> hexValue (hex ! k) = Some k"
proof -
  assume "k < 16"
  then have "k = 0 \<or> k = 1 \<or> k = 2 \<or> k = 3 \<or> k = 4 \<or> k = 5 \<or> k = 6 \<or> k = 7
      \<or> k = 8 \<or> k = 9 \<or> k = 10 \<or> k = 11 \<or> k = 12 \<or> k = 13 \<or> k = 14 \<or> k = 15"
    by arith
  then show ?thesis by (elim disjE) (simp_all add: hex_def hexValue_def)
qed

lemma consumed_Some: "consumed xs (Some (raw, rest)) = Some (xs @ raw, rest)"
  by (simp add: consumed_def)

lemma consumed_consumed: "consumed xs (consumed ys r) = consumed (xs @ ys) r"
  by (cases r) (auto simp: consumed_def)

lemma prepend_Some: "prepend xs (Some ys) = Some (xs @ ys)"
  by (simp add: prepend_def)

lemma scanString_plain:
  "\<forall>x \<in> set xs. x \<noteq> CHR 0x22 \<and> x \<noteq> CHR 0x5C \<and> \<not> (of_char x :: nat) < 0x20
   \<Longrightarrow> scanString (xs @ ys) = consumed xs (scanString ys)"
proof (induction xs)
  case Nil
  show ?case by (cases "scanString ys") (auto simp: consumed_def)
next
  case (Cons x xs)
  then show ?case by (simp add: consumed_consumed)
qed

lemma scanString_escapeByte:
  assumes "(of_char c :: nat) < 0x80"
  shows "scanString (escapeByte c @ ys) = consumed (escapeByte c) (scanString ys)"
proof -
  have h: "hexValue (hex ! (of_char c div 16)) \<noteq> None" "hexValue (hex ! (of_char c mod 16)) \<noteq> None"
    using assms by (simp_all add: hexValue_hex)
  have z: "hexValue (CHR ''0'') \<noteq> None" by (simp add: hexValue_def)
  show ?thesis
    by (simp add: escapeByte_def scanEscape_def h z)
qed

lemma getu4_escape:
  assumes "(of_char c :: nat) < 0x80"
  shows "getu4 ([CHR 0x5C, CHR ''u'', CHR ''0'', CHR ''0'',
                 hex ! (of_char c div 16), hex ! (of_char c mod 16)] @ ys) = Some (of_char c)"
proof -
  have h: "hexValue (hex ! (of_char c div 16)) = Some (of_char c div 16)"
     "hexValue (hex ! (of_char c mod 16)) = Some (of_char c mod 16)"
    using assms by (simp_all add: hexValue_hex)
  have z: "hexValue (CHR ''0'') = Some 0" by (simp add: hexValue_def)
  show ?thesis by (simp add: h z)
qed

lemma unquoteBytes_escapeByte:
  assumes "(of_char c :: nat) < 0x80"
  shows "unquoteBytes (escapeByte c @ ys) = prepend [c] (unquoteBytes ys)"
proof (cases "c \<in> {CHR 0x5C, CHR 0x22, CHR 0x08, CHR 0x0C, CHR 0x0A, CHR 0x0D, CHR 0x09}")
  case True
  then show ?thesis by (auto simp: escapeByte_def)
next
  case False
  then have e: "escapeByte c = [CHR 0x5C, CHR ''u'', CHR ''0'', CHR ''0'',
                 hex ! (of_char c div 16), hex ! (of_char c mod 16)]"
    by (simp add: escapeByte_def)
  have g: "getu4 (CHR 0x5C # CHR ''u'' # CHR ''0'' # CHR ''0'' #
                 hex ! (of_char c div 16) # hex ! (of_char c mod 16) # ys) = Some (of_char c)"
    using getu4_escape [OF assms(1), of ys] by simp
  have s: "\<not> IsSurrogate (of_char c)" using assms(1) by (simp add: IsSurrogate_def)
  have r: "EncodeRune (of_char c) = [c]" using assms(1) by (simp add: EncodeRune_def)
  show ?thesis
    unfolding e by (simp only: append_Cons append_Nil unquoteBytes.simps g) (simp add: s r)
qed

lemma ValidString_ascii:
  "(of_char c :: nat) < 0x80 \<Longrightarrow> ValidString (c # cs) = ValidString cs"
  by (simp add: RuneError_def)

lemma separator_escape:
  assumes "r = 0x2028 \<or> r = 0x2029"
  shows "scanString ([CHR 0x5C, CHR ''u'', CHR ''2'', CHR ''0'', CHR ''2'', hex ! (r mod 16)] @ ys)
         = consumed [CHR 0x5C, CHR ''u'', CHR ''2'', CHR ''0'', CHR ''2'', hex ! (r mod 16)]
             (scanString ys)"
    and "getu4 (CHR 0x5C # CHR ''u'' # CHR ''2'' # CHR ''0'' # CHR ''2'' # hex ! (r mod 16) # ys)
         = Some r"
    and "\<not> IsSurrogate r"
  using assms by (auto simp: scanEscape_def hexValue_def hex_def IsSurrogate_def)

text \<open>
  One step of the encoder on valid text: the bytes it writes for the first rune, what the
  scanner makes of them, and what \<open>unquoteBytes\<close> reads back.
\<close>

lemma appendBody_step:
  assumes v: "ValidString (c # cs)"
  shows "\<exists>chunk k. appendBody (c # cs) = chunk @ appendBody (drop k cs)
           \<and> k \<le> length cs \<and> ValidString (drop k cs)
           \<and> (\<forall>ys. scanString (chunk @ ys) = consumed chunk (scanString ys))
           \<and> (\<forall>ys. unquoteBytes (chunk @ ys) = prepend (c # take k cs) (unquoteBytes ys))"
proof (cases "(of_char c :: nat) < 0x80")
  case True
  have vs: "ValidString cs" using v True by (simp add: ValidString_ascii)
  show ?thesis
  proof (cases "htmlSafeSet c")
    case safe: True
    have p: "c \<noteq> CHR 0x22 \<and> c \<noteq> CHR 0x5C \<and> \<not> (of_char c :: nat) < 0x20"
      using safe by (auto simp: htmlSafeSet_def)
    have s: "scanString ([c] @ ys) = consumed [c] (scanString ys)" for ys
      using scanString_plain [of "[c]" ys] p by simp
    have u: "unquoteBytes ([c] @ ys) = prepend [c] (unquoteBytes ys)" for ys
      using p True by simp
    have a: "appendBody (c # cs) = [c] @ appendBody (drop 0 cs)" using True safe by simp
    show ?thesis using a vs s u
      by (intro exI [of _ "[c]"] exI [of _ 0]) simp
  next
    case unsafe: False
    have a: "appendBody (c # cs) = escapeByte c @ appendBody (drop 0 cs)" using True unsafe by simp
    show ?thesis
      using a vs scanString_escapeByte [OF True] unquoteBytes_escapeByte [OF True]
      by (intro exI [of _ "escapeByte c"] exI [of _ 0]) simp
  qed
next
  case False
  obtain r n where d: "DecodeRuneInString (c # cs) = (r, n)" by (cases "DecodeRuneInString (c # cs)")
  have ok: "\<not> (r = RuneError \<and> n = 1)" and vs: "ValidString (drop (n - 1) cs)"
    using v d by simp_all
  have n: "1 \<le> n" "n \<le> Suc (length cs)" using DecodeRune_size [OF d] by simp_all
  have e: "EncodeRune r = c # take (n - 1) cs" by (rule EncodeRune_DecodeRune [OF d ok])
  have nb: "c \<noteq> CHR 0x5C" "c \<noteq> CHR 0x22" "\<not> (of_char c :: nat) < 0x20" using False by auto
  show ?thesis
  proof (cases "r = 0x2028 \<or> r = 0x2029")
    case True
    let ?chunk = "[CHR 0x5C, CHR ''u'', CHR ''2'', CHR ''0'', CHR ''2'', hex ! (r mod 16)]"
    have a: "appendBody (c # cs) = ?chunk @ appendBody (drop (n - 1) cs)"
      using False d ok True by (simp del: DecodeRuneInString.simps)
    have u: "unquoteBytes (?chunk @ ys) = prepend (c # take (n - 1) cs) (unquoteBytes ys)" for ys
      by (simp only: append_Cons append_Nil unquoteBytes.simps separator_escape(2) [OF True])
         (simp add: separator_escape(3) [OF True] e)
    show ?thesis using a vs n separator_escape(1) [OF True] u
      by (intro exI [of _ ?chunk] exI [of _ "n - 1"]) simp
  next
    case other: False
    let ?chunk = "c # take (n - 1) cs"
    have a: "appendBody (c # cs) = ?chunk @ appendBody (drop (n - 1) cs)"
      using False d ok other by (simp del: DecodeRuneInString.simps)
    have p: "\<forall>x \<in> set ?chunk. x \<noteq> CHR 0x22 \<and> x \<noteq> CHR 0x5C \<and> \<not> (of_char x :: nat) < 0x20"
      using DecodeRune_rest [OF d ok False] False by auto
    have s: "scanString (?chunk @ ys) = consumed ?chunk (scanString ys)" for ys
      by (rule scanString_plain [OF p])
    have dp: "DecodeRuneInString (c # take (n - 1) cs @ ys) = (r, n)" for ys
      by (rule DecodeRune_prefix [OF d ok])
    have dr: "drop (n - Suc 0) (take (n - Suc 0) cs @ ys) = ys" for ys
      using n by (simp add: min_def)
    have u: "unquoteBytes (?chunk @ ys) = prepend ?chunk (unquoteBytes ys)" for ys
      using nb False
      by (simp only: append_Cons unquoteBytes.simps dp) (simp add: e dr del: drop_append)
    show ?thesis using a vs n s u
      by (intro exI [of _ ?chunk] exI [of _ "n - 1"]) simp
  qed
qed

lemma scanString_appendBody:
  "ValidString s \<Longrightarrow> scanString (appendBody s @ CHR 0x22 # rest) = Some (appendBody s, rest)"
proof (induction s rule: length_induct)
  case (1 s)
  show ?case
  proof (cases s)
    case Nil
    then show ?thesis by simp
  next
    case (Cons c cs)
    from appendBody_step [OF "1.prems" [unfolded Cons]]
    obtain chunk k where a: "appendBody (c # cs) = chunk @ appendBody (drop k cs)"
      and k: "k \<le> length cs" and v: "ValidString (drop k cs)"
      and s: "\<And>ys. scanString (chunk @ ys) = consumed chunk (scanString ys)"
      by blast
    have "length (drop k cs) < length s" using Cons by simp
    with "1.IH" v have
      "scanString (appendBody (drop k cs) @ CHR 0x22 # rest) = Some (appendBody (drop k cs), rest)"
      by blast
    then show ?thesis by (simp add: Cons a s consumed_Some del: appendBody.simps)
  qed
qed

lemma unquoteBytes_appendBody:
  "ValidString s \<Longrightarrow> unquoteBytes (appendBody s) = Some s"
proof (induction s rule: length_induct)
  case (1 s)
  show ?case
  proof (cases s)
    case Nil
    then show ?thesis by simp
  next
    case (Cons c cs)
    from appendBody_step [OF "1.prems" [unfolded Cons]]
    obtain chunk k where a: "appendBody (c # cs) = chunk @ appendBody (drop k cs)"
      and k: "k \<le> length cs" and v: "ValidString (drop k cs)"
      and u: "\<And>ys. unquoteBytes (chunk @ ys) = prepend (c # take k cs) (unquoteBytes ys)"
      by blast
    have "length (drop k cs) < length s" using Cons by simp
    with "1.IH" v have "unquoteBytes (appendBody (drop k cs)) = Some (drop k cs)" by blast
    then show ?thesis by (simp add: Cons a u prepend_Some del: appendBody.simps)
  qed
qed

subsection \<open>JSON: the cursor object unmarshals to itself\<close>

lemma tokens_string:
  assumes "ValidString s"
  shows "tokens (CHR 0x22 # appendBody s @ CHR 0x22 # rest) = emit (TString (appendBody s)) (tokens rest)"
  by (simp add: isSpace_def scanToken_def punctuation_def scanString_appendBody [OF assms])

lemma tokens_punct:
  "tokens (CHR 0x7B # rest) = emit TBeginObject (tokens rest)"
  "tokens (CHR 0x7D # rest) = emit TEndObject (tokens rest)"
  "tokens (CHR '':'' # rest) = emit TColon (tokens rest)"
  "tokens (CHR '','' # rest) = emit TComma (tokens rest)"
  by (simp_all add: isSpace_def scanToken_def punctuation_def)

lemma ValidString_key: "ValidString ''v''" "ValidString ''c''"
  by (simp_all add: RuneError_def)

lemma appendBody_key: "appendBody ''v'' = ''v''" "appendBody ''c'' = ''c''"
  by (simp_all add: htmlSafeSet_def)

lemma unquoteBytes_key: "unquoteBytes ''v'' = Some ''v''" "unquoteBytes ''c'' = Some ''c''"
  by (simp_all add: prepend_def)

lemma tokens_cursor:
  assumes "ValidString v" and "ValidString c"
  shows "tokens ([CHR 0x7B] @ appendString ''v'' @ '':'' @ appendString v @ '',''
                 @ appendString ''c'' @ '':'' @ appendString c @ [CHR 0x7D])
         = Some [TBeginObject, TString ''v'', TColon, TString (appendBody v), TComma,
                 TString ''c'', TColon, TString (appendBody c), TEndObject]"
proof -
  have k: "tokens (CHR 0x22 # appendBody ''v'' @ CHR 0x22 # rest) = emit (TString ''v'') (tokens rest)"
          "tokens (CHR 0x22 # appendBody ''c'' @ CHR 0x22 # rest) = emit (TString ''c'') (tokens rest)" for rest
    using tokens_string [OF ValidString_key(1), of rest] tokens_string [OF ValidString_key(2), of rest]
    by (simp_all only: appendBody_key)
  have n: "[CHR 0x7B] @ appendString ''v'' @ '':'' @ appendString v @ '',''
                 @ appendString ''c'' @ '':'' @ appendString c @ [CHR 0x7D]
           = CHR 0x7B # CHR 0x22 # appendBody ''v'' @ CHR 0x22 # CHR '':'' # CHR 0x22 # appendBody v
             @ CHR 0x22 # CHR '','' # CHR 0x22 # appendBody ''c'' @ CHR 0x22 # CHR '':'' # CHR 0x22
             # appendBody c @ CHR 0x22 # CHR 0x7D # []"
    by (simp add: appendString_def del: appendBody.simps)
  show ?thesis
    unfolding n
    by (simp only: tokens_punct k tokens_string [OF assms(1)] tokens_string [OF assms(2)]
          tokens.simps(1) emit_def option.map)
qed

lemma unmarshal_marshal:
  assumes "ValidString v" and "ValidString c"
      and "marshalCursor \<lparr>VariantID = v, InnerCursor = c\<rparr> = Some data"
  shows "unmarshalCursor data = Some \<lparr>VariantID = v, InnerCursor = c\<rparr>"
proof -
  from assms(3)
  have d: "data = [CHR 0x7B] @ appendString ''v'' @ '':'' @ appendString v @ '',''
                 @ appendString ''c'' @ '':'' @ appendString c @ [CHR 0x7D]"
    by (simp add: marshalCursor_def)
  show ?thesis
    unfolding unmarshalCursor_def d tokens_cursor [OF assms(1,2)]
    by (simp add: unquoteBytes_key unquoteBytes_appendBody [OF assms(1)]
          unquoteBytes_appendBody [OF assms(2)] fieldOf_def storeString_def afterValue_def
          maxNestingDepth_def del: unquoteBytes.simps)
qed

subsection \<open>base64: decoding an encoding gives back the bytes\<close>

lemma sextetOf_alphabet: "k < 64 \<Longrightarrow> sextetOf (base64Alphabet ! k) = Some k"
proof -
  have "\<forall>k \<in> set [0..<64]. sextetOf (base64Alphabet ! k) = Some k"
    by (simp add: upt_rec base64Alphabet_def sextetOf_def)
  then show "k < 64 \<Longrightarrow> sextetOf (base64Alphabet ! k) = Some k" by simp
qed

lemma sextetOf_sextetChar: "sextetOf (sextetChar i) = Some (i mod 64)"
  by (simp add: sextetChar_def sextetOf_alphabet)

lemma sextetChar_not_pad: "sextetChar i \<noteq> CHR ''=''" "\<not> isNewline (sextetChar i)"
  using sextetOf_sextetChar [of i] by (auto simp: sextetOf_def isNewline_def)

lemma group_sextets:
  fixes a b c :: nat
  assumes "a < 256" "b < 256" "c < 256"
  defines "n \<equiv> a * 65536 + b * 256 + c"
  shows "(n div 262144) mod 64 = a div 4"
    and "(n div 4096) mod 64 = (a mod 4) * 16 + b div 16"
    and "(n div 64) mod 64 = (b mod 16) * 4 + c div 64"
    and "n mod 64 = c mod 64"
proof -
  define a1 a0 b1 b0 c1 c0 where "a1 = a div 4" and "a0 = a mod 4" and "b1 = b div 16"
    and "b0 = b mod 16" and "c1 = c div 64" and "c0 = c mod 64"
  have ab: "a = a1 * 4 + a0" "b = b1 * 16 + b0" "c = c1 * 64 + c0"
    by (simp_all add: a1_def a0_def b1_def b0_def c1_def c0_def)
  have bd: "a1 < 64" "a0 < 4" "b1 < 16" "b0 < 16" "c1 < 4" "c0 < 64"
    using assms(1-3) by (simp_all add: a1_def a0_def b1_def b0_def c1_def c0_def div_less_iff_less_mult)
  have n3: "n = ((a1 * 64 + (a0 * 16 + b1)) * 64 + (b0 * 4 + c1)) * 64 + c0"
    by (simp add: n_def ab)
  have n2: "n = (a1 * 64 + (a0 * 16 + b1)) * 4096 + ((b0 * 4 + c1) * 64 + c0)"
    by (simp add: n3)
  have n1: "n = a1 * 262144 + (((a0 * 16 + b1) * 64 + (b0 * 4 + c1)) * 64 + c0)"
    by (simp add: n3)
  have s2: "a0 * 16 + b1 < 64" using bd by simp
  have s3: "b0 * 4 + c1 < 64" using bd by simp
  have r2: "(b0 * 4 + c1) * 64 + c0 < 4096" using bd by simp
  have r1: "((a0 * 16 + b1) * 64 + (b0 * 4 + c1)) * 64 + c0 < 262144" using bd by simp
  have d1: "n div 262144 = a1" unfolding n1 using r1 by (rule split_div)
  have d2: "n div 4096 = a1 * 64 + (a0 * 16 + b1)" unfolding n2 using r2 by (rule split_div)
  have d3: "n div 64 = (a1 * 64 + (a0 * 16 + b1)) * 64 + (b0 * 4 + c1)"
    unfolding n3 using bd(6) by (rule split_div)
  show "(n div 262144) mod 64 = a div 4" using bd(1) by (simp only: d1 a1_def mod_less)
  have "(a1 * 64 + (a0 * 16 + b1)) mod 64 = a0 * 16 + b1" using s2 by (rule split_mod)
  then show "(n div 4096) mod 64 = (a mod 4) * 16 + b div 16" by (simp only: d2 a0_def b1_def)
  have "((a1 * 64 + (a0 * 16 + b1)) * 64 + (b0 * 4 + c1)) mod 64 = b0 * 4 + c1"
    using s3 by (rule split_mod)
  then show "(n div 64) mod 64 = (b mod 16) * 4 + c div 64" by (simp only: d3 b0_def c1_def)
  have "n mod 64 = c0" unfolding n3 using bd(6) by (rule split_mod)
  then show "n mod 64 = c mod 64" by (simp only: c0_def)
qed

lemma group_bytes:
  fixes a b c :: nat
  assumes "a < 256" "b < 256" "c < 256"
  shows "((a div 4) * 4 + ((a mod 4) * 16 + b div 16) div 16) mod 256 = a"
    and "(((a mod 4) * 16 + b div 16) * 16 + ((b mod 16) * 4 + c div 64) div 4) mod 256 = b"
    and "(((b mod 16) * 4 + c div 64) * 64 + c mod 64) mod 256 = c"
proof -
  define a1 a0 b1 b0 c1 c0 where "a1 = a div 4" and "a0 = a mod 4" and "b1 = b div 16"
    and "b0 = b mod 16" and "c1 = c div 64" and "c0 = c mod 64"
  have ab: "a = a1 * 4 + a0" "b = b1 * 16 + b0" "c = c1 * 64 + c0"
    by (simp_all add: a1_def a0_def b1_def b0_def c1_def c0_def)
  have bd: "a1 < 64" "a0 < 4" "b1 < 16" "b0 < 16" "c1 < 4" "c0 < 64"
    using assms(1-3) by (simp_all add: a1_def a0_def b1_def b0_def c1_def c0_def div_less_iff_less_mult)
  have 1: "(a0 * 16 + b1) div 16 = a0" using bd(3) by (rule split_div)
  have 2: "(b0 * 4 + c1) div 4 = b0" using bd(5) by (rule split_div)
  have "(a1 * 4 + a0) mod 256 = a" using assms(1) by (simp add: ab)
  then show "((a div 4) * 4 + ((a mod 4) * 16 + b div 16) div 16) mod 256 = a"
    by (simp only: a1_def [symmetric] a0_def [symmetric] b1_def [symmetric] 1)
  have e2: "((a0 * 16 + b1) * 16 + b0) = a0 * 256 + b" by (simp add: ab)
  have "(a0 * 256 + b) mod 256 = b" using assms(2) by (rule split_mod)
  then have "((a0 * 16 + b1) * 16 + b0) mod 256 = b" by (simp only: e2)
  then show "(((a mod 4) * 16 + b div 16) * 16 + ((b mod 16) * 4 + c div 64) div 4) mod 256 = b"
    by (simp only: a0_def [symmetric] b1_def [symmetric] b0_def [symmetric] c1_def [symmetric] 2)
  have e3: "((b0 * 4 + c1) * 64 + c0) = b0 * 256 + c" by (simp add: ab)
  have "(b0 * 256 + c) mod 256 = c" using assms(3) by (rule split_mod)
  then have "((b0 * 4 + c1) * 64 + c0) mod 256 = c" by (simp only: e3)
  then show "(((b mod 16) * 4 + c div 64) * 64 + c mod 64) mod 256 = c"
    by (simp only: b0_def [symmetric] c1_def [symmetric] c0_def [symmetric])
qed

lemma decode_group:
  fixes a b c :: nat
  assumes "a < 256" "b < 256" "c < 256"
  defines "n \<equiv> a * 65536 + b * 256 + c"
  shows "(n div 262144 mod 64 * 4 + n div 4096 mod 64 div 16) mod 256 = a"
    and "(n div 4096 mod 64 * 16 + n div 64 mod 64 div 4) mod 256 = b"
    and "(n div 64 mod 64 * 64 + n mod 64) mod 256 = c"
  unfolding n_def
  by (simp_all only: group_sextets [OF assms(1-3)] group_bytes [OF assms(1-3)])

lemma decodeGroups_pad2:
  "sextetOf x = Some sx \<Longrightarrow> sextetOf y = Some sy \<Longrightarrow> sextetOf z = Some sz \<Longrightarrow>
   decodeGroups [x, y, z, CHR ''=''] = Some [(sx * 4 + sy div 16) mod 256, (sy * 16 + sz div 4) mod 256]"
  by (auto simp: sextetOf_def)

lemma decodeGroups_pad1:
  "sextetOf x = Some sx \<Longrightarrow> sextetOf y = Some sy \<Longrightarrow>
   decodeGroups [x, y, CHR ''='', CHR ''=''] = Some [(sx * 4 + sy div 16) mod 256]"
  by simp

lemma decodeGroups_encodeGroups:
  "\<forall>b \<in> set bs. b < 256 \<Longrightarrow> decodeGroups (encodeGroups bs) = Some bs"
proof (induction bs rule: encodeGroups.induct)
  case (1 a b c rest)
  then have r: "decodeGroups (encodeGroups rest) = Some rest" and l: "a < 256" "b < 256" "c < 256"
    by simp_all
  show ?case
    by (simp add: Let_def sextetOf_sextetChar sextetChar_not_pad r decode_group [OF l])
next
  case (2 a b)
  then have l: "a < 256" "b < 256" "(0::nat) < 256" by simp_all
  define n where "n = a * 65536 + b * 256 + 0"
  have e: "encodeGroups [a, b]
           = [sextetChar (n div 262144), sextetChar (n div 4096), sextetChar (n div 64), CHR ''='']"
    by (simp add: Let_def n_def)
  show ?case
    unfolding e
    by (simp only: decodeGroups_pad2 [OF sextetOf_sextetChar sextetOf_sextetChar sextetOf_sextetChar]
          n_def decode_group [OF l])
next
  case (3 a)
  then have l: "a < 256" "(0::nat) < 256" "(0::nat) < 256" by simp_all
  define n where "n = a * 65536 + 0 * 256 + 0"
  have e: "encodeGroups [a]
           = [sextetChar (n div 262144), sextetChar (n div 4096), CHR ''='', CHR ''='']"
    by (simp add: Let_def n_def)
  show ?case
    unfolding e
    by (simp only: decodeGroups_pad1 [OF sextetOf_sextetChar sextetOf_sextetChar]
          n_def decode_group [OF l])
next
  case 4
  show ?case by simp
qed

lemma pad_not_newline: "\<not> isNewline (CHR ''='')"
  by (simp add: isNewline_def)

lemma encodeGroups_no_newline: "filter (\<lambda>c. \<not> isNewline c) (encodeGroups bs) = encodeGroups bs"
  by (induction bs rule: encodeGroups.induct)
     (simp_all add: Let_def sextetChar_not_pad pad_not_newline)

lemma DecodeString_EncodeToString: "DecodeString (EncodeToString s) = Some s"
proof -
  have "\<forall>b \<in> set (map of_char s). b < (256::nat)" by simp
  from decodeGroups_encodeGroups [OF this] show ?thesis
    by (simp add: DecodeString_def EncodeToString_def encodeGroups_no_newline comp_def)
qed

lemma EncodeToString_not_empty: "s \<noteq> [] \<Longrightarrow> EncodeToString s \<noteq> []"
proof
  assume n: "s \<noteq> []" and e: "EncodeToString s = []"
  have "DecodeString [] = Some []" by (simp add: DecodeString_def)
  with DecodeString_EncodeToString [of s] e have "s = []" by simp
  with n show False by simp
qed

subsection \<open>The cursor codec\<close>

text \<open>
  What wrapping does to a cursor that is not empty, and what unwrapping reads back when
  the identifier and the cursor are valid UTF-8.
\<close>

lemma wrapCursor_unwraps:
  assumes "c \<noteq> []" and "ValidString v" and "ValidString c"
  shows "wrapCursor referenceStdlib c v \<noteq> []"
    and "base64_DecodeString referenceStdlib (wrapCursor referenceStdlib c v)
         = marshalCursor \<lparr>VariantID = v, InnerCursor = c\<rparr>"
    and "\<exists>data. marshalCursor \<lparr>VariantID = v, InnerCursor = c\<rparr> = Some data
           \<and> json_Unmarshal referenceStdlib data = Some \<lparr>VariantID = v, InnerCursor = c\<rparr>"
proof -
  obtain data where m: "marshalCursor \<lparr>VariantID = v, InnerCursor = c\<rparr> = Some data"
    and d: "data \<noteq> []"
    by (simp add: marshalCursor_def)
  have w: "wrapCursor referenceStdlib c v = EncodeToString data"
    using assms(1) m by (simp add: wrapCursor_def referenceStdlib_def)
  show "wrapCursor referenceStdlib c v \<noteq> []"
    using EncodeToString_not_empty [OF d] by (simp add: w)
  show "base64_DecodeString referenceStdlib (wrapCursor referenceStdlib c v)
         = marshalCursor \<lparr>VariantID = v, InnerCursor = c\<rparr>"
    by (simp only: w) (simp add: m referenceStdlib_def DecodeString_EncodeToString)
  show "\<exists>data. marshalCursor \<lparr>VariantID = v, InnerCursor = c\<rparr> = Some data
           \<and> json_Unmarshal referenceStdlib data = Some \<lparr>VariantID = v, InnerCursor = c\<rparr>"
    using m unmarshal_marshal [OF assms(2,3) m] by (simp add: referenceStdlib_def)
qed

text \<open>
  C2 (amended). Wrapping the empty cursor gives the empty string, and the empty string
  unwraps to the empty cursor without an error, under every variant. For a variant ID
  \<open>v\<close> and a cursor \<open>c\<close> that are valid UTF-8, \<open>c\<close> not empty: unwrapping the wrapped cursor
  under \<open>v\<close> returns \<open>c\<close>, and under any other variant \<open>v'\<close> it fails with code -32602, the
  message \<^verbatim>\<open>Cursor invalid for requested variant\<close> and the data \<^verbatim>\<open>cursorVariant = v\<close>,
  \<^verbatim>\<open>requestedVariant = v'\<close>. An input that is not empty fails with -32602
  \<^verbatim>\<open>Invalid cursor format\<close> exactly when \<^verbatim>\<open>base64.StdEncoding\<close> does not decode it or
  \<^verbatim>\<open>json.Unmarshal\<close> returns an error on the decoded bytes.
\<close>

theorem C2_cursor_codec:
  "wrapCursor referenceStdlib [] v = []
   \<and> unwrapCursor referenceStdlib [] v = Inr []
   \<and> (c \<noteq> [] \<and> ValidString v \<and> ValidString c
        \<longrightarrow> unwrapCursor referenceStdlib (wrapCursor referenceStdlib c v) v = Inr c)
   \<and> (c \<noteq> [] \<and> ValidString v \<and> ValidString c \<and> v' \<noteq> v
        \<longrightarrow> unwrapCursor referenceStdlib (wrapCursor referenceStdlib c v) v'
              = Inl (JsonRpcError
                   \<lparr>Code = - 32602, Message = ''Cursor invalid for requested variant'',
                    Data = Raw_value (JObj [(''cursorVariant'', JStr v),
                                            (''requestedVariant'', JStr v')])\<rparr>))
   \<and> (s \<noteq> []
        \<longrightarrow> (unwrapCursor referenceStdlib s v
               = Inl (JsonRpcError \<lparr>Code = - 32602, Message = ''Invalid cursor format'',
                                    Data = Raw_empty\<rparr>))
            = (base64_DecodeString referenceStdlib s = None
               \<or> (\<exists>data. base64_DecodeString referenceStdlib s = Some data
                         \<and> json_Unmarshal referenceStdlib data = None)))"
proof -
  have 1: "wrapCursor referenceStdlib [] v = []" "unwrapCursor referenceStdlib [] v = Inr []"
    by (simp_all add: wrapCursor_def unwrapCursor_def)
  have 2: "unwrapCursor referenceStdlib (wrapCursor referenceStdlib c v) v = Inr c"
    if "c \<noteq> []" "ValidString v" "ValidString c"
  proof -
    from wrapCursor_unwraps [OF that] obtain data where
      "wrapCursor referenceStdlib c v \<noteq> []"
      "base64_DecodeString referenceStdlib (wrapCursor referenceStdlib c v) = Some data"
      "json_Unmarshal referenceStdlib data = Some \<lparr>VariantID = v, InnerCursor = c\<rparr>"
      by auto
    then show ?thesis by (simp add: unwrapCursor_def)
  qed
  have 3: "unwrapCursor referenceStdlib (wrapCursor referenceStdlib c v) v'
              = Inl (JsonRpcError
                   \<lparr>Code = - 32602, Message = ''Cursor invalid for requested variant'',
                    Data = Raw_value (JObj [(''cursorVariant'', JStr v),
                                            (''requestedVariant'', JStr v')])\<rparr>)"
    if "c \<noteq> []" "ValidString v" "ValidString c" "v' \<noteq> v"
  proof -
    from wrapCursor_unwraps [OF that(1-3)] obtain data where
      "wrapCursor referenceStdlib c v \<noteq> []"
      "base64_DecodeString referenceStdlib (wrapCursor referenceStdlib c v) = Some data"
      "json_Unmarshal referenceStdlib data = Some \<lparr>VariantID = v, InnerCursor = c\<rparr>"
      by auto
    then show ?thesis using that(4) by (auto simp: unwrapCursor_def CodeInvalidParams_def)
  qed
  have 4: "(unwrapCursor referenceStdlib s v
               = Inl (JsonRpcError \<lparr>Code = - 32602, Message = ''Invalid cursor format'',
                                    Data = Raw_empty\<rparr>))
            = (base64_DecodeString referenceStdlib s = None
               \<or> (\<exists>data. base64_DecodeString referenceStdlib s = Some data
                         \<and> json_Unmarshal referenceStdlib data = None))"
    if "s \<noteq> []"
    using that
    by (auto simp: unwrapCursor_def invalidCursorFormat_def CodeInvalidParams_def
        split: option.splits)
  show ?thesis using 1 2 3 4 by blast
qed

lemma reference_marshal:
  "marshalCursor \<lparr>VariantID = ''coding'', InnerCursor = ''abc''\<rparr> = Some cursorText"
  by (simp add: marshalCursor_def appendString_def htmlSafeSet_def cursorText_def)

lemma reference_encode:
  "EncodeToString cursorText = ''eyJ2IjoiY29kaW5nIiwiYyI6ImFiYyJ9''"
  by (simp add: EncodeToString_def sextetChar_def base64Alphabet_def Let_def cursorText_def)

lemma reference_wrap:
  "wrapCursor referenceStdlib ''abc'' ''coding'' = ''eyJ2IjoiY29kaW5nIiwiYyI6ImFiYyJ9''"
  by (simp add: wrapCursor_def referenceStdlib_def reference_marshal reference_encode)

lemma reference_rejects: "base64_DecodeString referenceStdlib ''!!!!'' = None"
  by (simp add: referenceStdlib_def DecodeString_def isNewline_def sextetOf_def Let_def)

lemma reference_valid: "ValidString ''abc''" "ValidString ''coding''"
  by (simp_all add: RuneError_def)

text \<open>The cursor \<^verbatim>\<open>abc\<close> of variant \<^verbatim>\<open>coding\<close>, and an input that is not base64.\<close>

theorem C2_cursor_codec_witness:
  "''abc'' \<noteq> [] \<and> ValidString ''coding'' \<and> ValidString ''abc''
   \<and> ''compact'' \<noteq> ''coding''
   \<and> wrapCursor referenceStdlib ''abc'' ''coding'' = ''eyJ2IjoiY29kaW5nIiwiYyI6ImFiYyJ9''
   \<and> unwrapCursor referenceStdlib ''eyJ2IjoiY29kaW5nIiwiYyI6ImFiYyJ9'' ''coding'' = Inr ''abc''
   \<and> unwrapCursor referenceStdlib ''eyJ2IjoiY29kaW5nIiwiYyI6ImFiYyJ9'' ''compact''
       = Inl (JsonRpcError
            \<lparr>Code = - 32602, Message = ''Cursor invalid for requested variant'',
             Data = Raw_value (JObj [(''cursorVariant'', JStr ''coding''),
                                     (''requestedVariant'', JStr ''compact'')])\<rparr>)
   \<and> ''!!!!'' \<noteq> [] \<and> base64_DecodeString referenceStdlib ''!!!!'' = None
   \<and> unwrapCursor referenceStdlib ''!!!!'' ''coding''
       = Inl (JsonRpcError \<lparr>Code = - 32602, Message = ''Invalid cursor format'',
                            Data = Raw_empty\<rparr>)"
proof -
  note t = C2_cursor_codec [where c = "''abc''" and v = "''coding''"
             and v' = "''compact''" and s = "''!!!!''"]
  have a: "''abc'' \<noteq> []" "''compact'' \<noteq> ''coding''" "''!!!!'' \<noteq> []" by simp_all
  from t a reference_valid reference_rejects reference_wrap
  show ?thesis by simp
qed

lemma partial_decode_bytes:
  "decodeGroups ''eyJ2IjoiY29kaW5nIn0='' = Some (map of_char partialCursorText)"
  by (simp add: sextetOf_def Let_def partialCursorText_def)

lemma partial_decodes:
  "DecodeString ''eyJ2IjoiY29kaW5nIn0='' = Some partialCursorText"
  by (simp add: DecodeString_def isNewline_def partial_decode_bytes comp_def
      del: decodeGroups.simps)

lemma partial_unmarshals:
  "unmarshalCursor partialCursorText = Some \<lparr>VariantID = ''coding'', InnerCursor = []\<rparr>"
  by (simp add: unmarshalCursor_def partialCursorText_def isSpace_def scanToken_def
      punctuation_def consumed_def emit_def prepend_def fieldOf_def storeString_def
      afterValue_def maxNestingDepth_def)

lemma null_decode_bytes: "decodeGroups ''bnVsbA=='' = Some (map of_char ''null'')"
  by (simp add: sextetOf_def Let_def)

lemma null_decodes: "DecodeString ''bnVsbA=='' = Some ''null''"
  by (simp add: DecodeString_def isNewline_def null_decode_bytes char_of_eq_iff take_bit_eq_mod
      del: decodeGroups.simps)

lemma null_unmarshals: "unmarshalCursor ''null'' = Some \<lparr>VariantID = [], InnerCursor = []\<rparr>"
  by (simp add: unmarshalCursor_def isSpace_def scanToken_def punctuation_def isDigit_def
      scanLiteral_def emit_def afterValue_def)

lemma invalid_marshals:
  "marshalCursor \<lparr>VariantID = ''coding'', InnerCursor = [CHR 0xFF]\<rparr> = Some replacedCursorText"
  by (simp add: marshalCursor_def appendString_def htmlSafeSet_def RuneError_def
      replacedCursorText_def)

lemma replaced_unmarshals:
  "unmarshalCursor replacedCursorText
   = Some \<lparr>VariantID = ''coding'', InnerCursor = [CHR 0xEF, CHR 0xBF, CHR 0xBD]\<rparr>"
  by (simp add: unmarshalCursor_def replacedCursorText_def isSpace_def scanToken_def
      punctuation_def consumed_def emit_def prepend_def fieldOf_def storeString_def
      afterValue_def maxNestingDepth_def scanEscape_def hexValue_def IsSurrogate_def
      EncodeRune_def RuneError_def char_of_eq_iff take_bit_eq_mod)

text \<open>
  C2 as stated fails at three inputs. The base64 text of \<^verbatim>\<open>{"v":"coding"}\<close>, which has no
  member \<^verbatim>\<open>c\<close>, unwraps under \<^verbatim>\<open>coding\<close> to the empty cursor without an error. The base64
  text of \<^verbatim>\<open>null\<close>, which is no object, fails under \<^verbatim>\<open>coding\<close> with the message of a
  variant mismatch, not with \<^verbatim>\<open>Invalid cursor format\<close>. And the cursor that is the one
  byte \<^verbatim>\<open>0xFF\<close>, which is not valid UTF-8, comes back from wrapping and unwrapping under
  the same variant as the three bytes of \<^verbatim>\<open>U+FFFD\<close>.
\<close>

theorem C2_lenient_decoding:
  "base64_DecodeString referenceStdlib ''eyJ2IjoiY29kaW5nIn0='' = Some partialCursorText
   \<and> unwrapCursor referenceStdlib ''eyJ2IjoiY29kaW5nIn0='' ''coding'' = Inr []
   \<and> base64_DecodeString referenceStdlib ''bnVsbA=='' = Some ''null''
   \<and> unwrapCursor referenceStdlib ''bnVsbA=='' ''coding''
       = Inl (JsonRpcError
            \<lparr>Code = - 32602, Message = ''Cursor invalid for requested variant'',
             Data = Raw_value (JObj [(''cursorVariant'', JStr []),
                                     (''requestedVariant'', JStr ''coding'')])\<rparr>)
   \<and> unwrapCursor referenceStdlib (wrapCursor referenceStdlib [CHR 0xFF] ''coding'') ''coding''
       = Inr [CHR 0xEF, CHR 0xBF, CHR 0xBD]"
proof -
  have 1: "base64_DecodeString referenceStdlib ''eyJ2IjoiY29kaW5nIn0='' = Some partialCursorText"
    by (simp add: referenceStdlib_def partial_decodes)
  have 2: "unwrapCursor referenceStdlib ''eyJ2IjoiY29kaW5nIn0='' ''coding'' = Inr []"
    by (simp add: unwrapCursor_def 1) (simp add: referenceStdlib_def partial_unmarshals)
  have 3: "base64_DecodeString referenceStdlib ''bnVsbA=='' = Some ''null''"
    by (simp add: referenceStdlib_def null_decodes)
  have 4: "unwrapCursor referenceStdlib ''bnVsbA=='' ''coding''
       = Inl (JsonRpcError
            \<lparr>Code = - 32602, Message = ''Cursor invalid for requested variant'',
             Data = Raw_value (JObj [(''cursorVariant'', JStr []),
                                     (''requestedVariant'', JStr ''coding'')])\<rparr>)"
    by (simp add: unwrapCursor_def 3 CodeInvalidParams_def)
       (simp add: referenceStdlib_def null_unmarshals CodeInvalidParams_def)
  have r: "replacedCursorText \<noteq> []" by (simp add: replacedCursorText_def)
  have w: "wrapCursor referenceStdlib [CHR 0xFF] ''coding'' = EncodeToString replacedCursorText"
    by (simp add: wrapCursor_def referenceStdlib_def invalid_marshals)
  have 5: "unwrapCursor referenceStdlib (wrapCursor referenceStdlib [CHR 0xFF] ''coding'') ''coding''
       = Inr [CHR 0xEF, CHR 0xBF, CHR 0xBD]"
    using EncodeToString_not_empty [OF r]
    by (simp add: w unwrapCursor_def)
       (simp add: referenceStdlib_def DecodeString_EncodeToString replaced_unmarshals)
  show ?thesis using 1 2 3 4 5 by blast
qed

section \<open>Unknown variant selectors\<close>

lemma handle_getSession_error:
  assumes "method \<in> set routedMethods" and "getSession d params = Inl err"
  shows "handle L d method params next = (Inr (Inl err), [])"
  using assms
  by (auto simp: routedMethods_def listMethods_def handle_def handleList_def handleCall_def
      handleSubscribe_def handleUnsubscribe_def handleCompletion_def)

lemma getSession_unknown:
  assumes "Meta p = Some meta" and "map_of meta metaKeyVariant = Some (JStr vid)"
      and "vid \<noteq> []" and "map_of (connections d) vid = None"
  shows "getSession d (Ptr p) = Inl (createInvalidVariantError d vid)"
  using assms by (simp add: getSession_def variantIDFromMeta_def Let_def)

lemma set_bubble: "set (bubble cmp x ys) = insert x (set ys)"
  by (induction ys) auto

lemma mset_bubble: "mset (bubble cmp x ys) = add_mset x (mset ys)"
  by (induction ys) auto

lemma mset_insertionSortCmpFunc: "mset (insertionSortCmpFunc cmp ds xs) = mset ds + mset xs"
  by (induction xs arbitrary: ds) (auto simp: mset_bubble)

lemma default_ranking_permutes:
  "rankingFunc s = None \<Longrightarrow> mset (RankedVariants s hints) = mset (Variants s)"
  by (simp add: RankedVariants_def Let_def defaultRankingFunc_def SortStableFunc_def
      mset_insertionSortCmpFunc)

text \<open>
  C5 (amended). For the dispatcher of a session state created for a registry with unique
  IDs, and every routed method: a request whose selector is a non-empty string that is
  not a registered variant ID is answered with the error -32602
  \<^verbatim>\<open>Invalid server variant\<close> whose data holds \<^verbatim>\<open>requestedVariant\<close>, the selector, and
  \<^verbatim>\<open>availableVariants\<close>, a list of IDs; no inner session is called. When the registry has
  no custom ranking function, the list is the registered IDs in rank order: the order
  in which the variants are ranked with any hints, those of \<^verbatim>\<open>initialize\<close> included, and
  a permutation of the registered IDs.
\<close>

theorem C5_unknown_variant_is_rejected:
  assumes "distinct (map ID (Variants s))"
      and "createSessionState s fs w = (Inr state, w')"
  shows "meth \<in> set routedMethods \<and> Meta p = Some meta
          \<and> map_of meta metaKeyVariant = Some (JStr vid)
          \<and> vid \<noteq> [] \<and> vid \<notin> set (map ID (Variants s))
          \<longrightarrow> (\<exists>ids. handle L (ssDispatcher state) meth (Ptr p) next
                       = (Inr (Inl (JsonRpcError
                            \<lparr>Code = - 32602, Message = ''Invalid server variant'',
                             Data = Raw_value (JObj
                               [(''requestedVariant'', JStr vid),
                                (''availableVariants'', JArr (map JStr ids))])\<rparr>)), [])
                   \<and> (rankingFunc s = None
                        \<longrightarrow> ids = map ID (RankedVariants s hints)
                            \<and> mset ids = mset (map ID (Variants s))))"
proof (intro impI, elim conjE)
  assume m: "meth \<in> set routedMethods" and a: "Meta p = Some meta"
     "map_of meta metaKeyVariant = Some (JStr vid)" "vid \<noteq> []"
     and n: "vid \<notin> set (map ID (Variants s))"
  from assms(2) obtain conns where c: "connectAll (variants s) fs [] w = (Inr conns, w')"
    and st: "state = \<lparr>ssDispatcher = \<lparr>server = s, connections = conns\<rparr>\<rparr>"
    by (auto simp: createSessionState_def split: prod.splits sum.splits)
  have d: "distinct (map (\<lambda>e. ID (variant e)) (variants s))"
    using assms(1) by (simp add: Variants_eq comp_def)
  have e: "set (map (\<lambda>e. ID (variant e)) (variants s)) \<inter> fst ` set [] = {}" by simp
  from connectAll_Inr [OF c d e] have keys: "map fst conns = map ID (Variants s)"
    by (simp add: Variants_eq)
  from n keys have "vid \<notin> fst ` set conns" by (metis set_map)
  then have "map_of conns vid = None" by (simp add: map_of_eq_None_iff)
  then have "map_of (connections (ssDispatcher state)) vid = None" by (simp add: st)
  from getSession_unknown [OF a this]
  have "getSession (ssDispatcher state) (Ptr p)
        = Inl (createInvalidVariantError (ssDispatcher state) vid)" .
  from handle_getSession_error [OF m this]
  have 1: "handle L (ssDispatcher state) meth (Ptr p) next
           = (Inr (Inl (JsonRpcError
                \<lparr>Code = - 32602, Message = ''Invalid server variant'',
                 Data = Raw_value (JObj
                   [(''requestedVariant'', JStr vid),
                    (''availableVariants'',
                       JArr (map JStr (map ID (RankedVariants s noHints))))])\<rparr>)), [])"
    by (simp add: createInvalidVariantError_def Let_def st CodeInvalidParams_def)
  have 2: "map ID (RankedVariants s noHints) = map ID (RankedVariants s hints)
           \<and> mset (map ID (RankedVariants s noHints)) = mset (map ID (Variants s))"
    if r: "rankingFunc s = None"
  proof -
    have "mset (map ID (RankedVariants s noHints)) = image_mset ID (mset (RankedVariants s noHints))"
      by simp
    also have "\<dots> = image_mset ID (mset (Variants s))"
      by (simp only: default_ranking_permutes [OF r])
    finally show ?thesis using default_ranking_ignores_hints [OF r, of hints] by simp
  qed
  show "\<exists>ids. handle L (ssDispatcher state) meth (Ptr p) next
                 = (Inr (Inl (JsonRpcError
                      \<lparr>Code = - 32602, Message = ''Invalid server variant'',
                       Data = Raw_value (JObj
                         [(''requestedVariant'', JStr vid),
                          (''availableVariants'', JArr (map JStr ids))])\<rparr>)), [])
             \<and> (rankingFunc s = None
                  \<longrightarrow> ids = map ID (RankedVariants s hints)
                      \<and> mset ids = mset (map ID (Variants s)))"
    using 1 2 by (intro exI [of _ "map ID (RankedVariants s noHints)"]) blast
qed

lemma pairServer_variants:
  "variants pairServer =
     [\<lparr>variant = (plainVariant ''fast'')\<lparr>priority := 1\<rparr>, backend = InMemoryBackend (answering ''fast'')\<rparr>,
      \<lparr>variant = plainVariant ''safe'', backend = InMemoryBackend (answering ''safe'')\<rparr>]"
  "rankingFunc pairServer = None"
  by (simp_all add: pairServer_def WithVariant_def addVariant_def NewServer_def plainVariant_def)

lemma pair_connects:
  "createSessionState pairServer (Some 7) emptyWorld
   = (Inr pairState, \<lparr>nextSession = 4, closedSessions = []\<rparr>)"
  by (simp add: createSessionState_def pairServer_variants connect_def Let_def answering_def
      emptyWorld_def pairState_def plainVariant_def)

lemma pair_ranked:
  "map ID (RankedVariants pairServer hints) = [''safe'', ''fast'']"
  by (simp add: RankedVariants_def Variants_eq pairServer_variants defaultRankingFunc_def
      SortStableFunc_def rankCmp_def Priority_def plainVariant_def)

text \<open>
  The registry of \<^verbatim>\<open>fast\<close> and \<^verbatim>\<open>safe\<close> and the selector \<^verbatim>\<open>nonexistent\<close>: the error lists
  \<^verbatim>\<open>safe\<close>, of priority 0, before \<^verbatim>\<open>fast\<close>.
\<close>

theorem C5_unknown_variant_witness:
  "distinct (map ID (Variants pairServer))
   \<and> createSessionState pairServer (Some 7) emptyWorld
       = (Inr pairState, \<lparr>nextSession = 4, closedSessions = []\<rparr>)
   \<and> ''tools/list'' \<in> set routedMethods
   \<and> ''nonexistent'' \<notin> set (map ID (Variants pairServer))
   \<and> rankingFunc pairServer = None
   \<and> handle referenceStdlib (ssDispatcher pairState) ''tools/list'' (Ptr unknownSelector) sdkNext
       = (Inr (Inl (JsonRpcError
            \<lparr>Code = - 32602, Message = ''Invalid server variant'',
             Data = Raw_value (JObj
               [(''requestedVariant'', JStr ''nonexistent''),
                (''availableVariants'', JArr [JStr ''safe'', JStr ''fast''])])\<rparr>)), [])
   \<and> map ID (RankedVariants pairServer openaiHints) = [''safe'', ''fast'']
   \<and> mset [''safe'', ''fast''] = mset (map ID (Variants pairServer))"
proof -
  have v: "map ID (Variants pairServer) = [''fast'', ''safe'']"
    by (simp add: Variants_eq pairServer_variants plainVariant_def)
  have d: "distinct (map ID (Variants pairServer))" using v by simp
  have a: "''tools/list'' \<in> set routedMethods" by (simp add: routedMethods_def listMethods_def)
  have b: "''nonexistent'' \<notin> set (map ID (Variants pairServer))" using v by simp
  have c: "Meta unknownSelector = Some [(metaKeyVariant, JStr ''nonexistent'')]"
    "map_of [(metaKeyVariant, JStr ''nonexistent'')] metaKeyVariant = Some (JStr ''nonexistent'')"
    "''nonexistent'' \<noteq> []"
    by (simp_all add: unknownSelector_def)
  show ?thesis
    using C5_unknown_variant_is_rejected [OF d pair_connects,
            where meth = "''tools/list''" and p = unknownSelector
              and meta = "[(metaKeyVariant, JStr ''nonexistent'')]" and vid = "''nonexistent''"
              and L = referenceStdlib and ?next = sdkNext and hints = openaiHints]
          a b c d pair_connects
    by (auto simp: pairServer_variants pair_ranked v)
qed

text \<open>
  C5 as stated fails at a selector that is the empty string or not a string: neither is
  a registered ID, yet the request is served by the default variant, and an inner
  session is called.
\<close>

theorem C5_empty_selector_is_not_rejected:
  "[] \<notin> set (map ID (Variants weatherServer))
   \<and> createSessionState weatherServer (Some 7) emptyWorld
       = (Inr weatherState, \<lparr>nextSession = 4, closedSessions = []\<rparr>)
   \<and> handle referenceStdlib (ssDispatcher weatherState) ''tools/list'' emptySelector sdkNext
       = (Inr (Inr (PlainResult (JStr ''claude''))), [(1, ''tools/list'')])
   \<and> handle referenceStdlib (ssDispatcher weatherState) ''tools/list'' numberSelector sdkNext
       = (Inr (Inr (PlainResult (JStr ''claude''))), [(1, ''tools/list'')])"
proof -
  have b: "[] \<notin> set (map ID (Variants weatherServer))"
    by (simp add: Variants_eq weatherServer_variants claudeVariant_def gptVariant_def)
  have v: "variantIDFromMeta emptySelector = []" "variantIDFromMeta numberSelector = []"
    by (simp_all add: variantIDFromMeta_def emptySelector_def numberSelector_def)
  have g: "getSession (ssDispatcher weatherState) emptySelector
           = Inr (''claude-optimized'', \<lparr>sessID = 1, rpc = respond (answering ''claude'')\<rparr>)"
          "getSession (ssDispatcher weatherState) numberSelector
           = Inr (''claude-optimized'', \<lparr>sessID = 1, rpc = respond (answering ''claude'')\<rparr>)"
    by (simp_all add: getSession_default v) (simp_all add: weatherState_def rank_none claudeVariant_def)
  have k: "asKind ListToolsParams emptySelector
           = Some \<lparr>pKind = ListToolsParams, Meta = Some [(metaKeyVariant, JStr [])],
                   Cursor = [], pCapabilities = None, pBody = JNull\<rparr>"
          "asKind ListToolsParams numberSelector
           = Some \<lparr>pKind = ListToolsParams, Meta = Some [(metaKeyVariant, JNum 7)],
                   Cursor = [], pCapabilities = None, pBody = JNull\<rparr>"
    by (simp_all add: emptySelector_def numberSelector_def)
  have h: "handle referenceStdlib (ssDispatcher weatherState) ''tools/list'' emptySelector sdkNext
       = (Inr (Inr (PlainResult (JStr ''claude''))), [(1, ''tools/list'')])"
          "handle referenceStdlib (ssDispatcher weatherState) ''tools/list'' numberSelector sdkNext
       = (Inr (Inr (PlainResult (JStr ''claude''))), [(1, ''tools/list'')])"
    by (simp_all add: handle_def listMethods_def handleList_def g k listParamsKind_def forward_def
        answering_def)
  show ?thesis using b h weather_connects by blast
qed

section \<open>Error enrichment\<close>

text \<open>
  What \<^verbatim>\<open>enrichError\<close> does on every other input: an error that is no JSON-RPC error, or
  one with another code, is returned as the same object; an error with code -32602 or
  -32601 whose data is not \<^verbatim>\<open>null\<close> yields a new object with the same code and message,
  \<^verbatim>\<open>activeVariant\<close> set and every other member of an object-valued data kept. The heap
  it was given is a prefix of the heap it returns.
\<close>

lemma enrichError_alloc_passes:
  assumes "errors_As (h ! p) = None
           \<or> (\<exists>j. errors_As (h ! p) = Some j \<and> Code j \<noteq> CodeInvalidParams \<and> Code j \<noteq> CodeMethodNotFound)"
  shows "enrichError_alloc h p v = Inr (h, p)"
  using assms by (auto simp: enrichError_alloc_def)

lemma enrichError_alloc_enriches:
  assumes "errors_As (h ! p) = Some j"
      and "Code j = CodeInvalidParams \<or> Code j = CodeMethodNotFound"
      and "Data j \<noteq> Raw_value JNull"
  shows "\<exists>dm. enrichError_alloc h p v
              = Inr (h @ [JsonRpcError \<lparr>Code = Code j, Message = Message j,
                                        Data = Raw_value (JObj dm)\<rparr>], length h)
            \<and> map_of dm ''activeVariant'' = Some (JStr v)
            \<and> (\<forall>k. k \<noteq> ''activeVariant'' \<longrightarrow>
                  map_of dm k = (case Data j of
                                   Raw_value (JObj members) \<Rightarrow> map_of members k
                                 | _ \<Rightarrow> None))"
proof (cases "Data j")
  case Raw_empty
  then show ?thesis using assms(1,2)
    by (simp add: enrichError_alloc_def Let_def)
next
  case (Raw_value x)
  then show ?thesis using assms
    by (cases x) (auto simp: enrichError_alloc_def Let_def json_Unmarshal_map_def update_conv'
        merge_conv')
next
  case (Raw_invalid b)
  then show ?thesis using assms(1,2)
    by (simp add: enrichError_alloc_def Let_def json_Unmarshal_map_def)
qed

lemma enrichError_alloc_keeps_heap:
  assumes "enrichError_alloc h p v = Inr (h', q)"
  shows "take (length h) h' = h
         \<and> ((q = p \<and> h' = h) \<or> (q = length h \<and> length h' = Suc (length h)))"
  using assms
  by (auto simp: enrichError_alloc_def Let_def split: option.splits if_splits)

lemma codingServer_variants:
  "variants codingServer =
     [\<lparr>variant = plainVariant ''coding'', backend = InMemoryBackend (rejecting nullDataError)\<rparr>]"
  by (simp add: codingServer_def WithVariant_def addVariant_def NewServer_def plainVariant_def)

lemma coding_connects:
  "createSessionState codingServer (Some 7) emptyWorld
   = (Inr \<lparr>ssDispatcher = codingDispatcher\<rparr>, \<lparr>nextSession = 2, closedSessions = []\<rparr>)"
  by (simp add: createSessionState_def codingServer_variants connect_def Let_def rejecting_def
      quietServer_def emptyWorld_def plainVariant_def codingDispatcher_def)

text \<open>
  C6. An inner error with code -32602 is meant to come back with \<^verbatim>\<open>activeVariant\<close> added
  to its data. When the data is the JSON value \<^verbatim>\<open>null\<close>, unmarshalling it sets the map to
  \<^verbatim>\<open>nil\<close> and the assignment of \<^verbatim>\<open>activeVariant\<close> panics: \<^verbatim>\<open>enrichError\<close> returns no
  error at all, and neither does the \<^verbatim>\<open>tools/call\<close> that received the inner error.
\<close>

theorem C6_null_data_panics:
  "errors_As nullDataError
     = Some \<lparr>Code = CodeInvalidParams, Message = ''unknown tool'', Data = Raw_value JNull\<rparr>
   \<and> enrichError_alloc [nullDataError] 0 ''coding''
       = Inl (Panic ''assignment to entry in nil map'')
   \<and> enrichError nullDataError ''coding'' = Inl (Panic ''assignment to entry in nil map'')
   \<and> createSessionState codingServer (Some 7) emptyWorld
       = (Inr \<lparr>ssDispatcher = codingDispatcher\<rparr>, \<lparr>nextSession = 2, closedSessions = []\<rparr>)
   \<and> handle referenceStdlib codingDispatcher ''tools/call'' codingCall sdkNext
       = (Inl (Panic ''assignment to entry in nil map''), [(1, ''tools/call'')])"
proof -
  have 1: "errors_As nullDataError
     = Some \<lparr>Code = CodeInvalidParams, Message = ''unknown tool'', Data = Raw_value JNull\<rparr>"
    by (simp add: nullDataError_def CodeInvalidParams_def)
  have 2: "enrichError_alloc [nullDataError] 0 ''coding''
       = Inl (Panic ''assignment to entry in nil map'')"
    by (simp add: enrichError_alloc_def nullDataError_def CodeInvalidParams_def Let_def
        json_Unmarshal_map_def)
  have 3: "enrichError nullDataError ''coding'' = Inl (Panic ''assignment to entry in nil map'')"
    by (simp add: enrichError_def 2)
  have g: "getSession codingDispatcher codingCall
           = Inr (''coding'', \<lparr>sessID = 1, rpc = respond (rejecting nullDataError)\<rparr>)"
    by (simp add: getSession_def variantIDFromMeta_def codingCall_def Let_def
        codingDispatcher_def)
  have k: "asKind CallToolParamsRaw codingCall
           = Some \<lparr>pKind = CallToolParamsRaw, Meta = Some [(metaKeyVariant, JStr ''coding'')],
                   Cursor = [], pCapabilities = None, pBody = JStr ''analyze_code''\<rparr>"
    by (simp add: codingCall_def)
  have f: "forward \<lparr>sessID = i, rpc = respond (rejecting nullDataError)\<rparr> ''tools/call'' p
             ''coding'' post
           = (Inl (Panic ''assignment to entry in nil map''), [(i, ''tools/call'')])" for i p post
    by (simp add: forward_def rejecting_def 3)
  have 4: "handle referenceStdlib codingDispatcher ''tools/call'' codingCall sdkNext
       = (Inl (Panic ''assignment to entry in nil map''), [(1, ''tools/call'')])"
    by (simp add: handle_def listMethods_def handleCall_def g k f)
  show ?thesis using 1 2 3 4 coding_connects by blast
qed

section \<open>The default ranking where the difference does not wrap\<close>

text \<open>
  For priorities between \<open>- 2 ^ 62\<close> and \<open>2 ^ 62\<close> the comparison is negative exactly
  when the pair (priority, status weight) is smaller, and the insertion sort is then the
  stable sort by that pair: the result is ordered by ascending priority.
\<close>

lemma sint_diff_in_range:
  fixes a b :: go_int
  assumes "- (2 ^ 62) \<le> sint a" "sint a < 2 ^ 62" "- (2 ^ 62) \<le> sint b" "sint b < 2 ^ 62"
  shows "sint (a - b) = sint a - sint b"
proof -
  have "- (2 ^ 63) \<le> sint a - sint b" "sint a - sint b < 2 ^ 63" using assms by simp_all
  then have "signed_take_bit 63 (sint a - sint b) = sint a - sint b"
    by (rule signed_take_bit_int_eq_self)
  then show ?thesis by (simp add: sint_word_diff)
qed

lemma statusWeight_range: "0 \<le> sint (statusWeight s) \<and> sint (statusWeight s) \<le> 3"
  by (simp add: statusWeight_def)

lemma rankCmp_in_range:
  assumes "priorityInRange a" "priorityInRange b"
  shows "(sint (rankCmp a b) < 0) = (rankKey a < rankKey b)"
proof (cases "Priority a = Priority b")
  case True
  have "sint (statusWeight (Status a) - statusWeight (Status b))
        = sint (statusWeight (Status a)) - sint (statusWeight (Status b))"
    using statusWeight_range [of "Status a"] statusWeight_range [of "Status b"]
    by (intro sint_diff_in_range) simp_all
  then show ?thesis using True by (simp add: rankCmp_def rankKey_def)
next
  case False
  then have ne: "sint (Priority a) \<noteq> sint (Priority b)"
    using signed_word_eqI [of "Priority a" "Priority b", where ?'a = int] by (auto simp: sint_uint)
  have "sint (Priority a - Priority b) = sint (Priority a) - sint (Priority b)"
    using assms by (intro sint_diff_in_range) (simp_all add: priorityInRange_def)
  then show ?thesis using False ne by (auto simp: rankCmp_def rankKey_def)
qed

lemma sorted_bubble:
  fixes key :: "'a \<Rightarrow> 'k :: linorder"
  assumes "\<And>a b. a \<in> A \<Longrightarrow> b \<in> A \<Longrightarrow> (sint (cmp a b) < 0) = (key a < key b)"
      and "x \<in> A" "set ds \<subseteq> A" "sorted (map key (rev ds))"
  shows "sorted (map key (rev (bubble cmp x ds)))"
  using assms(3,4)
proof (induction ds)
  case Nil
  then show ?case by simp
next
  case (Cons y ys)
  have c: "(sint (cmp x y) < 0) = (key x < key y)" using assms(1) [of x y] assms(2) Cons.prems(1) by simp
  from Cons.prems(2) have s: "sorted (map key (rev ys))" and le: "\<forall>z \<in> set ys. key z \<le> key y"
    by (auto simp: sorted_append)
  show ?case
  proof (cases "key x < key y")
    case True
    have "sorted (map key (rev (bubble cmp x ys)))" using Cons.IH Cons.prems(1) s by simp
    then show ?thesis using True c le by (auto simp: sorted_append set_bubble)
  next
    case False
    then show ?thesis using c Cons.prems(2) le by (auto simp: sorted_append)
  qed
qed

lemma filter_bubble:
  fixes key :: "'a \<Rightarrow> 'k :: linorder"
  assumes "\<And>a b. a \<in> A \<Longrightarrow> b \<in> A \<Longrightarrow> (sint (cmp a b) < 0) = (key a < key b)"
      and "x \<in> A" "set ds \<subseteq> A"
  shows "filter (\<lambda>z. k = key z) (rev (bubble cmp x ds))
         = filter (\<lambda>z. k = key z) (rev ds) @ filter (\<lambda>z. k = key z) [x]"
  using assms(3)
proof (induction ds)
  case Nil
  then show ?case by simp
next
  case (Cons y ys)
  have c: "(sint (cmp x y) < 0) = (key x < key y)" using assms(1) [of x y] assms(2) Cons.prems(1) by simp
  show ?case
  proof (cases "key x < key y")
    case True
    then show ?thesis using c Cons.IH Cons.prems by auto
  next
    case False
    then show ?thesis using c by simp
  qed
qed

lemma insertionSortCmpFunc_stable_sorted:
  fixes key :: "'a \<Rightarrow> 'k :: linorder"
  assumes "\<And>a b. a \<in> A \<Longrightarrow> b \<in> A \<Longrightarrow> (sint (cmp a b) < 0) = (key a < key b)"
      and "set ds \<subseteq> A" "set xs \<subseteq> A" "sorted (map key (rev ds))"
  shows "sorted (map key (insertionSortCmpFunc cmp ds xs))
         \<and> filter (\<lambda>z. k = key z) (insertionSortCmpFunc cmp ds xs)
             = filter (\<lambda>z. k = key z) (rev ds) @ filter (\<lambda>z. k = key z) xs"
  using assms(2,3,4)
proof (induction xs arbitrary: ds)
  case Nil
  then show ?case by simp
next
  case (Cons x xs)
  have xA: "x \<in> A" using Cons.prems(2) by simp
  have 1: "set (bubble cmp x ds) \<subseteq> A" using Cons.prems(1) xA by (simp add: set_bubble)
  have 2: "sorted (map key (rev (bubble cmp x ds)))"
    using sorted_bubble [of A cmp key x ds] assms(1) xA Cons.prems(1,3) by blast
  have 3: "filter (\<lambda>z. k = key z) (rev (bubble cmp x ds))
         = filter (\<lambda>z. k = key z) (rev ds) @ filter (\<lambda>z. k = key z) [x]"
    using filter_bubble [of A cmp key x ds k] assms(1) xA Cons.prems(1) by blast
  from Cons.IH [OF 1 _ 2] Cons.prems(2) 3 show ?case by simp
qed

lemma SortStableFunc_is_sort_key:
  fixes key :: "'a \<Rightarrow> 'k :: linorder"
  assumes "\<And>a b. a \<in> set xs \<Longrightarrow> b \<in> set xs \<Longrightarrow> (sint (cmp a b) < 0) = (key a < key b)"
  shows "SortStableFunc cmp xs = sort_key key xs"
proof -
  let ?ys = "insertionSortCmpFunc cmp [] xs"
  have p: "sorted (map key ?ys) \<and> filter (\<lambda>z. k = key z) ?ys
             = filter (\<lambda>z. k = key z) (rev []) @ filter (\<lambda>z. k = key z) xs" for k
    using insertionSortCmpFunc_stable_sorted [of "set xs" cmp key "[]" xs k] assms by simp
  have "sort_key key xs = ?ys"
  proof (rule properties_for_sort_key)
    show "mset ?ys = mset xs" by (simp add: mset_insertionSortCmpFunc)
    show "sorted (map key ?ys)" using p by simp
    show "filter (\<lambda>x. key k = key x) ?ys = filter (\<lambda>x. key k = key x) xs" for k
      using p [of "key k"] by simp
  qed
  then show ?thesis by (simp add: SortStableFunc_def)
qed

lemma defaultRankingFunc_in_range:
  assumes "\<And>v. v \<in> set vs \<Longrightarrow> priorityInRange v"
  shows "defaultRankingFunc hints vs = sort_key rankKey vs"
  unfolding defaultRankingFunc_def
  by (rule SortStableFunc_is_sort_key) (simp add: rankCmp_in_range assms)

lemma defaultRankingFunc_ascending_priority:
  assumes "\<And>v. v \<in> set vs \<Longrightarrow> priorityInRange v"
  shows "sorted (map (\<lambda>v. sint (Priority v)) (defaultRankingFunc hints vs))"
proof -
  have "sorted (map rankKey (sort_key rankKey vs))" by simp
  then have "sorted_wrt (\<lambda>a b. rankKey a \<le> rankKey b) (sort_key rankKey vs)"
    by (simp add: sorted_map)
  moreover have "rankKey a \<le> rankKey b \<Longrightarrow> sint (Priority a) \<le> sint (Priority b)" for a b
    by (auto simp: rankKey_def less_eq_prod_def)
  ultimately have "sorted_wrt (\<lambda>a b. sint (Priority a) \<le> sint (Priority b)) (sort_key rankKey vs)"
    by (rule sorted_wrt_mono_rel [rotated]) blast
  then show ?thesis by (simp add: sorted_map defaultRankingFunc_in_range [OF assms])
qed

end
